(* ===== verification/Prelude.thy ===== *)
theory Prelude
  imports Main "HOL-Library.Word" "HOL-Library.Char_ord" "HOL-Library.List_Lexorder"
    "HOL-Library.Product_Lexorder" "HOL-Library.Sublist"
begin

text \<open>
  Shared vocabulary of the development: Rust's \<open>Result\<close> as a sum type with the combinators the
  sources use (\<open>?\<close>, \<open>and_then\<close>, \<open>map_err\<close>, \<open>ok_or\<close>, \<open>collect\<close>), loops that stop at the first
  error, the \<open>u64\<close> facts behind transaction ids, decimal printing and parsing of \<open>u64\<close>
  (\<open>to_string\<close>, \<open>str::parse\<close>), and \<open>Vec::dedup\<close>.

  A Rust \<open>String\<close> is its list of UTF-8 bytes, that is \<^typ>\<open>string\<close>: equality, \<open>len\<close> and the
  derived \<open>Ord\<close> of \<open>String\<close> are all byte-wise, and so are list equality, \<^const>\<open>length\<close> and the
  lexicographic order of \<open>List_Lexorder\<close> over \<open>Char_ord\<close>.
\<close>

named_theorems result_simps \<open>rewriting of results and the loops over them\<close>
named_theorems store_simps \<open>definitions of the tuple store\<close>
named_theorems service_simps \<open>definitions of the service layer\<close>

section \<open>Machine integers\<close>

type_synonym u64 = "64 word"

abbreviation u64_max :: u64 where
  "u64_max \<equiv> - 1"

section \<open>Results\<close>

text \<open>\<open>Result<'a, 'e>\<close> is \<^typ>\<open>'e + 'a\<close>: \<open>Inl\<close> is \<open>Err\<close>, \<open>Inr\<close> is \<open>Ok\<close>.\<close>

fun and_then :: "'e + 'a \<Rightarrow> ('a \<Rightarrow> 'e + 'b) \<Rightarrow> 'e + 'b" where
  "and_then (Inl e) f = Inl e"
| "and_then (Inr a) f = f a"

fun map_err :: "('e \<Rightarrow> 'd) \<Rightarrow> 'e + 'a \<Rightarrow> 'd + 'a" where
  "map_err f (Inl e) = Inl (f e)"
| "map_err f (Inr a) = Inr a"

fun ok_or :: "'a option \<Rightarrow> 'e \<Rightarrow> 'e + 'a" where
  "ok_or None e = Inl e"
| "ok_or (Some a) e = Inr a"

fun is_ok :: "'e + 'a \<Rightarrow> bool" where
  "is_ok (Inl e) = False"
| "is_ok (Inr a) = True"

lemma and_then_cong [fundef_cong]:
  "\<lbrakk>m = m'; \<And>a. m' = Inr a \<Longrightarrow> f a = g a\<rbrakk> \<Longrightarrow> and_then m f = and_then m' g"
  by (cases m') auto

lemma and_then_Inr_iff [result_simps]:
  "and_then m f = Inr b \<longleftrightarrow> (\<exists>a. m = Inr a \<and> f a = Inr b)"
  by (cases m) auto

lemma and_then_Inl_iff [result_simps]:
  "and_then m f = Inl e \<longleftrightarrow> m = Inl e \<or> (\<exists>a. m = Inr a \<and> f a = Inl e)"
  by (cases m) auto

lemma map_err_Inr_iff [simp, result_simps]: "map_err f m = Inr a \<longleftrightarrow> m = Inr a"
  by (cases m) auto

lemma map_err_Inl_iff [result_simps]: "map_err f m = Inl d \<longleftrightarrow> (\<exists>e. m = Inl e \<and> d = f e)"
  by (cases m) auto

lemma ok_or_Inr_iff [simp, result_simps]: "ok_or m e = Inr a \<longleftrightarrow> m = Some a"
  by (cases m) auto

lemma ok_or_Inl_iff [simp, result_simps]: "ok_or m e = Inl d \<longleftrightarrow> m = None \<and> d = e"
  by (cases m) auto

section \<open>Loops that may return early\<close>

text \<open>\<open>for x in xs { if f(x)? { return Ok(true) } } Ok(false)\<close>\<close>

fun try_any :: "('a \<Rightarrow> 'e + bool) \<Rightarrow> 'a list \<Rightarrow> 'e + bool" where
  "try_any f [] = Inr False"
| "try_any f (x # xs) =
     (case f x of Inl e \<Rightarrow> Inl e | Inr b \<Rightarrow> if b then Inr True else try_any f xs)"

text \<open>\<open>for x in xs { if !f(x)? { return Ok(false) } } Ok(true)\<close>\<close>

fun try_all :: "('a \<Rightarrow> 'e + bool) \<Rightarrow> 'a list \<Rightarrow> 'e + bool" where
  "try_all f [] = Inr True"
| "try_all f (x # xs) =
     (case f x of Inl e \<Rightarrow> Inl e | Inr b \<Rightarrow> if b then try_all f xs else Inr False)"

text \<open>\<open>for x in xs { out.push(f(x)?) }\<close>, which is also \<open>collect::<Result<Vec<_>, _>>()\<close>.\<close>

fun try_map :: "('a \<Rightarrow> 'e + 'b) \<Rightarrow> 'a list \<Rightarrow> 'e + 'b list" where
  "try_map f [] = Inr []"
| "try_map f (x # xs) =
     (case f x of
        Inl e \<Rightarrow> Inl e
      | Inr y \<Rightarrow> (case try_map f xs of Inl e \<Rightarrow> Inl e | Inr ys \<Rightarrow> Inr (y # ys)))"

text \<open>The same loop where the body may \<open>continue\<close> (\<^const>\<open>None\<close>) or push several elements.\<close>

fun try_concat_map :: "('a \<Rightarrow> 'e + 'b list) \<Rightarrow> 'a list \<Rightarrow> 'e + 'b list" where
  "try_concat_map f [] = Inr []"
| "try_concat_map f (x # xs) =
     (case f x of
        Inl e \<Rightarrow> Inl e
      | Inr ys \<Rightarrow> (case try_concat_map f xs of Inl e \<Rightarrow> Inl e | Inr zs \<Rightarrow> Inr (ys @ zs)))"

lemma try_any_cong [fundef_cong]:
  "\<lbrakk>xs = ys; \<And>x. x \<in> set ys \<Longrightarrow> f x = g x\<rbrakk> \<Longrightarrow> try_any f xs = try_any g ys"
  by (induction ys arbitrary: xs) (auto split: sum.splits)

lemma try_all_cong [fundef_cong]:
  "\<lbrakk>xs = ys; \<And>x. x \<in> set ys \<Longrightarrow> f x = g x\<rbrakk> \<Longrightarrow> try_all f xs = try_all g ys"
  by (induction ys arbitrary: xs) (auto split: sum.splits)

lemma try_map_cong [fundef_cong]:
  "\<lbrakk>xs = ys; \<And>x. x \<in> set ys \<Longrightarrow> f x = g x\<rbrakk> \<Longrightarrow> try_map f xs = try_map g ys"
  by (induction ys arbitrary: xs) (auto split: sum.splits)

lemma try_concat_map_cong [fundef_cong]:
  "\<lbrakk>xs = ys; \<And>x. x \<in> set ys \<Longrightarrow> f x = g x\<rbrakk> \<Longrightarrow> try_concat_map f xs = try_concat_map g ys"
  by (induction ys arbitrary: xs) (auto split: sum.splits)

lemma try_any_True: "try_any f xs = Inr True \<Longrightarrow> \<exists>x\<in>set xs. f x = Inr True"
  by (induction xs) (auto split: sum.splits if_splits)

lemma try_any_False: "try_any f xs = Inr False \<longleftrightarrow> (\<forall>x\<in>set xs. f x = Inr False)"
  by (induction xs) (auto split: sum.splits if_splits)

lemma try_any_err: "try_any f xs = Inl e \<Longrightarrow> \<exists>x\<in>set xs. f x = Inl e"
  by (induction xs) (auto split: sum.splits if_splits)

lemma try_any_ok: "(\<And>x. x \<in> set xs \<Longrightarrow> f x = Inr (p x)) \<Longrightarrow> try_any f xs = Inr (\<exists>x\<in>set xs. p x)"
  by (induction xs) auto

lemma try_all_True: "try_all f xs = Inr True \<longleftrightarrow> (\<forall>x\<in>set xs. f x = Inr True)"
  by (induction xs) (auto split: sum.splits if_splits)

lemma try_all_False: "try_all f xs = Inr False \<Longrightarrow> \<exists>x\<in>set xs. f x = Inr False"
  by (induction xs) (auto split: sum.splits if_splits)

lemma try_all_err: "try_all f xs = Inl e \<Longrightarrow> \<exists>x\<in>set xs. f x = Inl e"
  by (induction xs) (auto split: sum.splits if_splits)

lemma try_all_ok: "(\<And>x. x \<in> set xs \<Longrightarrow> f x = Inr (p x)) \<Longrightarrow> try_all f xs = Inr (\<forall>x\<in>set xs. p x)"
  by (induction xs) auto

lemma try_map_Inr: "try_map f xs = Inr ys \<Longrightarrow> list_all2 (\<lambda>x y. f x = Inr y) xs ys"
  by (induction xs arbitrary: ys) (auto split: sum.splits)

lemma try_map_err: "try_map f xs = Inl e \<Longrightarrow> \<exists>x\<in>set xs. f x = Inl e"
  by (induction xs) (auto split: sum.splits)

lemma try_map_ok: "(\<And>x. x \<in> set xs \<Longrightarrow> f x = Inr (g x)) \<Longrightarrow> try_map f xs = Inr (map g xs)"
  by (induction xs) auto

lemma try_concat_map_Inr:
  assumes "try_concat_map f xs = Inr zs"
  obtains yss where "list_all2 (\<lambda>x ys. f x = Inr ys) xs yss" and "zs = concat yss"
proof -
  have "\<exists>yss. list_all2 (\<lambda>x ys. f x = Inr ys) xs yss \<and> zs = concat yss"
    using assms
  proof (induction xs arbitrary: zs)
    case Nil
    then show ?case by (intro exI [of _ "[]"]) simp
  next
    case (Cons x xs)
    from Cons.prems obtain ys zs' where x: "f x = Inr ys" and r: "try_concat_map f xs = Inr zs'"
      and z: "zs = ys @ zs'"
      by (auto split: sum.splits)
    from Cons.IH [OF r] obtain yss where "list_all2 (\<lambda>x ys. f x = Inr ys) xs yss" "zs' = concat yss"
      by blast
    with x z show ?case by (intro exI [of _ "ys # yss"]) simp
  qed
  with that show thesis by blast
qed

lemma try_concat_map_ok:
  "(\<And>x. x \<in> set xs \<Longrightarrow> f x = Inr (g x)) \<Longrightarrow> try_concat_map f xs = Inr (concat (map g xs))"
  by (induction xs) auto

lemma list_all2_weaken:
  "list_all2 P xs ys \<Longrightarrow> (\<And>x y. x \<in> set xs \<Longrightarrow> P x y \<Longrightarrow> Q x y) \<Longrightarrow> list_all2 Q xs ys"
  by (induction rule: list_all2_induct) auto

lemma try_any_list_all2:
  "list_all2 (\<lambda>x y. f x = Inr (q y)) xs ys \<Longrightarrow> try_any f xs = Inr (\<exists>y\<in>set ys. q y)"
  by (induction rule: list_all2_induct) auto

lemma try_all_list_all2:
  "list_all2 (\<lambda>x y. f x = Inr (q y)) xs ys \<Longrightarrow> try_all f xs = Inr (\<forall>y\<in>set ys. q y)"
  by (induction rule: list_all2_induct) auto

lemma try_any_concat:
  "list_all2 (\<lambda>x ys. f x = Inr (\<exists>y\<in>set ys. q y)) xs yss \<Longrightarrow>
     try_any f xs = Inr (\<exists>y\<in>set (concat yss). q y)"
  by (induction rule: list_all2_induct) auto

section \<open>Transaction ids do not wrap below the sentinel\<close>

lemma u64_succ: "x < u64_max \<Longrightarrow> unat (x + 1) = Suc (unat (x :: u64))"
proof -
  assume "x < u64_max"
  then have "x \<noteq> - 1" by auto
  then have "1 + x \<noteq> 0" by (metis add_eq_0_iff)
  then show "unat (x + 1) = Suc (unat x)"
    using unatSuc [of x] by (simp add: add.commute)
qed

lemma u64_less_succ [simp]: "x < u64_max \<Longrightarrow> x < x + (1 :: u64)"
  by (simp add: word_less_nat_alt u64_succ)

lemma u64_less_succ_iff: "x < u64_max \<Longrightarrow> y < x + (1 :: u64) \<longleftrightarrow> y \<le> x"
  by (simp add: word_less_nat_alt word_le_nat_alt u64_succ less_Suc_eq_le)

lemma u64_succ_le_iff: "x < u64_max \<Longrightarrow> x + (1 :: u64) \<le> y \<longleftrightarrow> x < y"
  by (simp add: word_less_nat_alt word_le_nat_alt u64_succ Suc_le_eq)

lemma u64_max_pos [simp]: "0 < u64_max"
  by (simp add: word_gt_0)

text \<open>There is room for one more transaction id below the sentinel.\<close>

definition tx_room :: "u64 \<Rightarrow> bool" where
  "tx_room x \<longleftrightarrow> x < u64_max - 1"

lemma tx_roomD [dest]: "tx_room x \<Longrightarrow> x < u64_max" "tx_room x \<Longrightarrow> x + 1 < u64_max"
proof -
  assume "tx_room x"
  then have x: "unat x < unat (- 2 :: u64)" by (simp add: tx_room_def word_less_nat_alt)
  have m: "unat (- 1 :: u64) = Suc (unat (- 2 :: u64))" by (simp add: unsigned_minus_1_eq_mask mask_eq_exp_minus_1)
  with x show l: "x < u64_max" by (simp add: word_less_nat_alt)
  from x m show "x + 1 < u64_max" using u64_succ [OF l] by (simp add: word_less_nat_alt)
qed

lemma tx_room_unat: "tx_room x \<longleftrightarrow> unat x < 2 ^ 64 - 2"
  by (simp add: tx_room_def word_less_nat_alt)

lemma tx_room_less [simp]: "tx_room x \<Longrightarrow> x < x + 1"
  by (auto intro: u64_less_succ)

lemma tx_room_le [simp]: "tx_room x \<Longrightarrow> v \<le> x \<Longrightarrow> v \<le> x + 1"
  by (meson tx_room_less order.trans order.strict_implies_order)

section \<open>Text\<close>

text \<open>The pieces \<open>'{x}'\<close> of the sources' format strings.\<close>

definition quoted :: "string \<Rightarrow> string" where
  "quoted s = CHR 0x27 # s @ [CHR 0x27]"

text \<open>\<open>str::strip_prefix\<close>\<close>

fun strip_prefix :: "string \<Rightarrow> string \<Rightarrow> string option" where
  "strip_prefix [] s = Some s"
| "strip_prefix (p # ps) [] = None"
| "strip_prefix (p # ps) (c # cs) = (if p = c then strip_prefix ps cs else None)"

lemma strip_prefix_Some: "strip_prefix p s = Some r \<longleftrightarrow> s = p @ r"
  by (induction p s rule: strip_prefix.induct) auto

lemma strip_prefix_append [simp]: "strip_prefix p (p @ r) = Some r"
  by (simp add: strip_prefix_Some)

section \<open>Decimal numbers\<close>

definition digit_char :: "nat \<Rightarrow> char" where
  "digit_char d = char_of (48 + d)"

definition is_digit :: "char \<Rightarrow> bool" where
  "is_digit c \<longleftrightarrow> 48 \<le> (of_char c :: nat) \<and> (of_char c :: nat) \<le> 57"

text \<open>\<open>Display\<close> of the unsigned integers.\<close>

fun show_nat :: "nat \<Rightarrow> string" where
  "show_nat n = (if n < 10 then [digit_char n] else show_nat (n div 10) @ [digit_char (n mod 10)])"

declare show_nat.simps [simp del]

definition show_u64 :: "u64 \<Rightarrow> string" where
  "show_u64 w = show_nat (unat w)"

fun parse_digits :: "nat \<Rightarrow> string \<Rightarrow> nat option" where
  "parse_digits acc [] = Some acc"
| "parse_digits acc (c # cs) =
     (if is_digit c then parse_digits (acc * 10 + (of_char c - 48)) cs else None)"

text \<open>
  \<open>FromStr\<close> of an unsigned integer of \<open>w\<close> bits: one optional \<open>+\<close>, at least one digit, no other
  character, and a value below \<open>2\<^sup>w\<close>. Every failure is \<^const>\<open>None\<close>.
\<close>

definition parse_uint :: "nat \<Rightarrow> string \<Rightarrow> nat option" where
  "parse_uint w s =
     (let ds = (case s of c # r \<Rightarrow> if c = CHR ''+'' then r else s | [] \<Rightarrow> s)
      in if ds = [] then None
         else case parse_digits 0 ds of
                None \<Rightarrow> None
              | Some n \<Rightarrow> if n < 2 ^ w then Some n else None)"

definition parse_u64 :: "string \<Rightarrow> u64 option" where
  "parse_u64 s = map_option of_nat (parse_uint 64 s)"

lemma of_char_digit_char: "d < 10 \<Longrightarrow> of_char (digit_char d) = (48 + d :: nat)"
  by (simp add: digit_char_def)

lemma is_digit_digit_char: "d < 10 \<Longrightarrow> is_digit (digit_char d)"
  by (simp add: is_digit_def of_char_digit_char)

lemma parse_digits_append:
  "parse_digits acc (xs @ ys) =
     (case parse_digits acc xs of None \<Rightarrow> None | Some n \<Rightarrow> parse_digits n ys)"
  by (induction xs arbitrary: acc) auto

lemma show_nat_not_Nil [simp]: "show_nat n \<noteq> []"
  by (subst show_nat.simps) simp

lemma show_nat_digits: "\<forall>c\<in>set (show_nat n). is_digit c"
proof (induction n rule: show_nat.induct)
  case (1 n)
  show ?case
    using "1.IH" by (subst show_nat.simps) (auto simp: is_digit_digit_char)
qed

lemma parse_digits_show_nat: "parse_digits 0 (show_nat n) = Some n"
proof (induction n rule: show_nat.induct)
  case (1 n)
  show ?case
  proof (cases "n < 10")
    case True
    then show ?thesis
      by (subst show_nat.simps) (simp add: is_digit_digit_char of_char_digit_char)
  next
    case False
    with "1.IH" have "parse_digits 0 (show_nat (n div 10)) = Some (n div 10)" by simp
    with False show ?thesis
      by (subst show_nat.simps)
        (simp add: parse_digits_append is_digit_digit_char of_char_digit_char)
  qed
qed

lemma parse_uint_show_nat: "n < 2 ^ w \<Longrightarrow> parse_uint w (show_nat n) = Some n"
proof -
  assume n: "n < 2 ^ w"
  obtain c cs where s: "show_nat n = c # cs" by (cases "show_nat n") auto
  with show_nat_digits [of n] have "is_digit c" by simp
  then have "c \<noteq> CHR ''+''" by (auto simp: is_digit_def)
  with s n parse_digits_show_nat [of n] show ?thesis
    by (simp add: parse_uint_def)
qed

lemma parse_u64_show_u64 [simp]: "parse_u64 (show_u64 w) = Some w"
  by (simp add: parse_u64_def show_u64_def parse_uint_show_nat unsigned_less [where 'b = 64, simplified])

lemma show_u64_inject [simp]: "show_u64 v = show_u64 w \<longleftrightarrow> v = w"
  by (metis option.inject parse_u64_show_u64)

end
