(* ===== verification/Tuples.thy ===== *)
theory Tuples
  imports Prelude
begin

text \<open>
  \<open>kraalzibar-core/src/tuple.rs\<close>: the relationship tuple \<open>object#relation@subject\<close>, the filters that
  select tuples, and snapshot tokens. Record fields carry a prefix for their struct where two structs
  of the sources share a field name.
\<close>

section \<open>Identifiers\<close>

type_synonym Uuid = "128 word"

datatype TenantId = TenantId (as_uuid: Uuid)

record ObjectRef =
  object_type :: string
  object_id :: string

definition ObjectRef_new :: "string \<Rightarrow> string \<Rightarrow> ObjectRef" where
  "ObjectRef_new t i = \<lparr>object_type = t, object_id = i\<rparr>"

definition ObjectRef_to_string :: "ObjectRef \<Rightarrow> string" where
  "ObjectRef_to_string o' = object_type o' @ '':'' @ object_id o'"

record SubjectRef =
  subject_type :: string
  subject_id :: string
  subject_relation :: "string option"

definition direct :: "string \<Rightarrow> string \<Rightarrow> SubjectRef" where
  "direct t i = \<lparr>subject_type = t, subject_id = i, subject_relation = None\<rparr>"

definition userset :: "string \<Rightarrow> string \<Rightarrow> string \<Rightarrow> SubjectRef" where
  "userset t i r = \<lparr>subject_type = t, subject_id = i, subject_relation = Some r\<rparr>"

definition SubjectRef_to_string :: "SubjectRef \<Rightarrow> string" where
  "SubjectRef_to_string s = subject_type s @ '':'' @ subject_id s @
     (case subject_relation s of Some rel \<Rightarrow> ''#'' @ rel | None \<Rightarrow> [])"

section \<open>Tuples and writes\<close>

record Tuple =
  tup_object :: ObjectRef
  tup_relation :: string
  tup_subject :: SubjectRef

definition Tuple_new :: "ObjectRef \<Rightarrow> string \<Rightarrow> SubjectRef \<Rightarrow> Tuple" where
  "Tuple_new ob r s = \<lparr>tup_object = ob, tup_relation = r, tup_subject = s\<rparr>"

definition Tuple_to_string :: "Tuple \<Rightarrow> string" where
  "Tuple_to_string t = ObjectRef_to_string (tup_object t) @ ''#'' @ tup_relation t @ ''@'' @
     SubjectRef_to_string (tup_subject t)"

record TupleWrite =
  tw_object :: ObjectRef
  tw_relation :: string
  tw_subject :: SubjectRef

definition TupleWrite_new :: "ObjectRef \<Rightarrow> string \<Rightarrow> SubjectRef \<Rightarrow> TupleWrite" where
  "TupleWrite_new ob r s = \<lparr>tw_object = ob, tw_relation = r, tw_subject = s\<rparr>"

text \<open>\<open>impl From<TupleWrite> for Tuple\<close>\<close>

definition Tuple_from :: "TupleWrite \<Rightarrow> Tuple" where
  "Tuple_from w = \<lparr>tup_object = tw_object w, tup_relation = tw_relation w, tup_subject = tw_subject w\<rparr>"

section \<open>Filters\<close>

record TupleFilter =
  f_object_type :: "string option"
  f_object_id :: "string option"
  f_relation :: "string option"
  f_subject_type :: "string option"
  f_subject_id :: "string option"
  f_subject_relation :: "string option option"

definition TupleFilter_default :: TupleFilter where
  "TupleFilter_default = \<lparr>f_object_type = None, f_object_id = None, f_relation = None,
     f_subject_type = None, f_subject_id = None, f_subject_relation = None\<rparr>"

definition has_any_field :: "TupleFilter \<Rightarrow> bool" where
  "has_any_field f \<longleftrightarrow> f_object_type f \<noteq> None \<or> f_object_id f \<noteq> None \<or> f_relation f \<noteq> None \<or>
     f_subject_type f \<noteq> None \<or> f_subject_id f \<noteq> None \<or> f_subject_relation f \<noteq> None"

text \<open>\<open>if let Some(ref v) = field && v != value { return false; }\<close>\<close>

definition field_differs :: "'a option \<Rightarrow> 'a \<Rightarrow> bool" where
  "field_differs field v = (case field of Some x \<Rightarrow> x \<noteq> v | None \<Rightarrow> False)"

definition matches :: "TupleFilter \<Rightarrow> Tuple \<Rightarrow> bool" where
  "matches f t =
     (if field_differs (f_object_type f) (object_type (tup_object t)) then False
      else if field_differs (f_object_id f) (object_id (tup_object t)) then False
      else if field_differs (f_relation f) (tup_relation t) then False
      else if field_differs (f_subject_type f) (subject_type (tup_subject t)) then False
      else if field_differs (f_subject_id f) (subject_id (tup_subject t)) then False
      else if field_differs (f_subject_relation f) (subject_relation (tup_subject t)) then False
      else True)"

section \<open>Snapshot tokens\<close>

datatype SnapshotToken = SnapshotToken (value_of: u64)

text \<open>\<open>#[derive(PartialOrd, Ord)]\<close> compares the wrapped number.\<close>

instantiation SnapshotToken :: linorder
begin

definition less_eq_SnapshotToken :: "SnapshotToken \<Rightarrow> SnapshotToken \<Rightarrow> bool" where
  "less_eq_SnapshotToken a b \<longleftrightarrow> value_of a \<le> value_of b"

definition less_SnapshotToken :: "SnapshotToken \<Rightarrow> SnapshotToken \<Rightarrow> bool" where
  "less_SnapshotToken a b \<longleftrightarrow> value_of a < value_of b"

instance
  by standard (auto simp: less_eq_SnapshotToken_def less_SnapshotToken_def SnapshotToken.expand)

end

definition SnapshotToken_to_string :: "SnapshotToken \<Rightarrow> string" where
  "SnapshotToken_to_string t = show_u64 (value_of t)"

section \<open>What a filter selects\<close>

lemma matches_iff:
  "matches f t \<longleftrightarrow>
     (\<forall>v. f_object_type f = Some v \<longrightarrow> object_type (tup_object t) = v) \<and>
     (\<forall>v. f_object_id f = Some v \<longrightarrow> object_id (tup_object t) = v) \<and>
     (\<forall>v. f_relation f = Some v \<longrightarrow> tup_relation t = v) \<and>
     (\<forall>v. f_subject_type f = Some v \<longrightarrow> subject_type (tup_subject t) = v) \<and>
     (\<forall>v. f_subject_id f = Some v \<longrightarrow> subject_id (tup_subject t) = v) \<and>
     (\<forall>v. f_subject_relation f = Some v \<longrightarrow> subject_relation (tup_subject t) = v)"
  unfolding matches_def field_differs_def by (auto split: option.splits)

lemma matches_default [simp]: "matches TupleFilter_default t"
  by (simp add: matches_iff TupleFilter_default_def)

lemma has_any_field_default [simp]: "\<not> has_any_field TupleFilter_default"
  by (simp add: has_any_field_def TupleFilter_default_def)

lemma no_field_default: "\<not> has_any_field f \<longleftrightarrow> f = TupleFilter_default"
  by (cases f) (auto simp: has_any_field_def TupleFilter_default_def)

text \<open>The filter with every field set, as the garbage collector builds it, selects one tuple.\<close>

definition exact_filter :: "Tuple \<Rightarrow> TupleFilter" where
  "exact_filter t = \<lparr>f_object_type = Some (object_type (tup_object t)),
     f_object_id = Some (object_id (tup_object t)),
     f_relation = Some (tup_relation t),
     f_subject_type = Some (subject_type (tup_subject t)),
     f_subject_id = Some (subject_id (tup_subject t)),
     f_subject_relation = Some (subject_relation (tup_subject t))\<rparr>"

lemma ObjectRef_expand:
  "a = b \<longleftrightarrow> object_type a = object_type b \<and> object_id a = object_id (b :: ObjectRef)"
  by (cases a, cases b) auto

lemma SubjectRef_expand:
  "a = b \<longleftrightarrow> subject_type a = subject_type b \<and> subject_id a = subject_id b \<and>
     subject_relation a = subject_relation (b :: SubjectRef)"
  by (cases a, cases b) auto

lemma Tuple_expand:
  "a = b \<longleftrightarrow> tup_object a = tup_object b \<and> tup_relation a = tup_relation b \<and>
     tup_subject a = tup_subject (b :: Tuple)"
  by (cases a, cases b) auto

lemmas tuple_eq_iff = Tuple_expand ObjectRef_expand SubjectRef_expand

lemma matches_exact_filter [simp]: "matches (exact_filter t) u \<longleftrightarrow> u = t"
  by (auto simp: matches_iff exact_filter_def tuple_eq_iff)

lemma has_any_field_exact_filter [simp]: "has_any_field (exact_filter t)"
  by (simp add: has_any_field_def exact_filter_def)

lemma direct_sel [simp]:
  "subject_type (direct t i) = t" "subject_id (direct t i) = i" "subject_relation (direct t i) = None"
  by (simp_all add: direct_def)

lemma userset_sel [simp]:
  "subject_type (userset t i r) = t" "subject_id (userset t i r) = i"
  "subject_relation (userset t i r) = Some r"
  by (simp_all add: userset_def)

lemma ObjectRef_new_sel [simp]:
  "object_type (ObjectRef_new t i) = t" "object_id (ObjectRef_new t i) = i"
  by (simp_all add: ObjectRef_new_def)

lemma Tuple_new_sel [simp]:
  "tup_object (Tuple_new ob r s) = ob" "tup_relation (Tuple_new ob r s) = r"
  "tup_subject (Tuple_new ob r s) = s"
  by (simp_all add: Tuple_new_def)

lemma TupleWrite_new_sel [simp]:
  "tw_object (TupleWrite_new ob r s) = ob" "tw_relation (TupleWrite_new ob r s) = r"
  "tw_subject (TupleWrite_new ob r s) = s"
  by (simp_all add: TupleWrite_new_def)

lemma Tuple_from_new [simp]: "Tuple_from (TupleWrite_new ob r s) = Tuple_new ob r s"
  by (simp add: Tuple_from_def Tuple_new_def)

lemma Tuple_from_inject: "Tuple_from v = Tuple_from w \<longleftrightarrow> v = w"
  by (cases v, cases w) (auto simp: Tuple_from_def)

end
