(* ===== verification/Schemas.thy ===== *)
theory Schemas
  imports Prelude
begin

text \<open>
  \<open>kraalzibar-core/src/schema/types.rs\<close> and \<open>validation.rs\<close>: the parsed authorization schema, its
  lookups, the size limits and the detection of breaking changes, with the lemmas that say exactly
  which schemas pass the limits and which changes are reported.
\<close>

section \<open>Schema types\<close>

record SubjectTypeRef =
  str_type_name :: string
  str_relation :: "string option"

record RelationDef =
  rel_name :: string
  rel_subject_types :: "SubjectTypeRef list"

datatype RewriteRule =
    RThis string
  | RUnion "RewriteRule list"
  | RIntersection "RewriteRule list"
  | RExclusion RewriteRule RewriteRule
  | RArrow string string

record PermissionDef =
  perm_name :: string
  perm_rule :: RewriteRule

record TypeDefinition =
  type_name :: string
  relations :: "RelationDef list"
  permissions :: "PermissionDef list"

record Schema =
  types :: "TypeDefinition list"

definition get_type :: "Schema \<Rightarrow> string \<Rightarrow> TypeDefinition option" where
  "get_type s name = find (\<lambda>t. type_name t = name) (types s)"

definition get_relation :: "TypeDefinition \<Rightarrow> string \<Rightarrow> RelationDef option" where
  "get_relation t name = find (\<lambda>r. rel_name r = name) (relations t)"

definition get_permission :: "TypeDefinition \<Rightarrow> string \<Rightarrow> PermissionDef option" where
  "get_permission t name = find (\<lambda>p. perm_name p = name) (permissions t)"

section \<open>Limits\<close>

record SchemaLimits =
  max_types :: nat
  max_relations_per_type :: nat
  max_permissions_per_type :: nat

definition SchemaLimits_default :: SchemaLimits where
  "SchemaLimits_default =
     \<lparr>max_types = 50, max_relations_per_type = 30, max_permissions_per_type = 30\<rparr>"

datatype ValidationError =
    TooManyTypes nat nat
  | TooManyRelations string nat nat
  | TooManyPermissions string nat nat

fun ValidationError_to_string :: "ValidationError \<Rightarrow> string" where
  "ValidationError_to_string (TooManyTypes count limit) =
     ''too many types: '' @ show_nat count @ '' exceeds limit of '' @ show_nat limit"
| "ValidationError_to_string (TooManyRelations tn count limit) =
     ''too many relations in type '' @ quoted tn @ '': '' @ show_nat count @ '' exceeds limit of '' @ show_nat limit"
| "ValidationError_to_string (TooManyPermissions tn count limit) =
     ''too many permissions in type '' @ quoted tn @ '': '' @ show_nat count @ '' exceeds limit of '' @ show_nat limit"

text \<open>The body of the loop over the types: what one type definition pushes.\<close>

definition type_limit_errors :: "SchemaLimits \<Rightarrow> TypeDefinition \<Rightarrow> ValidationError list" where
  "type_limit_errors limits td =
     (if length (relations td) > max_relations_per_type limits
      then [TooManyRelations (type_name td) (length (relations td)) (max_relations_per_type limits)]
      else []) @
     (if length (permissions td) > max_permissions_per_type limits
      then [TooManyPermissions (type_name td) (length (permissions td)) (max_permissions_per_type limits)]
      else [])"

definition validate_schema_limits :: "Schema \<Rightarrow> SchemaLimits \<Rightarrow> ValidationError list + unit" where
  "validate_schema_limits s limits =
     (let errors =
        (if length (types s) > max_types limits
         then [TooManyTypes (length (types s)) (max_types limits)] else []) @
        concat (map (type_limit_errors limits) (types s))
      in if errors = [] then Inr () else Inl errors)"

section \<open>Breaking changes\<close>

datatype BreakingChange =
    TypeRemoved string
  | RelationRemoved string string
  | SubjectTypesChanged string string

definition relation_changes :: "string \<Rightarrow> TypeDefinition \<Rightarrow> RelationDef \<Rightarrow> BreakingChange list" where
  "relation_changes tn new_type old_rel =
     (case find (\<lambda>r. rel_name r = rel_name old_rel) (relations new_type) of
        None \<Rightarrow> [RelationRemoved tn (rel_name old_rel)]
      | Some new_rel \<Rightarrow>
          if rel_subject_types old_rel \<noteq> rel_subject_types new_rel
          then [SubjectTypesChanged tn (rel_name old_rel)] else [])"

definition type_changes :: "Schema \<Rightarrow> TypeDefinition \<Rightarrow> BreakingChange list" where
  "type_changes new old_type =
     (case get_type new (type_name old_type) of
        None \<Rightarrow> [TypeRemoved (type_name old_type)]
      | Some new_type \<Rightarrow>
          concat (map (relation_changes (type_name old_type) new_type) (relations old_type)))"

definition detect_breaking_changes :: "Schema \<Rightarrow> Schema \<Rightarrow> BreakingChange list" where
  "detect_breaking_changes old new = concat (map (type_changes new) (types old))"

section \<open>Lookup\<close>

lemma get_type_Some: "get_type s n = Some td \<Longrightarrow> td \<in> set (types s) \<and> type_name td = n"
  by (auto simp: get_type_def find_Some_iff)

lemma get_relation_Some: "get_relation td n = Some r \<Longrightarrow> r \<in> set (relations td) \<and> rel_name r = n"
  by (auto simp: get_relation_def find_Some_iff)

lemma get_permission_Some:
  "get_permission td n = Some p \<Longrightarrow> p \<in> set (permissions td) \<and> perm_name p = n"
  by (auto simp: get_permission_def find_Some_iff)

lemma find_distinct_eq:
  "distinct (map f xs) \<Longrightarrow> x \<in> set xs \<Longrightarrow> find (\<lambda>y. f y = f x) xs = Some x"
  by (induction xs) auto

lemma get_type_distinct:
  "distinct (map type_name (types s)) \<Longrightarrow> td \<in> set (types s) \<Longrightarrow> get_type s (type_name td) = Some td"
  by (simp add: get_type_def find_distinct_eq)

lemma get_permission_distinct:
  "distinct (map perm_name (permissions td)) \<Longrightarrow> p \<in> set (permissions td) \<Longrightarrow>
     get_permission td (perm_name p) = Some p"
  by (simp add: get_permission_def find_distinct_eq)

lemma get_relation_distinct:
  "distinct (map rel_name (relations td)) \<Longrightarrow> r \<in> set (relations td) \<Longrightarrow>
     get_relation td (rel_name r) = Some r"
  by (simp add: get_relation_def find_distinct_eq)

lemma get_relation_None: "get_relation td n = None \<longleftrightarrow> n \<notin> rel_name ` set (relations td)"
  by (auto simp: get_relation_def find_None_iff)

section \<open>Limits: which schemas pass\<close>

definition within_limits :: "SchemaLimits \<Rightarrow> Schema \<Rightarrow> bool" where
  "within_limits limits s \<longleftrightarrow> length (types s) \<le> max_types limits \<and>
     (\<forall>td\<in>set (types s). length (relations td) \<le> max_relations_per_type limits \<and>
        length (permissions td) \<le> max_permissions_per_type limits)"

lemma type_limit_errors_Nil:
  "type_limit_errors limits td = [] \<longleftrightarrow>
     length (relations td) \<le> max_relations_per_type limits \<and>
     length (permissions td) \<le> max_permissions_per_type limits"
  by (simp add: type_limit_errors_def not_less)

lemma validate_schema_limits_ok: "validate_schema_limits s limits = Inr () \<longleftrightarrow> within_limits limits s"
  by (auto simp: validate_schema_limits_def within_limits_def type_limit_errors_Nil Let_def)

lemma validate_schema_limits_errors:
  assumes "validate_schema_limits s limits = Inl es"
  shows "es \<noteq> []"
    and "e \<in> set es \<longleftrightarrow>
      (e = TooManyTypes (length (types s)) (max_types limits) \<and> length (types s) > max_types limits) \<or>
      (\<exists>td\<in>set (types s). e \<in> set (type_limit_errors limits td))"
  using assms by (auto simp: validate_schema_limits_def Let_def split: if_splits)

section \<open>Breaking changes: which are reported\<close>

lemma relation_changes_Nil:
  "relation_changes tn nt r = [] \<longleftrightarrow>
     (\<exists>r'. get_relation nt (rel_name r) = Some r' \<and> rel_subject_types r' = rel_subject_types r)"
  by (auto simp: relation_changes_def get_relation_def split: option.splits)

lemma type_changes_Nil:
  "type_changes new td = [] \<longleftrightarrow>
     (\<exists>td'. get_type new (type_name td) = Some td' \<and>
        (\<forall>r\<in>set (relations td). \<exists>r'. get_relation td' (rel_name r) = Some r' \<and>
           rel_subject_types r' = rel_subject_types r))"
  by (auto simp: type_changes_def relation_changes_Nil split: option.splits)

lemma detect_breaking_changes_Nil:
  "detect_breaking_changes old new = [] \<longleftrightarrow>
     (\<forall>td\<in>set (types old). \<exists>td'. get_type new (type_name td) = Some td' \<and>
        (\<forall>r\<in>set (relations td). \<exists>r'. get_relation td' (rel_name r) = Some r' \<and>
           rel_subject_types r' = rel_subject_types r))"
  by (simp add: detect_breaking_changes_def type_changes_Nil)

lemma set_relation_changes:
  "c \<in> set (relation_changes tn nt r) \<longleftrightarrow>
     (c = RelationRemoved tn (rel_name r) \<and> get_relation nt (rel_name r) = None) \<or>
     (c = SubjectTypesChanged tn (rel_name r) \<and>
        (\<exists>r'. get_relation nt (rel_name r) = Some r' \<and> rel_subject_types r \<noteq> rel_subject_types r'))"
  by (auto simp: relation_changes_def get_relation_def split: option.splits)

lemma set_type_changes:
  "c \<in> set (type_changes new td) \<longleftrightarrow>
     (c = TypeRemoved (type_name td) \<and> get_type new (type_name td) = None) \<or>
     (\<exists>nt. get_type new (type_name td) = Some nt \<and>
        (\<exists>r\<in>set (relations td). c \<in> set (relation_changes (type_name td) nt r)))"
  by (auto simp: type_changes_def split: option.splits)

lemma detect_TypeRemoved:
  "TypeRemoved n \<in> set (detect_breaking_changes old new) \<longleftrightarrow>
     n \<in> type_name ` set (types old) \<and> get_type new n = None"
  by (auto simp: detect_breaking_changes_def set_type_changes set_relation_changes)

lemma detect_RelationRemoved:
  "RelationRemoved n r \<in> set (detect_breaking_changes old new) \<longleftrightarrow>
     (\<exists>td\<in>set (types old). \<exists>td'. type_name td = n \<and> r \<in> rel_name ` set (relations td) \<and>
        get_type new n = Some td' \<and> get_relation td' r = None)"
  by (auto simp: detect_breaking_changes_def set_type_changes set_relation_changes)

lemma detect_SubjectTypesChanged:
  "SubjectTypesChanged n r \<in> set (detect_breaking_changes old new) \<longleftrightarrow>
     (\<exists>td\<in>set (types old). \<exists>td' rd rd'. type_name td = n \<and> rd \<in> set (relations td) \<and> rel_name rd = r \<and>
        get_type new n = Some td' \<and> get_relation td' r = Some rd' \<and>
        rel_subject_types rd \<noteq> rel_subject_types rd')"
  by (auto simp: detect_breaking_changes_def set_type_changes set_relation_changes)

lemmas detect_iffs = detect_TypeRemoved detect_RelationRemoved detect_SubjectTypesChanged

section \<open>Properties of validation\<close>

text \<open>
  C24. A new schema changes nothing that stored tuples rely on exactly when no breaking change is
  reported: every old type is still there, with every old relation and its subject types.
\<close>

theorem no_breaking_changes:
  "detect_breaking_changes old new = [] \<longleftrightarrow>
     (\<forall>td\<in>set (types old). \<exists>td'. get_type new (type_name td) = Some td' \<and>
        (\<forall>r\<in>set (relations td). \<exists>r'. get_relation td' (rel_name r) = Some r' \<and>
           rel_subject_types r' = rel_subject_types r))"
  by (rule detect_breaking_changes_Nil)

definition demo_old :: Schema where
  "demo_old = \<lparr>types = [\<lparr>type_name = ''user'', relations = [], permissions = []\<rparr>,
     \<lparr>type_name = ''doc'', relations = [\<lparr>rel_name = ''owner'', rel_subject_types =
        [\<lparr>str_type_name = ''user'', str_relation = None\<rparr>]\<rparr>], permissions = []\<rparr>]\<rparr>"

definition demo_new :: Schema where
  "demo_new = \<lparr>types = [\<lparr>type_name = ''doc'', relations =
      [\<lparr>rel_name = ''reader'', rel_subject_types = []\<rparr>,
       \<lparr>rel_name = ''owner'', rel_subject_types = [\<lparr>str_type_name = ''user'', str_relation = None\<rparr>]\<rparr>],
      permissions = []\<rparr>, \<lparr>type_name = ''user'', relations = [], permissions = []\<rparr>]\<rparr>"

theorem no_breaking_changes_witness:
  "detect_breaking_changes demo_old demo_new = [] \<and>
   (\<exists>td'. get_type demo_new ''doc'' = Some td' \<and> get_relation td' ''owner'' \<noteq> None)"
proof -
  have d: "detect_breaking_changes demo_old demo_new = []" by code_simp
  moreover have "\<exists>td\<in>set (types demo_old). type_name td = ''doc'' \<and> (\<exists>r\<in>set (relations td). rel_name r = ''owner'')"
    by (simp add: demo_old_def)
  ultimately show ?thesis
    using no_breaking_changes [of demo_old demo_new] by (metis option.distinct(1))
qed

text \<open>
  The limits accept a schema exactly when it has no more types, and each type no more relations
  and permissions, than configured.
\<close>

lemma validate_limits_iff:
  "is_ok (validate_schema_limits s limits) \<longleftrightarrow> length (types s) \<le> max_types limits \<and>
     list_all (\<lambda>td. length (relations td) \<le> max_relations_per_type limits \<and>
        length (permissions td) \<le> max_permissions_per_type limits) (types s)"
  using validate_schema_limits_ok [of s limits]
  by (cases "validate_schema_limits s limits") (auto simp: within_limits_def list_all_iff)

end
