(* ===== verification/Engine.thy ===== *)
theory Engine
  imports Tuples Schemas
begin

text \<open>
  \<open>kraalzibar-core/src/engine/mod.rs\<close>: the errors and configuration the two engines share, the
  \<open>TupleReader\<close> trait as a function type, and the contract of a reader as a locale: at a readable
  snapshot a read returns exactly the tuples of that snapshot that match the filter.
\<close>

datatype CheckError =
    TypeNotFound string
  | PermissionNotFound string string
  | RelationNotFound string string
  | MaxDepthExceeded nat
  | CheckStorageError string

fun CheckError_to_string :: "CheckError \<Rightarrow> string" where
  "CheckError_to_string (TypeNotFound t) = ''type not found: '' @ t"
| "CheckError_to_string (PermissionNotFound tn p) =
     ''permission '' @ quoted p @ '' not found on type '' @ quoted tn"
| "CheckError_to_string (RelationNotFound tn r) =
     ''relation '' @ quoted r @ '' not found on type '' @ quoted tn"
| "CheckError_to_string (MaxDepthExceeded d) = ''max depth exceeded: '' @ show_nat d"
| "CheckError_to_string (CheckStorageError m) = ''storage error: '' @ m"

record EngineConfig =
  max_depth :: nat
  max_concurrent_branches :: nat

definition EngineConfig_default :: EngineConfig where
  "EngineConfig_default = \<lparr>max_depth = 6, max_concurrent_branches = 10\<rparr>"

type_synonym TupleReader = "TupleFilter \<Rightarrow> SnapshotToken option \<Rightarrow> CheckError + Tuple list"

text \<open>The keys of the \<open>visited\<close> sets: object type, object id, permission.\<close>

type_synonym VisitKey = "string \<times> string \<times> string"

text \<open>The filter \<open>{object_type, object_id, relation, ..Default::default()}\<close> both engines read with.\<close>

definition object_filter :: "string \<Rightarrow> string \<Rightarrow> string \<Rightarrow> TupleFilter" where
  "object_filter ot oi r = TupleFilter_default
     \<lparr>f_object_type := Some ot, f_object_id := Some oi, f_relation := Some r\<rparr>"

lemma matches_object_filter:
  "matches (object_filter ot oi r) t \<longleftrightarrow>
     tup_object t = ObjectRef_new ot oi \<and> tup_relation t = r"
  by (auto simp: matches_iff object_filter_def TupleFilter_default_def ObjectRef_expand)

text \<open>The filter the check reads a userset with: the direct membership of one subject.\<close>

definition member_filter :: "string \<Rightarrow> string \<Rightarrow> string \<Rightarrow> string \<Rightarrow> string \<Rightarrow> TupleFilter" where
  "member_filter ty i rel st si =
     \<lparr>f_object_type = Some ty, f_object_id = Some i, f_relation = Some rel,
      f_subject_type = Some st, f_subject_id = Some si, f_subject_relation = Some None\<rparr>"

lemma matches_member_filter:
  "matches (member_filter ty i rel st si) t \<longleftrightarrow>
     t = Tuple_new (ObjectRef_new ty i) rel (direct st si)"
  by (auto simp: matches_iff member_filter_def tuple_eq_iff)

section \<open>The reader's contract\<close>

text \<open>
  The least the check relies on: a read that answers returns the matching tuples of the snapshot, in some
  order. A read may fail, whatever the snapshot.
\<close>

locale tuple_source =
  fixes read_tuples :: TupleReader
    and tuples_of :: "SnapshotToken option \<Rightarrow> Tuple set"
  assumes read_set: "read_tuples f snap = Inr ts \<Longrightarrow> set ts = {t \<in> tuples_of snap. matches f t}"

text \<open>A reader that answers whenever the snapshot is readable, in a fixed order.\<close>

locale tuple_reader =
  fixes read_tuples :: TupleReader
    and tuples_at :: "SnapshotToken option \<Rightarrow> Tuple list"
    and readable :: "SnapshotToken option \<Rightarrow> bool"
  assumes read_ok: "readable snap \<Longrightarrow> read_tuples f snap = Inr (filter (matches f) (tuples_at snap))"
    and read_err: "\<not> readable snap \<Longrightarrow> \<exists>m. read_tuples f snap = Inl (CheckStorageError m)"
begin

lemma read_Inr: "read_tuples f snap = Inr ts \<longleftrightarrow> readable snap \<and> ts = filter (matches f) (tuples_at snap)"
  using read_ok [of snap f] read_err [of snap f] by (cases "readable snap") auto

lemma read_Inl: "read_tuples f snap = Inl e \<Longrightarrow> \<exists>m. e = CheckStorageError m"
  using read_ok [of snap f] read_err [of snap f] by (cases "readable snap") auto

lemma set_read: "read_tuples f snap = Inr ts \<Longrightarrow> set ts = {t \<in> set (tuples_at snap). matches f t}"
  by (auto simp: read_Inr)

end

sublocale tuple_reader \<subseteq> source: tuple_source read_tuples "\<lambda>snap. set (tuples_at snap)"
  by unfold_locales (rule set_read)

end
