(* ===== verification/Storage.thy ===== *)
theory Storage
  imports Engine "HOL-Library.List_Lexorder" "HOL-Library.Char_ord"
begin

text \<open>
  \<open>kraalzibar-storage/src/traits.rs\<close>: the store interfaces. A store handle is a record of operations
  on the shared state it points to, which every operation that may change it returns; a factory
  hands out the handle of a tenant. The contract of a versioned store is a locale: reads answer from
  the list of tuples visible at a transaction, a write appends one version and keeps the old ones.
\<close>

datatype StorageError =
    EmptyDeleteFilter
  | SnapshotAhead u64 u64
  | Internal string

fun StorageError_to_string :: "StorageError \<Rightarrow> string" where
  "StorageError_to_string EmptyDeleteFilter = ''delete filter must have at least one field set''"
| "StorageError_to_string (SnapshotAhead requested current) =
     ''snapshot '' @ show_u64 requested @ '' is ahead of current '' @ show_u64 current"
| "StorageError_to_string (Internal m) = ''internal storage error: '' @ m"

text \<open>\<open>RelationshipStore\<close> and \<open>SchemaStore\<close>\<close>

record 's Store =
  store_write :: "'s \<Rightarrow> TupleWrite list \<Rightarrow> TupleFilter list \<Rightarrow> (StorageError + SnapshotToken) \<times> 's"
  store_read :: "'s \<Rightarrow> TupleFilter \<Rightarrow> SnapshotToken option \<Rightarrow> nat option \<Rightarrow> StorageError + Tuple list"
  store_snapshot :: "'s \<Rightarrow> StorageError + SnapshotToken"
  store_list_object_ids :: "'s \<Rightarrow> string \<Rightarrow> SnapshotToken option \<Rightarrow> nat option \<Rightarrow> StorageError + string list"
  store_write_schema :: "'s \<Rightarrow> string \<Rightarrow> (StorageError + unit) \<times> 's"
  store_read_schema :: "'s \<Rightarrow> StorageError + string option"

record 's StoreFactory =
  for_tenant :: "'s \<Rightarrow> TenantId \<Rightarrow> 's Store \<times> 's"

text \<open>\<open>Iterator::take\<close> and \<open>Vec::truncate\<close> under an optional limit.\<close>

fun take_opt :: "nat option \<Rightarrow> 'a list \<Rightarrow> 'a list" where
  "take_opt (Some n) xs = take n xs"
| "take_opt None xs = xs"

lemma set_take_opt: "set (take_opt l xs) \<subseteq> set xs"
  by (cases l) (auto dest: in_set_takeD)

section \<open>What a write does to the visible tuples\<close>

definition selected :: "TupleFilter list \<Rightarrow> Tuple \<Rightarrow> bool" where
  "selected deletes t = list_ex (\<lambda>f. matches f t) deletes"

definition apply_deletes :: "TupleFilter list \<Rightarrow> Tuple list \<Rightarrow> Tuple list" where
  "apply_deletes deletes ts = filter (\<lambda>t. \<not> selected deletes t) ts"

fun apply_writes :: "TupleWrite list \<Rightarrow> Tuple list \<Rightarrow> Tuple list" where
  "apply_writes [] ts = ts"
| "apply_writes (w # ws) ts =
     apply_writes ws (if Tuple_from w \<in> set ts then ts else ts @ [Tuple_from w])"

definition apply_write :: "TupleWrite list \<Rightarrow> TupleFilter list \<Rightarrow> Tuple list \<Rightarrow> Tuple list" where
  "apply_write writes deletes ts = apply_writes writes (apply_deletes deletes ts)"

lemma set_apply_deletes [simp]: "set (apply_deletes ds ts) = {t \<in> set ts. \<not> selected ds t}"
  by (simp add: apply_deletes_def)

lemma set_apply_writes [simp]: "set (apply_writes ws ts) = set ts \<union> Tuple_from ` set ws"
  by (induction ws ts rule: apply_writes.induct) auto

lemma distinct_apply_writes [simp]: "distinct (apply_writes ws ts) \<longleftrightarrow> distinct ts"
  by (induction ws ts rule: apply_writes.induct) auto

lemma distinct_apply_write: "distinct ts \<Longrightarrow> distinct (apply_write ws ds ts)"
  by (simp add: apply_write_def apply_deletes_def)

lemma set_apply_write:
  "set (apply_write ws ds ts) = {t \<in> set ts. \<not> selected ds t} \<union> Tuple_from ` set ws"
  by (simp add: apply_write_def)

section \<open>The contract of a versioned store\<close>

definition snapshot_value :: "u64 \<Rightarrow> SnapshotToken option \<Rightarrow> u64" where
  "snapshot_value current snap = (case snap of Some token \<Rightarrow> value_of token | None \<Rightarrow> current)"

text \<open>
  \<open>current\<close> is the last transaction, \<open>view\<close> lists the tuples visible at one, \<open>inv\<close> is the store's
  invariant. A write needs the next two transaction ids to be below the sentinel \<open>u64::MAX\<close>.
\<close>

locale versioned_store =
  fixes store :: "'s Store"
    and current :: "'s \<Rightarrow> u64"
    and view :: "'s \<Rightarrow> u64 \<Rightarrow> Tuple list"
    and schema_text :: "'s \<Rightarrow> string option"
    and inv :: "'s \<Rightarrow> bool"
  assumes read_ahead: "current s < snapshot_value (current s) snap \<Longrightarrow>
      store_read store s f snap lim = Inl (SnapshotAhead (snapshot_value (current s) snap) (current s))"
    and read_view: "snapshot_value (current s) snap \<le> current s \<Longrightarrow>
      store_read store s f snap lim =
        Inr (take_opt lim (filter (matches f) (view s (snapshot_value (current s) snap))))"
    and ids_ahead: "current s < snapshot_value (current s) snap \<Longrightarrow>
      store_list_object_ids store s ot snap lim =
        Inl (SnapshotAhead (snapshot_value (current s) snap) (current s))"
    and ids_view: "snapshot_value (current s) snap \<le> current s \<Longrightarrow>
      store_list_object_ids store s ot snap lim = Inr (take_opt lim (sorted_list_of_set
        {object_id (tup_object t) | t. t \<in> set (view s (snapshot_value (current s) snap)) \<and>
          object_type (tup_object t) = ot}))"
    and snapshot_current: "store_snapshot store s = Inr (SnapshotToken (current s))"
    and write_rejected: "inv s \<Longrightarrow> list_ex (\<lambda>f. \<not> has_any_field f) ds \<Longrightarrow>
      store_write store s ws ds = (Inl EmptyDeleteFilter, s)"
    and write_accepted: "inv s \<Longrightarrow> list_all has_any_field ds \<Longrightarrow> tx_room (current s) \<Longrightarrow>
      \<exists>s'. store_write store s ws ds = (Inr (SnapshotToken (current s + 1)), s') \<and> inv s' \<and>
        current s' = current s + 1 \<and> schema_text s' = schema_text s \<and>
        view s' (current s + 1) = apply_write ws ds (view s (current s)) \<and>
        (\<forall>v\<le>current s. view s' v = view s v)"
    and schema_read: "store_read_schema store s = Inr (schema_text s)"
    and schema_written: "inv s \<Longrightarrow> \<exists>s'. store_write_schema store s d = (Inr (), s') \<and> inv s' \<and>
        schema_text s' = Some d \<and> current s' = current s \<and> view s' = view s"
    and view_distinct: "inv s \<Longrightarrow> v \<le> current s \<Longrightarrow> distinct (view s v)"
begin

lemma write_cases:
  assumes "inv s" "tx_room (current s)"
  obtains (rejected) "list_ex (\<lambda>f. \<not> has_any_field f) ds" "store_write store s ws ds = (Inl EmptyDeleteFilter, s)"
    | (accepted) s' where "list_all has_any_field ds"
        "store_write store s ws ds = (Inr (SnapshotToken (current s + 1)), s')" "inv s'"
        "current s' = current s + 1" "schema_text s' = schema_text s"
        "view s' (current s + 1) = apply_write ws ds (view s (current s))"
        "\<And>v. v \<le> current s \<Longrightarrow> view s' v = view s v"
proof (cases "list_all has_any_field ds")
  case True
  then show thesis
    using write_accepted [OF assms(1) True assms(2), of ws] that(2) by blast
next
  case False
  then have "list_ex (\<lambda>f. \<not> has_any_field f) ds" by (auto simp: list_all_iff list_ex_iff)
  with that(1) write_rejected [OF assms(1)] show thesis by blast
qed

lemma read_cases:
  "store_read store s f snap lim =
    (if snapshot_value (current s) snap \<le> current s
     then Inr (take_opt lim (filter (matches f) (view s (snapshot_value (current s) snap))))
     else Inl (SnapshotAhead (snapshot_value (current s) snap) (current s)))"
  using read_view read_ahead by auto

text \<open>Read your writes: a read at the token of a write sees its effect and nothing else changed.\<close>

lemma read_own_write:
  assumes "inv s" "tx_room (current s)"
    and "store_write store s ws ds = (Inr tok, s')"
  shows "store_read store s' f (Some tok) None =
    Inr (filter (matches f) (apply_write ws ds (view s (current s))))"
  using assms(1,2)
proof (cases rule: write_cases [where ws = ws and ds = ds])
  case (accepted t)
  with assms have "tok = SnapshotToken (current s + 1)" "t = s'" by simp_all
  with accepted show ?thesis by (simp add: read_view snapshot_value_def)
qed (use assms in simp)

text \<open>Snapshot isolation: no write changes what a read at an earlier token returns.\<close>

lemma read_old_snapshot:
  assumes "inv s" "tx_room (current s)"
    and "store_write store s ws ds = (r, s')" "value_of tok \<le> current s"
  shows "store_read store s' f (Some tok) lim = store_read store s f (Some tok) lim"
  using assms(1,2)
proof (cases rule: write_cases [where ws = ws and ds = ds])
  case (accepted t)
  with assms show ?thesis by (auto simp: read_view snapshot_value_def)
qed (use assms in simp)

end

end
