(* ===== verification/Demo.thy ===== *)
theory Demo
  imports Engine
begin

text \<open>
  A small schema with its tuples, on which the theorems of the development are instantiated: folders
  shared with groups, documents that inherit from their folder, and editors with a ban list.
\<close>

definition demo_schema :: Schema where
  "demo_schema = \<lparr>types =
     [\<lparr>type_name = ''user'', relations = [], permissions = []\<rparr>,
      \<lparr>type_name = ''group'',
       relations = [\<lparr>rel_name = ''member'',
         rel_subject_types = [\<lparr>str_type_name = ''user'', str_relation = None\<rparr>]\<rparr>],
       permissions = []\<rparr>,
      \<lparr>type_name = ''folder'',
       relations = [\<lparr>rel_name = ''viewer'',
         rel_subject_types = [\<lparr>str_type_name = ''user'', str_relation = None\<rparr>,
           \<lparr>str_type_name = ''group'', str_relation = Some ''member''\<rparr>]\<rparr>],
       permissions = [\<lparr>perm_name = ''can_view'', perm_rule = RThis ''viewer''\<rparr>]\<rparr>,
      \<lparr>type_name = ''document'',
       relations = [\<lparr>rel_name = ''parent'',
           rel_subject_types = [\<lparr>str_type_name = ''folder'', str_relation = None\<rparr>]\<rparr>,
         \<lparr>rel_name = ''owner'', rel_subject_types = [\<lparr>str_type_name = ''user'', str_relation = None\<rparr>]\<rparr>,
         \<lparr>rel_name = ''banned'', rel_subject_types = [\<lparr>str_type_name = ''user'', str_relation = None\<rparr>]\<rparr>],
       permissions = [
         \<lparr>perm_name = ''can_view'', perm_rule = RUnion [RThis ''owner'', RArrow ''parent'' ''can_view'']\<rparr>,
         \<lparr>perm_name = ''can_edit'', perm_rule = RExclusion (RThis ''can_view'') (RThis ''banned'')\<rparr>]\<rparr>]\<rparr>"

definition demo_writes :: "TupleWrite list" where
  "demo_writes =
     [TupleWrite_new (ObjectRef_new ''document'' ''plan'') ''owner'' (direct ''user'' ''ann''),
      TupleWrite_new (ObjectRef_new ''document'' ''plan'') ''parent'' (direct ''folder'' ''work''),
      TupleWrite_new (ObjectRef_new ''folder'' ''work'') ''viewer'' (userset ''group'' ''team'' ''member''),
      TupleWrite_new (ObjectRef_new ''group'' ''team'') ''member'' (direct ''user'' ''bob''),
      TupleWrite_new (ObjectRef_new ''document'' ''plan'') ''banned'' (direct ''user'' ''bob'')]"

definition demo_tuples :: "Tuple list" where
  "demo_tuples = map Tuple_from demo_writes"

definition demo_reader :: TupleReader where
  "demo_reader f snapshot = Inr (filter (matches f) demo_tuples)"

definition demo_config :: "nat \<Rightarrow> EngineConfig" where
  "demo_config d = \<lparr>max_depth = d, max_concurrent_branches = 10\<rparr>"

end
