(* ===== verification/Memory_Store.thy ===== *)
theory Memory_Store
  imports Storage Demo
begin

text \<open>
  \<open>kraalzibar-storage/src/memory.rs\<close>: the in-memory store. A tuple carries the transactions that
  created and deleted it; a write is one locked step that marks the selected active tuples, by their
  indices, and pushes the new ones. The store and the tenants' handles satisfy the contract of a
  versioned store.
\<close>

section \<open>Stored tuples\<close>

abbreviation ACTIVE_TX_ID :: u64 where
  "ACTIVE_TX_ID \<equiv> u64_max"

record StoredTuple =
  st_object_type :: string
  st_object_id :: string
  st_relation :: string
  st_subject_type :: string
  st_subject_id :: string
  st_subject_relation :: "string option"
  created_tx_id :: u64
  deleted_tx_id :: u64

definition matches_write :: "StoredTuple \<Rightarrow> TupleWrite \<Rightarrow> bool" where
  "matches_write t w \<longleftrightarrow>
     st_object_type t = object_type (tw_object w) \<and> st_object_id t = object_id (tw_object w) \<and>
     st_relation t = tw_relation w \<and> st_subject_type t = subject_type (tw_subject w) \<and>
     st_subject_id t = subject_id (tw_subject w) \<and> st_subject_relation t = subject_relation (tw_subject w)"

definition is_active :: "StoredTuple \<Rightarrow> bool" where
  "is_active t \<longleftrightarrow> deleted_tx_id t = ACTIVE_TX_ID"

definition visible_at :: "StoredTuple \<Rightarrow> u64 \<Rightarrow> bool" where
  "visible_at t snapshot \<longleftrightarrow> created_tx_id t \<le> snapshot \<and> deleted_tx_id t > snapshot"

definition to_tuple :: "StoredTuple \<Rightarrow> Tuple" where
  "to_tuple t =
     (let subject = (case st_subject_relation t of
          None \<Rightarrow> direct (st_subject_type t) (st_subject_id t)
        | Some rel \<Rightarrow> userset (st_subject_type t) (st_subject_id t) rel)
      in Tuple_new (ObjectRef_new (st_object_type t) (st_object_id t)) (st_relation t) subject)"

definition matches_filter :: "StoredTuple \<Rightarrow> TupleFilter \<Rightarrow> bool" where
  "matches_filter t f = matches f (to_tuple t)"

section \<open>The store\<close>

record InnerState =
  current_tx :: u64
  tuples :: "StoredTuple list"
  schema_of :: "string option"

definition InMemoryStore_default :: InnerState where
  "InMemoryStore_default = \<lparr>current_tx = 0, tuples = [], schema_of = None\<rparr>"

text \<open>The pieces of \<open>write\<close>: the indices to delete, the marking loop and the loop over the writes.\<close>

definition to_delete :: "StoredTuple list \<Rightarrow> TupleFilter list \<Rightarrow> nat list" where
  "to_delete ts deletes =
     map fst (filter (\<lambda>(i, t). is_active t \<and> list_ex (\<lambda>f. matches_filter t f) deletes) (enumerate 0 ts))"

fun mark_deleted :: "u64 \<Rightarrow> nat list \<Rightarrow> StoredTuple list \<Rightarrow> StoredTuple list" where
  "mark_deleted tx_id [] ts = ts"
| "mark_deleted tx_id (i # is) ts = mark_deleted tx_id is (ts[i := (ts ! i)\<lparr>deleted_tx_id := tx_id\<rparr>])"

type_synonym WriteKey = "string \<times> string \<times> string \<times> string \<times> string \<times> string option"

definition write_key :: "TupleWrite \<Rightarrow> WriteKey" where
  "write_key w = (object_type (tw_object w), object_id (tw_object w), tw_relation w,
     subject_type (tw_subject w), subject_id (tw_subject w), subject_relation (tw_subject w))"

definition stored_from :: "u64 \<Rightarrow> TupleWrite \<Rightarrow> StoredTuple" where
  "stored_from tx_id w =
     \<lparr>st_object_type = object_type (tw_object w), st_object_id = object_id (tw_object w),
      st_relation = tw_relation w, st_subject_type = subject_type (tw_subject w),
      st_subject_id = subject_id (tw_subject w), st_subject_relation = subject_relation (tw_subject w),
      created_tx_id = tx_id, deleted_tx_id = ACTIVE_TX_ID\<rparr>"

fun push_writes :: "u64 \<Rightarrow> nat list \<Rightarrow> WriteKey set \<Rightarrow> TupleWrite list \<Rightarrow> StoredTuple list \<Rightarrow> StoredTuple list" where
  "push_writes tx_id del seen [] ts = ts"
| "push_writes tx_id del seen (w # ws) ts =
     (if write_key w \<in> seen then push_writes tx_id del seen ws ts
      else
        (let active_dup = list_ex (\<lambda>(i, t). is_active t \<and> \<not> i \<in> set del \<and> matches_write t w) (enumerate 0 ts)
         in if active_dup then push_writes tx_id del (insert (write_key w) seen) ws ts
            else push_writes tx_id del (insert (write_key w) seen) ws (ts @ [stored_from tx_id w])))"

definition mem_write ::
  "InnerState \<Rightarrow> TupleWrite list \<Rightarrow> TupleFilter list \<Rightarrow> (StorageError + SnapshotToken) \<times> InnerState" where
  "mem_write state writes deletes =
     (if list_ex (\<lambda>f. \<not> has_any_field f) deletes then (Inl EmptyDeleteFilter, state)
      else
        (let del = to_delete (tuples state) deletes;
             tx_id = current_tx state + 1;
             marked = mark_deleted tx_id del (tuples state)
         in (Inr (SnapshotToken tx_id),
             state\<lparr>current_tx := tx_id, tuples := push_writes tx_id del {} writes marked\<rparr>)))"

text \<open>The snapshot a read uses, shared by \<open>read\<close> and \<open>list_object_ids\<close>.\<close>

definition read_snapshot :: "InnerState \<Rightarrow> SnapshotToken option \<Rightarrow> StorageError + u64" where
  "read_snapshot state snapshot =
     (case snapshot of
        Some token \<Rightarrow>
          (if value_of token > current_tx state
           then Inl (SnapshotAhead (value_of token) (current_tx state))
           else Inr (value_of token))
      | None \<Rightarrow> Inr (current_tx state))"

definition mem_read ::
  "InnerState \<Rightarrow> TupleFilter \<Rightarrow> SnapshotToken option \<Rightarrow> nat option \<Rightarrow> StorageError + Tuple list" where
  "mem_read state f snapshot limit =
     and_then (read_snapshot state snapshot) (\<lambda>snap.
       Inr (take_opt limit (map to_tuple
         (filter (\<lambda>t. visible_at t snap \<and> matches_filter t f) (tuples state)))))"

definition mem_snapshot :: "InnerState \<Rightarrow> StorageError + SnapshotToken" where
  "mem_snapshot state = Inr (SnapshotToken (current_tx state))"

definition mem_list_object_ids ::
  "InnerState \<Rightarrow> string \<Rightarrow> SnapshotToken option \<Rightarrow> nat option \<Rightarrow> StorageError + string list" where
  "mem_list_object_ids state ot snapshot limit =
     and_then (read_snapshot state snapshot) (\<lambda>snap.
       Inr (take_opt limit (remdups_adj (sort (map st_object_id
         (filter (\<lambda>t. visible_at t snap \<and> st_object_type t = ot) (tuples state)))))))"

definition mem_write_schema :: "InnerState \<Rightarrow> string \<Rightarrow> (StorageError + unit) \<times> InnerState" where
  "mem_write_schema state definition_text = (Inr (), state\<lparr>schema_of := Some definition_text\<rparr>)"

definition mem_read_schema :: "InnerState \<Rightarrow> StorageError + string option" where
  "mem_read_schema state = Inr (schema_of state)"

definition InMemoryStore :: "InnerState Store" where
  "InMemoryStore = \<lparr>store_write = mem_write, store_read = mem_read, store_snapshot = mem_snapshot,
     store_list_object_ids = mem_list_object_ids, store_write_schema = mem_write_schema,
     store_read_schema = mem_read_schema\<rparr>"

section \<open>The factory\<close>

type_synonym InMemoryStores = "TenantId \<rightharpoonup> InnerState"

text \<open>A handle shares the tenant's entry; the factory creates the entry on first use.\<close>

definition tenant_state :: "InMemoryStores \<Rightarrow> TenantId \<Rightarrow> InnerState" where
  "tenant_state stores tenant =
     (case stores tenant of Some s \<Rightarrow> s | None \<Rightarrow> InMemoryStore_default)"

definition tenant_handle :: "TenantId \<Rightarrow> InMemoryStores Store" where
  "tenant_handle tenant =
     \<lparr>store_write = (\<lambda>stores ws ds.
        case mem_write (tenant_state stores tenant) ws ds of (r, s) \<Rightarrow> (r, stores(tenant \<mapsto> s))),
      store_read = (\<lambda>stores. mem_read (tenant_state stores tenant)),
      store_snapshot = (\<lambda>stores. mem_snapshot (tenant_state stores tenant)),
      store_list_object_ids = (\<lambda>stores. mem_list_object_ids (tenant_state stores tenant)),
      store_write_schema = (\<lambda>stores d.
        case mem_write_schema (tenant_state stores tenant) d of (r, s) \<Rightarrow> (r, stores(tenant \<mapsto> s))),
      store_read_schema = (\<lambda>stores. mem_read_schema (tenant_state stores tenant))\<rparr>"

definition mem_for_tenant :: "InMemoryStores \<Rightarrow> TenantId \<Rightarrow> InMemoryStores Store \<times> InMemoryStores" where
  "mem_for_tenant stores tenant =
     (tenant_handle tenant,
      case stores tenant of Some s \<Rightarrow> stores | None \<Rightarrow> stores(tenant \<mapsto> InMemoryStore_default))"

definition InMemoryStoreFactory :: "InMemoryStores StoreFactory" where
  "InMemoryStoreFactory = \<lparr>for_tenant = mem_for_tenant\<rparr>"

definition InMemoryStoreFactory_new :: InMemoryStores where
  "InMemoryStoreFactory_new = (\<lambda>_. None)"

section \<open>Lemmas on stored tuples\<close>

lemma to_tuple_simp:
  "to_tuple t = Tuple_new (ObjectRef_new (st_object_type t) (st_object_id t)) (st_relation t)
     \<lparr>subject_type = st_subject_type t, subject_id = st_subject_id t,
      subject_relation = st_subject_relation t\<rparr>"
  by (auto simp: to_tuple_def direct_def userset_def split: option.splits)

lemma to_tuple_sel [simp]:
  "object_type (tup_object (to_tuple t)) = st_object_type t"
  "object_id (tup_object (to_tuple t)) = st_object_id t"
  by (simp_all add: to_tuple_simp)

lemma to_tuple_deleted [simp]: "to_tuple (t\<lparr>deleted_tx_id := d\<rparr>) = to_tuple t"
  by (simp add: to_tuple_simp)

lemma to_tuple_stored_from [simp]: "to_tuple (stored_from tx w) = Tuple_from w"
  by (simp add: to_tuple_simp stored_from_def tuple_eq_iff Tuple_from_def)

lemma stored_from_sel [simp]:
  "created_tx_id (stored_from tx w) = tx" "deleted_tx_id (stored_from tx w) = ACTIVE_TX_ID"
  by (simp_all add: stored_from_def)

lemma matches_write_iff: "matches_write t w \<longleftrightarrow> to_tuple t = Tuple_from w"
  by (auto simp: matches_write_def to_tuple_simp tuple_eq_iff Tuple_from_def)

lemma write_key_iff: "write_key v = write_key w \<longleftrightarrow> Tuple_from v = Tuple_from w"
  by (auto simp: write_key_def tuple_eq_iff Tuple_from_def)

section \<open>The marking loop\<close>

lemma set_to_delete:
  "i \<in> set (to_delete ts ds) \<longleftrightarrow> i < length ts \<and> is_active (ts ! i) \<and> selected ds (to_tuple (ts ! i))"
  by (auto simp: to_delete_def selected_def matches_filter_def in_set_enumerate_eq image_iff)

lemma length_mark_deleted [simp]: "length (mark_deleted tx is ts) = length ts"
  by (induction tx "is" ts rule: mark_deleted.induct) auto

lemma nth_mark_deleted:
  "j < length ts \<Longrightarrow> mark_deleted tx is ts ! j =
     (if j \<in> set is then (ts ! j)\<lparr>deleted_tx_id := tx\<rparr> else ts ! j)"
proof (induction tx "is" ts rule: mark_deleted.induct)
  case (2 tx i "is" ts)
  then show ?case by (cases "i = j") auto
qed simp

definition mark :: "u64 \<Rightarrow> TupleFilter list \<Rightarrow> StoredTuple \<Rightarrow> StoredTuple" where
  "mark tx ds t = (if is_active t \<and> selected ds (to_tuple t) then t\<lparr>deleted_tx_id := tx\<rparr> else t)"

lemma mark_deleted_map: "mark_deleted tx (to_delete ts ds) ts = map (mark tx ds) ts"
  by (rule nth_equalityI) (auto simp: nth_mark_deleted set_to_delete mark_def)

section \<open>The loop over the writes\<close>

lemma active_dup_iff:
  assumes "\<And>i. i \<in> set del \<Longrightarrow> i < length ts \<Longrightarrow> \<not> is_active (ts ! i)"
  shows "list_ex (\<lambda>(i, t). is_active t \<and> \<not> i \<in> set del \<and> matches_write t w) (enumerate 0 ts) \<longleftrightarrow>
    Tuple_from w \<in> to_tuple ` {t \<in> set ts. is_active t}"
proof -
  have "list_ex (\<lambda>(i, t). is_active t \<and> \<not> i \<in> set del \<and> matches_write t w) (enumerate 0 ts) \<longleftrightarrow>
      (\<exists>i<length ts. is_active (ts ! i) \<and> i \<notin> set del \<and> to_tuple (ts ! i) = Tuple_from w)"
    by (auto simp: list_ex_iff Bex_def in_set_enumerate_eq matches_write_iff)
  also have "\<dots> \<longleftrightarrow> (\<exists>i<length ts. is_active (ts ! i) \<and> to_tuple (ts ! i) = Tuple_from w)"
    using assms by blast
  also have "\<dots> \<longleftrightarrow> Tuple_from w \<in> to_tuple ` {t \<in> set ts. is_active t}"
    by (auto simp: image_iff in_set_conv_nth)
  finally show ?thesis .
qed

lemma active_stored_from [simp]: "is_active (stored_from tx w)"
  by (simp add: is_active_def)

lemma push_writes_spec:
  assumes "\<And>i. i \<in> set del \<Longrightarrow> i < length ts \<and> \<not> is_active (ts ! i)"
    and "\<And>v. write_key v \<in> seen \<Longrightarrow> Tuple_from v \<in> to_tuple ` {t \<in> set ts. is_active t}"
  shows "\<exists>news. push_writes tx del seen ws ts = ts @ map (stored_from tx) news \<and>
    map to_tuple (filter is_active ts) @ map Tuple_from news =
      apply_writes ws (map to_tuple (filter is_active ts))"
  using assms
proof (induction tx del seen ws ts rule: push_writes.induct)
  case (2 tx del seen w ws ts)
  let ?A = "to_tuple ` {t \<in> set ts. is_active t}"
  have A: "set (map to_tuple (filter is_active ts)) = ?A" by simp
  have dup: "list_ex (\<lambda>(i, t). is_active t \<and> \<not> i \<in> set del \<and> matches_write t w) (enumerate 0 ts) \<longleftrightarrow>
      Tuple_from w \<in> ?A"
    by (rule active_dup_iff) (use "2.prems"(1) in blast)
  consider (seen) "write_key w \<in> seen" "Tuple_from w \<in> ?A"
    | (dup) "write_key w \<notin> seen" "Tuple_from w \<in> ?A"
    | (new) "write_key w \<notin> seen" "Tuple_from w \<notin> ?A"
    using "2.prems"(2) by blast
  then show ?case
  proof cases
    case seen
    with "2.IH"(1) [OF seen(1) "2.prems"] show ?thesis by simp
  next
    case dup': dup
    have seen': "Tuple_from v \<in> ?A" if "write_key v \<in> insert (write_key w) seen" for v
      using that "2.prems"(2) dup'(2) by (auto simp: write_key_iff)
    from "2.IH"(2) [OF dup'(1) refl _ "2.prems"(1) seen'] dup dup' show ?thesis
      by (simp del: insert_iff)
  next
    case new
    let ?ts = "ts @ [stored_from tx w]"
    have del': "i < length ?ts \<and> \<not> is_active (?ts ! i)" if "i \<in> set del" for i
      using "2.prems"(1) [OF that] by (simp add: nth_append)
    have seen': "Tuple_from v \<in> to_tuple ` {t \<in> set ?ts. is_active t}"
      if "write_key v \<in> insert (write_key w) seen" for v
      using that "2.prems"(2) [of v] by (auto simp: write_key_iff image_iff)
    from "2.IH"(3) [OF new(1) refl _ del' seen'] dup new
    obtain news where n: "push_writes tx del (insert (write_key w) seen) ws ?ts = ?ts @ map (stored_from tx) news"
      and a: "map to_tuple (filter is_active ?ts) @ map Tuple_from news =
        apply_writes ws (map to_tuple (filter is_active ?ts))"
      by auto
    from n a dup new A show ?thesis by (intro exI [of _ "w # news"]) auto
  qed
qed simp

section \<open>The invariant\<close>

definition stored_ok :: "u64 \<Rightarrow> StoredTuple \<Rightarrow> bool" where
  "stored_ok cur t \<longleftrightarrow> created_tx_id t \<le> cur \<and>
     (is_active t \<or> created_tx_id t < deleted_tx_id t \<and> deleted_tx_id t \<le> cur)"

definition mem_view :: "InnerState \<Rightarrow> u64 \<Rightarrow> Tuple list" where
  "mem_view s v = map to_tuple (filter (\<lambda>t. visible_at t v) (tuples s))"

definition mem_inv :: "InnerState \<Rightarrow> bool" where
  "mem_inv s \<longleftrightarrow> current_tx s < ACTIVE_TX_ID \<and> list_all (stored_ok (current_tx s)) (tuples s) \<and>
     (\<forall>v\<le>current_tx s. distinct (mem_view s v))"

lemma mem_inv_default [simp]: "mem_inv InMemoryStore_default"
  by (simp add: mem_inv_def InMemoryStore_default_def mem_view_def)

lemma visible_now:
  "stored_ok cur t \<Longrightarrow> cur < ACTIVE_TX_ID \<Longrightarrow> visible_at t cur \<longleftrightarrow> is_active t"
  by (auto simp: stored_ok_def visible_at_def is_active_def)

lemma filter_visible_now:
  assumes "list_all (stored_ok cur) ts" "cur < ACTIVE_TX_ID"
  shows "filter (\<lambda>t. visible_at t cur) ts = filter is_active ts"
  by (rule filter_cong) (use assms in \<open>auto simp: list_all_iff visible_now\<close>)

lemma visible_mark:
  assumes "tx_room cur" "v \<le> cur"
  shows "visible_at (mark (cur + 1) ds t) v \<longleftrightarrow> visible_at t v"
  using assms u64_less_succ_iff [of cur v] by (auto simp: mark_def visible_at_def is_active_def)

lemma stored_ok_mark:
  assumes "tx_room cur" "stored_ok cur t"
  shows "stored_ok (cur + 1) (mark (cur + 1) ds t)"
  using assms u64_less_succ_iff [of cur "created_tx_id t"]
  by (auto simp: mark_def stored_ok_def is_active_def)

lemma active_mark:
  assumes "tx_room cur"
  shows "is_active (mark (cur + 1) ds t) \<longleftrightarrow> is_active t \<and> \<not> selected ds (to_tuple t)"
proof -
  from tx_roomD(2) [OF assms] have "cur + 1 \<noteq> ACTIVE_TX_ID" by (metis less_irrefl)
  then show ?thesis by (auto simp: mark_def is_active_def)
qed

lemma to_tuple_mark [simp]: "to_tuple (mark tx ds t) = to_tuple t"
  by (simp add: mark_def)

lemma view_mark:
  assumes "tx_room cur"
  shows "map to_tuple (filter is_active (map (mark (cur + 1) ds) ts)) =
    apply_deletes ds (map to_tuple (filter is_active ts))"
  by (simp add: filter_map comp_def active_mark [OF assms] apply_deletes_def conj_commute)

text \<open>An accepted write: its token, and the tuples visible at every transaction afterwards.\<close>

lemma mem_write_accepted:
  assumes inv: "mem_inv s" and ds: "list_all has_any_field ds" and room: "tx_room (current_tx s)"
  obtains s' where "mem_write s ws ds = (Inr (SnapshotToken (current_tx s + 1)), s')" "mem_inv s'"
    "current_tx s' = current_tx s + 1" "schema_of s' = schema_of s"
    "mem_view s' (current_tx s + 1) = apply_write ws ds (mem_view s (current_tx s))"
    "\<And>v. v \<le> current_tx s \<Longrightarrow> mem_view s' v = mem_view s v"
proof -
  let ?c = "current_tx s" and ?del = "to_delete (tuples s) ds"
  let ?m = "map (mark (?c + 1) ds) (tuples s)"
  from inv have c: "?c < ACTIVE_TX_ID" and ok: "list_all (stored_ok ?c) (tuples s)"
    and dist: "\<And>v. v \<le> ?c \<Longrightarrow> distinct (mem_view s v)"
    by (auto simp: mem_inv_def)
  have del: "i < length ?m \<and> \<not> is_active (?m ! i)" if "i \<in> set ?del" for i
    using that active_mark [OF room] by (simp add: set_to_delete)
  obtain news where push: "push_writes (?c + 1) ?del {} ws ?m = ?m @ map (stored_from (?c + 1)) news"
    and act: "map to_tuple (filter is_active ?m) @ map Tuple_from news =
      apply_writes ws (map to_tuple (filter is_active ?m))"
    using push_writes_spec [of ?del ?m "{}" "?c + 1" ws] del by auto
  define s' where "s' = s\<lparr>current_tx := ?c + 1, tuples := ?m @ map (stored_from (?c + 1)) news\<rparr>"
  have w: "mem_write s ws ds = (Inr (SnapshotToken (?c + 1)), s')"
    using ds push by (auto simp: mem_write_def Let_def mark_deleted_map s'_def list_all_iff list_ex_iff)
  have ok': "list_all (stored_ok (?c + 1)) (tuples s')"
    using ok stored_ok_mark [OF room]
    by (auto simp: s'_def list_all_iff stored_ok_def [of _ "stored_from _ _"])
  have now: "mem_view s' (?c + 1) = apply_write ws ds (mem_view s ?c)"
    using filter_visible_now [OF ok' tx_roomD(2) [OF room]] act
    by (simp add: mem_view_def s'_def filter_visible_now [OF ok c] view_mark [OF room] apply_write_def comp_def)
  have old: "mem_view s' v = mem_view s v" if "v \<le> ?c" for v
    using that room u64_less_succ_iff [of ?c v]
    by (auto simp: mem_view_def s'_def filter_map comp_def visible_mark filter_empty_conv visible_at_def [of "stored_from _ _"])
  have "mem_inv s'"
    using ok' now old dist room distinct_apply_write [OF dist [of ?c]] u64_less_succ_iff [of ?c]
    by (auto simp: mem_inv_def s'_def [THEN arg_cong [of _ _ current_tx]] order_le_less)
  with that [of s'] w now old show thesis by (simp add: s'_def)
qed

section \<open>The contract\<close>

lemma sorted_distinct_dedup: "sorted xs \<Longrightarrow> distinct (remdups_adj xs)" for xs :: "'a :: linorder list"
  by (induction xs rule: remdups_adj.induct) auto

lemma sort_dedup: "remdups_adj (sort xs) = sorted_list_of_set (set xs)" for xs :: "'a :: linorder list"
  by (rule sorted_distinct_set_unique) (simp_all add: sorted_distinct_dedup)

lemma read_snapshot_ahead:
  "current_tx s < snapshot_value (current_tx s) snap \<Longrightarrow>
     read_snapshot s snap = Inl (SnapshotAhead (snapshot_value (current_tx s) snap) (current_tx s))"
  by (auto simp: read_snapshot_def snapshot_value_def split: option.splits)

lemma read_snapshot_ok:
  "snapshot_value (current_tx s) snap \<le> current_tx s \<Longrightarrow>
     read_snapshot s snap = Inr (snapshot_value (current_tx s) snap)"
  by (auto simp: read_snapshot_def snapshot_value_def split: option.splits)

lemma mem_read_view:
  "snapshot_value (current_tx s) snap \<le> current_tx s \<Longrightarrow>
     mem_read s f snap lim = Inr (take_opt lim (filter (matches f) (mem_view s (snapshot_value (current_tx s) snap))))"
  by (simp add: mem_read_def read_snapshot_ok mem_view_def filter_map comp_def matches_filter_def conj_commute)

lemma mem_ids_view:
  "snapshot_value (current_tx s) snap \<le> current_tx s \<Longrightarrow>
     mem_list_object_ids s ot snap lim = Inr (take_opt lim (sorted_list_of_set
       {object_id (tup_object t) | t. t \<in> set (mem_view s (snapshot_value (current_tx s) snap)) \<and>
         object_type (tup_object t) = ot}))"
proof -
  let ?v = "snapshot_value (current_tx s) snap"
  have "set (map st_object_id (filter (\<lambda>t. visible_at t ?v \<and> st_object_type t = ot) (tuples s))) =
      {object_id (tup_object t) | t. t \<in> set (mem_view s ?v) \<and> object_type (tup_object t) = ot}"
    by (force simp: mem_view_def)
  moreover assume "?v \<le> current_tx s"
  ultimately show ?thesis by (simp add: mem_list_object_ids_def read_snapshot_ok sort_dedup)
qed

lemma mem_ahead:
  assumes "current_tx s < snapshot_value (current_tx s) snap"
  shows "mem_read s f snap lim = Inl (SnapshotAhead (snapshot_value (current_tx s) snap) (current_tx s))"
    "mem_list_object_ids s ot snap lim = Inl (SnapshotAhead (snapshot_value (current_tx s) snap) (current_tx s))"
  by (simp_all add: mem_read_def mem_list_object_ids_def read_snapshot_ahead [OF assms])

lemma mem_write_rejected:
  "list_ex (\<lambda>f. \<not> has_any_field f) ds \<Longrightarrow> mem_write s ws ds = (Inl EmptyDeleteFilter, s)"
  by (simp add: mem_write_def)

lemma mem_schema_inv: "mem_inv (s\<lparr>schema_of := d\<rparr>) \<longleftrightarrow> mem_inv s" "mem_view (s\<lparr>schema_of := d\<rparr>) = mem_view s"
  by (simp_all add: mem_inv_def mem_view_def fun_eq_iff)

lemma tenant_state_upd [simp]:
  "tenant_state (stores(t \<mapsto> s)) u = (if u = t then s else tenant_state stores u)"
  by (simp add: tenant_state_def)

lemma tenant_state_for_tenant [simp]:
  "tenant_state (snd (mem_for_tenant stores t)) u = tenant_state stores u"
  by (auto simp: tenant_state_def mem_for_tenant_def split: option.splits)

lemmas mem_contract = mem_ahead mem_read_view mem_ids_view mem_snapshot_def mem_write_rejected
  mem_read_schema_def mem_write_schema_def mem_schema_inv

interpretation mem: versioned_store InMemoryStore current_tx mem_view schema_of mem_inv
proof (unfold_locales, goal_cases)
  case (7 s ds ws)
  then show ?case by - (rule mem_write_accepted [of s ds ws], auto simp: InMemoryStore_def)
qed (auto simp: InMemoryStore_def mem_contract mem_inv_def [THEN iffD1])

text \<open>A tenant's handle is used once the factory has made its entry.\<close>

definition stores_inv :: "InMemoryStores \<Rightarrow> bool" where
  "stores_inv stores \<longleftrightarrow> (\<forall>t. mem_inv (tenant_state stores t))"

definition tenant_inv :: "TenantId \<Rightarrow> InMemoryStores \<Rightarrow> bool" where
  "tenant_inv t stores \<longleftrightarrow> stores_inv stores \<and> t \<in> dom stores"

lemma stores_inv_new [simp]: "stores_inv InMemoryStoreFactory_new"
  by (simp add: stores_inv_def tenant_state_def InMemoryStoreFactory_new_def)

lemma stores_inv_upd: "stores_inv stores \<Longrightarrow> mem_inv s \<Longrightarrow> stores_inv (stores(t \<mapsto> s))"
  by (simp add: stores_inv_def)

lemma tenant_state_same: "t \<in> dom stores \<Longrightarrow> stores(t \<mapsto> tenant_state stores t) = stores"
  by (auto simp: tenant_state_def split: option.splits)

lemma tenant_invD: "tenant_inv t stores \<Longrightarrow> mem_inv (tenant_state stores u)"
  by (simp add: tenant_inv_def stores_inv_def)

interpretation tenant: versioned_store "tenant_handle t" "\<lambda>stores. current_tx (tenant_state stores t)"
    "\<lambda>stores. mem_view (tenant_state stores t)" "\<lambda>stores. schema_of (tenant_state stores t)"
    "tenant_inv t" for t
proof (unfold_locales, goal_cases)
  case (7 s ds ws)
  then show ?case
    by - (rule mem_write_accepted [of "tenant_state s t" ds ws],
        auto simp: tenant_handle_def tenant_inv_def stores_inv_upd stores_inv_def)
next
  case (9 s d)
  then show ?case
    by (auto simp: tenant_handle_def tenant_inv_def mem_contract stores_inv_def)
next
  case (10 s v)
  then show ?case using tenant_invD [of t s t] by (simp add: mem_inv_def)
qed (auto simp: tenant_handle_def tenant_inv_def mem_contract tenant_state_same)

text \<open>The factory's handle of a tenant meets its invariant, and leaves every other tenant alone.\<close>

lemma for_tenant_inv:
  "stores_inv stores \<Longrightarrow> tenant_inv t (snd (mem_for_tenant stores t))"
  by (auto simp: tenant_inv_def stores_inv_def) (auto simp: mem_for_tenant_def split: option.splits)

lemma tenant_write_others:
  "store_write (tenant_handle t) stores ws ds = (r, stores') \<Longrightarrow> u \<noteq> t \<Longrightarrow>
     tenant_state stores' u = tenant_state stores u"
  by (auto simp: tenant_handle_def tenant_state_def split: prod.splits)

lemma tenant_write_schema_others:
  "store_write_schema (tenant_handle t) stores d = (r, stores') \<Longrightarrow> u \<noteq> t \<Longrightarrow>
     tenant_state stores' u = tenant_state stores u"
  by (auto simp: tenant_handle_def tenant_state_def split: prod.splits)

section \<open>The contract of a factory\<close>

text \<open>
  What a client of a \<open>StoreFactory\<close> relies on: every tenant's handle is a versioned store, obtaining
  one changes nothing a tenant can observe, and operations of one tenant leave the others' versions
  and schema as they are.
\<close>

locale tenant_stores =
  fixes F :: "'f StoreFactory"
    and handle :: "TenantId \<Rightarrow> 'f Store"
    and current :: "TenantId \<Rightarrow> 'f \<Rightarrow> u64"
    and view :: "TenantId \<Rightarrow> 'f \<Rightarrow> u64 \<Rightarrow> Tuple list"
    and schema_text :: "TenantId \<Rightarrow> 'f \<Rightarrow> string option"
    and inv :: "'f \<Rightarrow> bool"
    and ready :: "TenantId \<Rightarrow> 'f \<Rightarrow> bool"
  assumes handle_store: "versioned_store (handle t) (current t) (view t) (schema_text t) (\<lambda>f. inv f \<and> ready t f)"
    and for_tenant_handle: "fst (for_tenant F f t) = handle t"
    and for_tenant_ready: "inv f \<Longrightarrow> ready t (snd (for_tenant F f t)) \<and> inv (snd (for_tenant F f t))"
    and for_tenant_same: "current u (snd (for_tenant F f t)) = current u f"
      "view u (snd (for_tenant F f t)) = view u f" "schema_text u (snd (for_tenant F f t)) = schema_text u f"
    and write_others: "store_write (handle t) f ws ds = (r, f') \<Longrightarrow> u \<noteq> t \<Longrightarrow>
      current u f' = current u f \<and> view u f' = view u f \<and> schema_text u f' = schema_text u f"
    and write_schema_others: "store_write_schema (handle t) f d = (r', f') \<Longrightarrow> u \<noteq> t \<Longrightarrow>
      current u f' = current u f \<and> view u f' = view u f \<and> schema_text u f' = schema_text u f"

sublocale tenant_stores \<subseteq> st: versioned_store "handle t" "current t" "view t" "schema_text t"
    "\<lambda>f. inv f \<and> ready t f" for t
  by (rule handle_store)

interpretation mem_factory: tenant_stores InMemoryStoreFactory tenant_handle
    "\<lambda>t stores. current_tx (tenant_state stores t)" "\<lambda>t stores. mem_view (tenant_state stores t)"
    "\<lambda>t stores. schema_of (tenant_state stores t)" stores_inv "\<lambda>t stores. t \<in> dom stores"
proof (rule tenant_stores.intro, goal_cases)
  case (1 t)
  then show ?case using tenant.versioned_store_axioms [of t] by (simp add: tenant_inv_def [abs_def])
next
  case (2 f t)
  then show ?case by (simp add: InMemoryStoreFactory_def mem_for_tenant_def)
next
  case (3 f t)
  then show ?case using for_tenant_inv [of f t] by (simp add: tenant_inv_def InMemoryStoreFactory_def)
qed (auto simp: InMemoryStoreFactory_def dest: tenant_write_others tenant_write_schema_others)

section \<open>Sequences of writes\<close>

definition mem_run :: "(TupleWrite list \<times> TupleFilter list) list \<Rightarrow> InnerState \<Rightarrow> InnerState" where
  "mem_run batches s = fold (\<lambda>(ws, ds) s. snd (mem_write s ws ds)) batches s"

text \<open>One write, accepted or not: it keeps the invariant and every version up to the current one.\<close>

lemma mem_write_step:
  assumes "mem_inv s" "tx_room (current_tx s)"
  shows "mem_inv (snd (mem_write s ws ds)) \<and> current_tx s \<le> current_tx (snd (mem_write s ws ds)) \<and>
    unat (current_tx (snd (mem_write s ws ds))) \<le> Suc (unat (current_tx s)) \<and>
    (\<forall>v\<le>current_tx s. mem_view (snd (mem_write s ws ds)) v = mem_view s v)"
proof (cases "list_all has_any_field ds")
  case True
  obtain s' where "mem_write s ws ds = (Inr (SnapshotToken (current_tx s + 1)), s')" "mem_inv s'"
    "current_tx s' = current_tx s + 1" "\<And>v. v \<le> current_tx s \<Longrightarrow> mem_view s' v = mem_view s v"
    by (rule mem_write_accepted [OF assms(1) True assms(2), of ws]) blast
  with assms u64_succ [OF tx_roomD(1) [OF assms(2)]] show ?thesis by simp
next
  case False
  then have "list_ex (\<lambda>f. \<not> has_any_field f) ds" by (auto simp: list_all_iff list_ex_iff)
  with assms show ?thesis by (simp add: mem_write_rejected)
qed

lemma mem_run_step:
  assumes "mem_inv s" "unat (current_tx s) + length batches < 2 ^ 64 - 1"
  shows "mem_inv (mem_run batches s) \<and> current_tx s \<le> current_tx (mem_run batches s) \<and>
    (\<forall>v\<le>current_tx s. mem_view (mem_run batches s) v = mem_view s v)"
  using assms
proof (induction batches arbitrary: s)
  case (Cons b batches)
  obtain ws ds where b: "b = (ws, ds)" by fastforce
  let ?s = "snd (mem_write s ws ds)"
  from Cons.prems have "tx_room (current_tx s)" by (simp add: tx_room_unat)
  from mem_write_step [OF Cons.prems(1) this, of ws ds] Cons.prems(2)
  have step: "mem_inv ?s" "current_tx s \<le> current_tx ?s" "unat (current_tx ?s) + length batches < 2 ^ 64 - 1"
    "\<And>v. v \<le> current_tx s \<Longrightarrow> mem_view ?s v = mem_view s v"
    by auto
  have run: "mem_run (b # batches) s = mem_run batches ?s" by (simp add: mem_run_def b)
  from Cons.IH [OF step(1,3)] step show ?case unfolding run by (auto intro: order_trans)
qed (simp add: mem_run_def)

section \<open>Properties of the store\<close>

text \<open>
  C11. A write whose delete filters all select something by a field commits as one new version: its
  token is the next transaction, the new version is the current one with the selected tuples removed
  and then the written tuples added once each, in order, and every older version, the schema and the
  invariant are kept.
\<close>

theorem mem_write_refines:
  assumes "mem_inv s" "list_all has_any_field ds" "tx_room (current_tx s)"
  shows "\<exists>s'. mem_write s ws ds = (Inr (SnapshotToken (current_tx s + 1)), s') \<and> mem_inv s' \<and>
    current_tx s' = current_tx s + 1 \<and> schema_of s' = schema_of s \<and>
    mem_view s' (current_tx s') = apply_write ws ds (mem_view s (current_tx s)) \<and>
    (\<forall>v\<le>current_tx s. mem_view s' v = mem_view s v)"
  by (rule mem_write_accepted [OF assms, of ws]) auto

theorem mem_write_refines_witness:
  "\<exists>s'. mem_write InMemoryStore_default (demo_writes @ demo_writes) [] = (Inr (SnapshotToken 1), s') \<and> mem_inv s' \<and>
    mem_view s' 1 = demo_tuples"
proof -
  have "current_tx InMemoryStore_default = 0" "mem_view InMemoryStore_default 0 = []"
    by (simp_all add: InMemoryStore_default_def mem_view_def)
  moreover have "apply_write (demo_writes @ demo_writes) [] [] = demo_tuples" by code_simp
  ultimately show ?thesis
    using mem_write_refines [of InMemoryStore_default "[]" "demo_writes @ demo_writes"]
    by (auto simp: tx_room_unat)
qed

text \<open>
  C12. Snapshot isolation: whatever batches are written later, accepted or refused, a read at a token
  already handed out returns the same tuples, in the same order, as long as the transaction counter
  does not reach the sentinel.
\<close>

theorem mem_read_stable:
  assumes "mem_inv s" "unat (current_tx s) + length batches < 2 ^ 64 - 1" "value_of tok \<le> current_tx s"
  shows "mem_read (mem_run batches s) f (Some tok) lim = mem_read s f (Some tok) lim"
proof -
  note r = mem_run_step [OF assms(1,2)]
  with assms(3) have "value_of tok \<le> current_tx (mem_run batches s)" by (auto intro: order_trans)
  with assms(3) r show ?thesis by (simp add: mem_read_view snapshot_value_def)
qed

theorem mem_read_stable_witness:
  "mem_read (mem_run [(demo_writes, []), ([], [exact_filter (hd demo_tuples)])] InMemoryStore_default)
     TupleFilter_default (Some (SnapshotToken 0)) None = Inr []"
proof -
  have "mem_read InMemoryStore_default TupleFilter_default (Some (SnapshotToken 0)) None = Inr []"
    by code_simp
  then show ?thesis
    by (subst mem_read_stable) (simp_all add: InMemoryStore_default_def [THEN arg_cong [of _ _ current_tx]])
qed

text \<open>
  The object ids of a type at a version are listed sorted and without repetition, the first ones
  when a limit is given, and they are exactly the ids of the objects with a tuple visible there.
\<close>

lemma mem_list_object_ids_exact:
  assumes "snapshot_value (current_tx s) snap \<le> current_tx s"
  shows "\<exists>ids. mem_list_object_ids s ot snap lim = Inr (take_opt lim ids) \<and> sorted ids \<and> distinct ids \<and>
    (\<forall>i. i \<in> set ids \<longleftrightarrow> (\<exists>t\<in>set (mem_view s (snapshot_value (current_tx s) snap)).
       tup_object t = ObjectRef_new ot i))"
proof -
  let ?v = "snapshot_value (current_tx s) snap"
  let ?A = "{object_id (tup_object t) | t. t \<in> set (mem_view s ?v) \<and> object_type (tup_object t) = ot}"
  have "finite ?A" by simp
  then show ?thesis
    by (intro exI [of _ "sorted_list_of_set ?A"])
      (auto simp: mem_ids_view [OF assms] ObjectRef_expand)
qed

lemma mem_list_object_ids_exact_instance:
  "mem_list_object_ids (mem_run [(demo_writes, [])] InMemoryStore_default) ''document'' None None = Inr [''plan''] \<and>
   (\<exists>ids. mem_list_object_ids (mem_run [(demo_writes, [])] InMemoryStore_default) ''document'' None None = Inr (take_opt None ids) \<and>
     sorted ids \<and> distinct ids)"
proof
  show "mem_list_object_ids (mem_run [(demo_writes, [])] InMemoryStore_default) ''document'' None None = Inr [''plan'']"
    by code_simp
  show "\<exists>ids. mem_list_object_ids (mem_run [(demo_writes, [])] InMemoryStore_default) ''document'' None None = Inr (take_opt None ids) \<and>
     sorted ids \<and> distinct ids"
    using mem_list_object_ids_exact [of "mem_run [(demo_writes, [])] InMemoryStore_default" None "''document''" None]
    by (auto simp: snapshot_value_def)
qed

end
