(* ===== verification/Garbage_Collector.thy ===== *)
theory Garbage_Collector
  imports Memory_Store
begin

text \<open>
  \<open>kraalzibar-storage/src/gc.rs\<close>: one cycle reads every tuple at the current snapshot and deletes the
  orphans, those whose type or relation the schema no longer has. Over the contract of a versioned
  store a cycle deletes exactly the orphans, keeps history, and a second cycle deletes nothing.
\<close>

definition is_orphan :: "Schema \<Rightarrow> Tuple \<Rightarrow> bool" where
  "is_orphan schema tuple =
     (case get_type schema (object_type (tup_object tuple)) of
        None \<Rightarrow> True
      | Some td \<Rightarrow> \<not> list_ex (\<lambda>r. rel_name r = tup_relation tuple) (relations td))"

definition run_gc_cycle :: "'s Store \<Rightarrow> 's \<Rightarrow> Schema \<Rightarrow> (StorageError + nat) \<times> 's" where
  "run_gc_cycle store s schema =
     (case store_snapshot store s of
        Inl e \<Rightarrow> (Inl e, s)
      | Inr snapshot \<Rightarrow>
          (case store_read store s TupleFilter_default (Some snapshot) None of
             Inl e \<Rightarrow> (Inl e, s)
           | Inr all_tuples \<Rightarrow>
               (let orphan_filters = map exact_filter (filter (is_orphan schema) all_tuples);
                    count = length orphan_filters
                in if orphan_filters \<noteq> [] then
                     (case store_write store s [] orphan_filters of
                        (Inl e, s') \<Rightarrow> (Inl e, s')
                      | (Inr token, s') \<Rightarrow> (Inr count, s'))
                   else (Inr count, s))))"

lemma orphan_iff:
  "is_orphan S t \<longleftrightarrow> \<not> (\<exists>td r. get_type S (object_type (tup_object t)) = Some td \<and>
     get_relation td (tup_relation t) = Some r)"
  by (auto simp: is_orphan_def get_relation_def list_ex_iff find_None_iff split: option.splits)

lemma apply_write_orphans:
  "apply_write [] (map exact_filter (filter P ts)) ts = filter (\<lambda>t. \<not> P t) ts"
  by (auto simp: apply_write_def apply_deletes_def selected_def list_ex_iff intro!: filter_cong)

context versioned_store
begin

lemma run_gc_cycle_ok:
  assumes inv: "inv s" and room: "tx_room (current s)"
  obtains s' where "run_gc_cycle store s S = (Inr (length (filter (is_orphan S) (view s (current s)))), s')"
    "inv s'" "schema_text s' = schema_text s"
    "view s' (current s') = filter (\<lambda>t. \<not> is_orphan S t) (view s (current s))"
    "\<And>v. v \<le> current s \<Longrightarrow> view s' v = view s v"
    "current s' = current s + (if filter (is_orphan S) (view s (current s)) = [] then 0 else 1)"
proof -
  let ?O = "filter (is_orphan S) (view s (current s))"
  have r: "store_read store s TupleFilter_default (Some (SnapshotToken (current s))) None = Inr (view s (current s))"
    using read_view [of s "Some (SnapshotToken (current s))" TupleFilter_default None]
    by (simp add: snapshot_value_def)
  show thesis
  proof (cases "?O = []")
    case True
    with inv r that [of s] show thesis
      by (simp add: run_gc_cycle_def snapshot_current filter_empty_conv Let_def)
  next
    case False
    have "list_all has_any_field (map exact_filter ?O)" by (simp add: list_all_iff)
    from write_accepted [OF inv this room, of "[]"] obtain s' where
      s': "store_write store s [] (map exact_filter ?O) = (Inr (SnapshotToken (current s + 1)), s')" "inv s'"
        "current s' = current s + 1" "schema_text s' = schema_text s"
        "view s' (current s + 1) = filter (\<lambda>t. \<not> is_orphan S t) (view s (current s))"
        "\<And>v. v \<le> current s \<Longrightarrow> view s' v = view s v"
      by (auto simp: apply_write_orphans)
    with False inv r show thesis
      by (intro that [of s']) (simp_all add: run_gc_cycle_def snapshot_current Let_def)
  qed
qed

lemma run_gc_cycle_idempotent:
  assumes "inv s" "tx_room (current s)" "run_gc_cycle store s S = (r, s')"
  shows "run_gc_cycle store s' S = (Inr 0, s')"
proof -
  obtain t where t: "run_gc_cycle store s S = (Inr (length (filter (is_orphan S) (view s (current s)))), t)"
    "inv t" "view t (current t) = filter (\<lambda>t. \<not> is_orphan S t) (view s (current s))"
    by (rule run_gc_cycle_ok [OF assms(1,2), of S]) auto
  with assms(3) have "s' = t" by simp
  with t read_view [of t "Some (SnapshotToken (current t))" TupleFilter_default None] show ?thesis
    by (simp add: run_gc_cycle_def snapshot_current snapshot_value_def Let_def)
qed

end

section \<open>Properties of the collector\<close>

text \<open>
  C17. One cycle on the in-memory store removes from the current version exactly the tuples whose
  type or relation the schema does not have, reports how many, keeps every older version, and leaves
  nothing for a second cycle, which changes nothing.
\<close>

theorem gc_exact:
  assumes "mem_inv s" "tx_room (current_tx s)"
  shows "\<exists>s'. run_gc_cycle InMemoryStore s S = (Inr (length (filter (is_orphan S) (mem_view s (current_tx s)))), s') \<and>
    mem_inv s' \<and> mem_view s' (current_tx s') = filter (\<lambda>t. \<not> is_orphan S t) (mem_view s (current_tx s)) \<and>
    (\<forall>v\<le>current_tx s. mem_view s' v = mem_view s v) \<and> run_gc_cycle InMemoryStore s' S = (Inr 0, s')"
  by (rule mem.run_gc_cycle_ok [OF assms, of S])
    (use mem.run_gc_cycle_idempotent [OF assms, of S] in blast)

theorem gc_exact_witness:
  "\<exists>s'. run_gc_cycle InMemoryStore (mem_run [(demo_writes, [])] InMemoryStore_default) \<lparr>types = take 2 (types demo_schema)\<rparr> = (Inr 4, s') \<and>
    mem_view s' (current_tx s') = [demo_tuples ! 3]"
proof -
  let ?s = "mem_run [(demo_writes, [])] InMemoryStore_default" and ?S = "\<lparr>types = take 2 (types demo_schema)\<rparr>"
  have c: "current_tx ?s = 1" by code_simp
  have v: "mem_view ?s 1 = demo_tuples" by code_simp
  have l: "length (filter (is_orphan ?S) demo_tuples) = 4" by code_simp
  have r: "filter (\<lambda>t. \<not> is_orphan ?S t) demo_tuples = [demo_tuples ! 3]" by code_simp
  have "mem_inv ?s" using mem_run_step [of InMemoryStore_default "[(demo_writes, [])]"]
    by (simp add: InMemoryStore_default_def [THEN arg_cong [of _ _ current_tx]])
  then have "\<exists>s'. run_gc_cycle InMemoryStore ?s ?S = (Inr (length (filter (is_orphan ?S) (mem_view ?s (current_tx ?s)))), s') \<and>
    mem_inv s' \<and> mem_view s' (current_tx s') = filter (\<lambda>t. \<not> is_orphan ?S t) (mem_view ?s (current_tx ?s)) \<and>
    (\<forall>v\<le>current_tx ?s. mem_view s' v = mem_view ?s v) \<and> run_gc_cycle InMemoryStore s' ?S = (Inr 0, s')"
    by (rule gc_exact) (simp add: c tx_room_unat)
  then show ?thesis unfolding c v l r by blast
qed

end
