(* ===== verification/Check_Engine.thy ===== *)
theory Check_Engine
  imports Engine
begin

text \<open>
  \<open>kraalzibar-core/src/engine/check.rs\<close>: the permission check by recursive traversal. The three
  mutually recursive methods keep their names; the loops over children and tuples, which return at
  the first \<open>Ok(true)\<close>, \<open>Ok(false)\<close> or \<open>Err\<close>, are \<open>try_any\<close> and \<open>try_all\<close>. The recursion ends because
  the depth grows on every unfolding of a permission and is tested on entry.
\<close>

record CheckRequest =
  cr_object_type :: string
  cr_object_id :: string
  cr_permission :: string
  cr_subject_type :: string
  cr_subject_id :: string
  cr_snapshot :: "SnapshotToken option"

record CheckResult =
  allowed :: bool

record CheckContext =
  ctx_subject_type :: string
  ctx_subject_id :: string
  ctx_snapshot :: "SnapshotToken option"
  ctx_depth :: nat
  ctx_visited :: "VisitKey set"

record CheckEngine =
  ce_reader :: TupleReader
  ce_schema :: Schema
  ce_config :: EngineConfig

definition CheckEngine_new :: "TupleReader \<Rightarrow> Schema \<Rightarrow> EngineConfig \<Rightarrow> CheckEngine" where
  "CheckEngine_new r s c = \<lparr>ce_reader = r, ce_schema = s, ce_config = c\<rparr>"

text \<open>One round of the loop over the tuples of a relation in \<open>evaluate_this\<close>.\<close>

definition tuple_grants :: "CheckEngine \<Rightarrow> CheckContext \<Rightarrow> Tuple \<Rightarrow> CheckError + bool" where
  "tuple_grants e ctx tuple =
     (case subject_relation (tup_subject tuple) of
        None \<Rightarrow> Inr (subject_type (tup_subject tuple) = ctx_subject_type ctx \<and>
                    subject_id (tup_subject tuple) = ctx_subject_id ctx)
      | Some rel \<Rightarrow>
          and_then
            (ce_reader e
               (member_filter (subject_type (tup_subject tuple)) (subject_id (tup_subject tuple)) rel
                  (ctx_subject_type ctx) (ctx_subject_id ctx))
               (ctx_snapshot ctx))
            (\<lambda>userset_tuples. Inr (userset_tuples \<noteq> [])))"

function evaluate_rule ::
    "CheckEngine \<Rightarrow> RewriteRule \<Rightarrow> string \<Rightarrow> string \<Rightarrow> CheckContext \<Rightarrow> CheckError + bool"
  and evaluate_this ::
    "CheckEngine \<Rightarrow> string \<Rightarrow> string \<Rightarrow> string \<Rightarrow> CheckContext \<Rightarrow> CheckError + bool"
  and evaluate_arrow ::
    "CheckEngine \<Rightarrow> string \<Rightarrow> string \<Rightarrow> string \<Rightarrow> string \<Rightarrow> CheckContext \<Rightarrow> CheckError + bool"
where
  "evaluate_rule e rule ot oi ctx =
     (if ctx_depth ctx > max_depth (ce_config e) then Inl (MaxDepthExceeded (ctx_depth ctx))
      else case rule of
        RThis name \<Rightarrow> evaluate_this e name ot oi ctx
      | RUnion children \<Rightarrow> try_any (\<lambda>child. evaluate_rule e child ot oi ctx) children
      | RIntersection children \<Rightarrow> try_all (\<lambda>child. evaluate_rule e child ot oi ctx) children
      | RExclusion base excluded \<Rightarrow>
          and_then (evaluate_rule e base ot oi ctx) (\<lambda>base_result.
            if \<not> base_result then Inr False
            else and_then (evaluate_rule e excluded ot oi ctx) (\<lambda>excluded_result.
              Inr (\<not> excluded_result)))
      | RArrow tupleset_rel computed_perm \<Rightarrow>
          evaluate_arrow e tupleset_rel computed_perm ot oi ctx)"
| "evaluate_this e name ot oi ctx =
     (case get_type (ce_schema e) ot of
        None \<Rightarrow> Inl (TypeNotFound ot)
      | Some type_def \<Rightarrow>
          (case get_permission type_def name of
             Some perm_def \<Rightarrow>
               evaluate_rule e (perm_rule perm_def) ot oi
                 (ctx\<lparr>ctx_depth := ctx_depth ctx + 1\<rparr>)
           | None \<Rightarrow>
               if get_relation type_def name \<noteq> None then
                 and_then (ce_reader e (object_filter ot oi name) (ctx_snapshot ctx))
                   (\<lambda>tuples. try_any (tuple_grants e ctx) tuples)
               else Inl (RelationNotFound ot name)))"
| "evaluate_arrow e tupleset_rel computed_perm ot oi ctx =
     and_then (ce_reader e (object_filter ot oi tupleset_rel) (ctx_snapshot ctx))
       (\<lambda>tuples. try_any (\<lambda>tuple.
          let target_type = subject_type (tup_subject tuple);
              target_id = subject_id (tup_subject tuple);
              visit_key = (target_type, target_id, computed_perm)
          in if visit_key \<in> ctx_visited ctx then Inr False
             else case get_type (ce_schema e) target_type of
               None \<Rightarrow> Inl (TypeNotFound target_type)
             | Some target_type_def \<Rightarrow>
                 (case get_permission target_type_def computed_perm of
                    None \<Rightarrow> Inl (PermissionNotFound target_type computed_perm)
                  | Some perm_def \<Rightarrow>
                      evaluate_rule e (perm_rule perm_def) target_type target_id
                        (ctx\<lparr>ctx_depth := ctx_depth ctx + 1,
                            ctx_visited := insert visit_key (ctx_visited ctx)\<rparr>))) tuples)"
  by pat_completeness auto
termination
  by (relation "measures
      [case_sum (\<lambda>(e, rule, ot, oi, ctx). 2 * (max_depth (ce_config e) + 1 - ctx_depth ctx))
        (case_sum (\<lambda>(e, name, ot, oi, ctx). 2 * (max_depth (ce_config e) - ctx_depth ctx) + 1)
          (\<lambda>(e, ts, cp, ot, oi, ctx). 2 * (max_depth (ce_config e) - ctx_depth ctx) + 1)),
       case_sum (\<lambda>(e, rule, ot, oi, ctx). size rule) (\<lambda>_. 0)]")
    (auto simp: less_Suc_eq_le size_list_estimation')

declare evaluate_rule.simps [simp del] evaluate_this.simps [simp del] evaluate_arrow.simps [simp del]

definition check :: "CheckEngine \<Rightarrow> CheckRequest \<Rightarrow> CheckError + CheckResult" where
  "check e request =
     and_then (ok_or (get_type (ce_schema e) (cr_object_type request))
        (TypeNotFound (cr_object_type request))) (\<lambda>type_def.
     and_then (ok_or (get_permission type_def (cr_permission request))
        (PermissionNotFound (cr_object_type request) (cr_permission request))) (\<lambda>perm_def.
     and_then (evaluate_rule e (perm_rule perm_def) (cr_object_type request) (cr_object_id request)
        \<lparr>ctx_subject_type = cr_subject_type request, ctx_subject_id = cr_subject_id request,
         ctx_snapshot = cr_snapshot request, ctx_depth = 0, ctx_visited = {}\<rparr>) (\<lambda>b.
       Inr \<lparr>allowed = b\<rparr>)))"

text \<open>The body of the loop over the targets of an arrow, on its own.\<close>

definition evaluate_target :: "CheckEngine \<Rightarrow> string \<Rightarrow> CheckContext \<Rightarrow> Tuple \<Rightarrow> CheckError + bool" where
  "evaluate_target e computed_perm ctx tuple =
     (let target_type = subject_type (tup_subject tuple);
          target_id = subject_id (tup_subject tuple);
          visit_key = (target_type, target_id, computed_perm)
      in if visit_key \<in> ctx_visited ctx then Inr False
         else case get_type (ce_schema e) target_type of
           None \<Rightarrow> Inl (TypeNotFound target_type)
         | Some target_type_def \<Rightarrow>
             (case get_permission target_type_def computed_perm of
                None \<Rightarrow> Inl (PermissionNotFound target_type computed_perm)
              | Some perm_def \<Rightarrow>
                  evaluate_rule e (perm_rule perm_def) target_type target_id
                    (ctx\<lparr>ctx_depth := ctx_depth ctx + 1,
                        ctx_visited := insert visit_key (ctx_visited ctx)\<rparr>)))"

lemma evaluate_arrow_targets:
  "evaluate_arrow e ts cp ot oi ctx =
     and_then (ce_reader e (object_filter ot oi ts) (ctx_snapshot ctx)) (try_any (evaluate_target e cp ctx))"
  by (simp add: evaluate_arrow.simps evaluate_target_def [abs_def])

end
