(* ===== verification/Expand_Engine.thy ===== *)
theory Expand_Engine
  imports Engine
begin

text \<open>
  \<open>kraalzibar-core/src/engine/expand.rs\<close>: the expansion of a permission into a tree of subjects. It
  walks the same graph as the check but never stops early, so every child is expanded.
\<close>

record ExpandRequest =
  er_object_type :: string
  er_object_id :: string
  er_permission :: string
  er_snapshot :: "SnapshotToken option"

datatype ExpandTree =
    TLeaf SubjectRef
  | TThis string "ExpandTree list"
  | TUnion "ExpandTree list"
  | TIntersection "ExpandTree list"
  | TExclusion ExpandTree ExpandTree
  | TArrow string string "ExpandTree list"

record ExpandContext =
  ec_snapshot :: "SnapshotToken option"
  ec_depth :: nat
  ec_visited :: "VisitKey set"

record ExpandEngine =
  ee_reader :: TupleReader
  ee_schema :: Schema
  ee_config :: EngineConfig

definition ExpandEngine_new :: "TupleReader \<Rightarrow> Schema \<Rightarrow> EngineConfig \<Rightarrow> ExpandEngine" where
  "ExpandEngine_new r s c = \<lparr>ee_reader = r, ee_schema = s, ee_config = c\<rparr>"

text \<open>One round of the loop over the tuples of a relation in \<open>expand_this\<close>.\<close>

definition tuple_leaves :: "ExpandEngine \<Rightarrow> ExpandContext \<Rightarrow> Tuple \<Rightarrow> CheckError + ExpandTree list" where
  "tuple_leaves e ctx tuple =
     (case subject_relation (tup_subject tuple) of
        Some rel \<Rightarrow>
          and_then
            (ee_reader e
               (object_filter (subject_type (tup_subject tuple)) (subject_id (tup_subject tuple)) rel)
               (ec_snapshot ctx))
            (\<lambda>userset_tuples. Inr (map (\<lambda>ut. TLeaf (tup_subject ut)) userset_tuples))
      | None \<Rightarrow> Inr [TLeaf (tup_subject tuple)])"

function expand_rule ::
    "ExpandEngine \<Rightarrow> RewriteRule \<Rightarrow> string \<Rightarrow> string \<Rightarrow> ExpandContext \<Rightarrow> CheckError + ExpandTree"
  and expand_this ::
    "ExpandEngine \<Rightarrow> string \<Rightarrow> string \<Rightarrow> string \<Rightarrow> ExpandContext \<Rightarrow> CheckError + ExpandTree"
  and expand_arrow ::
    "ExpandEngine \<Rightarrow> string \<Rightarrow> string \<Rightarrow> string \<Rightarrow> string \<Rightarrow> ExpandContext \<Rightarrow> CheckError + ExpandTree"
where
  "expand_rule e rule ot oi ctx =
     (if ec_depth ctx > max_depth (ee_config e) then Inl (MaxDepthExceeded (ec_depth ctx))
      else case rule of
        RThis name \<Rightarrow> expand_this e name ot oi ctx
      | RUnion children \<Rightarrow>
          and_then (try_map (\<lambda>child. expand_rule e child ot oi ctx) children) (\<lambda>expanded.
            Inr (TUnion expanded))
      | RIntersection children \<Rightarrow>
          and_then (try_map (\<lambda>child. expand_rule e child ot oi ctx) children) (\<lambda>expanded.
            Inr (TIntersection expanded))
      | RExclusion base excluded \<Rightarrow>
          and_then (expand_rule e base ot oi ctx) (\<lambda>base_tree.
          and_then (expand_rule e excluded ot oi ctx) (\<lambda>excluded_tree.
            Inr (TExclusion base_tree excluded_tree)))
      | RArrow tupleset_rel computed_perm \<Rightarrow> expand_arrow e tupleset_rel computed_perm ot oi ctx)"
| "expand_this e name ot oi ctx =
     (case get_type (ee_schema e) ot of
        None \<Rightarrow> Inl (TypeNotFound ot)
      | Some type_def \<Rightarrow>
          (case get_permission type_def name of
             Some perm_def \<Rightarrow>
               expand_rule e (perm_rule perm_def) ot oi
                 \<lparr>ec_snapshot = ec_snapshot ctx, ec_depth = ec_depth ctx + 1, ec_visited = ec_visited ctx\<rparr>
           | None \<Rightarrow>
               if get_relation type_def name \<noteq> None then
                 and_then (ee_reader e (object_filter ot oi name) (ec_snapshot ctx)) (\<lambda>tuples.
                 and_then (try_concat_map (tuple_leaves e ctx) tuples) (\<lambda>subjects.
                   Inr (TThis name subjects)))
               else Inl (RelationNotFound ot name)))"
| "expand_arrow e tupleset_rel computed_perm ot oi ctx =
     and_then (ee_reader e (object_filter ot oi tupleset_rel) (ec_snapshot ctx)) (\<lambda>tuples.
     and_then (try_concat_map (\<lambda>tuple.
          let target_type = subject_type (tup_subject tuple);
              target_id = subject_id (tup_subject tuple);
              visit_key = (target_type, target_id, computed_perm)
          in if visit_key \<in> ec_visited ctx then Inr []
             else case get_type (ee_schema e) target_type of
               None \<Rightarrow> Inl (TypeNotFound target_type)
             | Some target_type_def \<Rightarrow>
                 (case get_permission target_type_def computed_perm of
                    None \<Rightarrow> Inl (PermissionNotFound target_type computed_perm)
                  | Some perm_def \<Rightarrow>
                      and_then (expand_rule e (perm_rule perm_def) target_type target_id
                        \<lparr>ec_snapshot = ec_snapshot ctx, ec_depth = ec_depth ctx + 1,
                         ec_visited = insert visit_key (ec_visited ctx)\<rparr>) (\<lambda>child_tree. Inr [child_tree]))) tuples)
       (\<lambda>children. Inr (TArrow tupleset_rel computed_perm children)))"
  by pat_completeness auto
termination
  by (relation "measures
      [case_sum (\<lambda>(e, rule, ot, oi, ctx). 2 * (max_depth (ee_config e) + 1 - ec_depth ctx))
        (case_sum (\<lambda>(e, name, ot, oi, ctx). 2 * (max_depth (ee_config e) - ec_depth ctx) + 1)
          (\<lambda>(e, ts, cp, ot, oi, ctx). 2 * (max_depth (ee_config e) - ec_depth ctx) + 1)),
       case_sum (\<lambda>(e, rule, ot, oi, ctx). size rule) (\<lambda>_. 0)]")
    (auto simp: less_Suc_eq_le size_list_estimation')

declare expand_rule.simps [simp del] expand_this.simps [simp del] expand_arrow.simps [simp del]

definition expand :: "ExpandEngine \<Rightarrow> ExpandRequest \<Rightarrow> CheckError + ExpandTree" where
  "expand e request =
     and_then (ok_or (get_type (ee_schema e) (er_object_type request))
        (TypeNotFound (er_object_type request))) (\<lambda>type_def.
     and_then (ok_or (get_permission type_def (er_permission request))
        (PermissionNotFound (er_object_type request) (er_permission request))) (\<lambda>perm_def.
     expand_rule e (perm_rule perm_def) (er_object_type request) (er_object_id request)
       \<lparr>ec_snapshot = er_snapshot request, ec_depth = 0, ec_visited = {}\<rparr>))"

text \<open>The body of the loop over the targets of an arrow, on its own.\<close>

definition expand_target :: "ExpandEngine \<Rightarrow> string \<Rightarrow> ExpandContext \<Rightarrow> Tuple \<Rightarrow> CheckError + ExpandTree list" where
  "expand_target e computed_perm ctx tuple =
     (let target_type = subject_type (tup_subject tuple);
          target_id = subject_id (tup_subject tuple);
          visit_key = (target_type, target_id, computed_perm)
      in if visit_key \<in> ec_visited ctx then Inr []
         else case get_type (ee_schema e) target_type of
           None \<Rightarrow> Inl (TypeNotFound target_type)
         | Some target_type_def \<Rightarrow>
             (case get_permission target_type_def computed_perm of
                None \<Rightarrow> Inl (PermissionNotFound target_type computed_perm)
              | Some perm_def \<Rightarrow>
                  and_then (expand_rule e (perm_rule perm_def) target_type target_id
                    \<lparr>ec_snapshot = ec_snapshot ctx, ec_depth = ec_depth ctx + 1,
                     ec_visited = insert visit_key (ec_visited ctx)\<rparr>) (\<lambda>child_tree. Inr [child_tree])))"

lemma expand_arrow_targets:
  "expand_arrow e ts cp ot oi ctx =
     and_then (ee_reader e (object_filter ot oi ts) (ec_snapshot ctx)) (\<lambda>tuples.
     and_then (try_concat_map (expand_target e cp ctx) tuples) (\<lambda>children. Inr (TArrow ts cp children)))"
  by (simp add: expand_arrow.simps expand_target_def [abs_def])

section \<open>The subjects of a tree\<close>

text \<open>
  \<open>collect_subjects\<close> of \<open>kraalzibar-server/src/service.rs\<close>, which reads the tree for
  \<open>lookup_subjects\<close>: the subjects it pushes, in order.
\<close>

fun collect_subjects :: "ExpandTree \<Rightarrow> string \<Rightarrow> SubjectRef list" where
  "collect_subjects (TLeaf s) st = (if subject_type s = st then [s] else [])"
| "collect_subjects (TThis r subjects) st = concat (map (\<lambda>child. collect_subjects child st) subjects)"
| "collect_subjects (TUnion children) st = concat (map (\<lambda>child. collect_subjects child st) children)"
| "collect_subjects (TIntersection children) st = concat (map (\<lambda>child. collect_subjects child st) children)"
| "collect_subjects (TExclusion base excluded) st = collect_subjects base st"
| "collect_subjects (TArrow tr cp children) st = concat (map (\<lambda>child. collect_subjects child st) children)"

text \<open>What a tree means: the direct subjects it grants, read as a set expression.\<close>

fun tree_grants :: "ExpandTree \<Rightarrow> string \<Rightarrow> string \<Rightarrow> bool" where
  "tree_grants (TLeaf s) st si = (s = direct st si)"
| "tree_grants (TThis r subjects) st si = (\<exists>c\<in>set subjects. tree_grants c st si)"
| "tree_grants (TUnion children) st si = (\<exists>c\<in>set children. tree_grants c st si)"
| "tree_grants (TIntersection children) st si = (\<forall>c\<in>set children. tree_grants c st si)"
| "tree_grants (TExclusion base excluded) st si = (tree_grants base st si \<and> \<not> tree_grants excluded st si)"
| "tree_grants (TArrow tr cp children) st si = (\<exists>c\<in>set children. tree_grants c st si)"

text \<open>Trees without an empty intersection; every tree of a parsed schema is one.\<close>

fun inhabited :: "ExpandTree \<Rightarrow> bool" where
  "inhabited (TLeaf s) = True"
| "inhabited (TThis r subjects) = list_all inhabited subjects"
| "inhabited (TUnion children) = list_all inhabited children"
| "inhabited (TIntersection children) = (children \<noteq> [] \<and> list_all inhabited children)"
| "inhabited (TExclusion base excluded) = inhabited base"
| "inhabited (TArrow tr cp children) = list_all inhabited children"

lemma collect_subjects_type: "s \<in> set (collect_subjects t st) \<Longrightarrow> subject_type s = st"
  by (induction t) (auto split: if_splits)

text \<open>The collected subjects include everyone the tree grants.\<close>

lemma tree_grants_collected:
  "inhabited t \<Longrightarrow> tree_grants t st si \<Longrightarrow> direct st si \<in> set (collect_subjects t st)"
proof (induction t)
  case (TIntersection children)
  then obtain c where "c \<in> set children" "inhabited c" "tree_grants c st si"
    by (cases children) auto
  with TIntersection.IH show ?case by auto
qed (auto simp: list_all_iff)

text \<open>Without intersection and exclusion they are exactly the subjects it grants.\<close>

fun monotone_tree :: "ExpandTree \<Rightarrow> bool" where
  "monotone_tree (TLeaf s) = True"
| "monotone_tree (TThis r subjects) = list_all monotone_tree subjects"
| "monotone_tree (TUnion children) = list_all monotone_tree children"
| "monotone_tree (TIntersection children) = False"
| "monotone_tree (TExclusion base excluded) = False"
| "monotone_tree (TArrow tr cp children) = list_all monotone_tree children"

lemma collected_iff_grants:
  "monotone_tree t \<Longrightarrow> direct st si \<in> set (collect_subjects t st) \<longleftrightarrow> tree_grants t st si"
  by (induction t) (auto simp: list_all_iff)

end
