(* ===== verification/Engine_Agreement.thy ===== *)
theory Engine_Agreement
  imports Check_Engine Expand_Engine
begin

text \<open>
  The two engines agree: where the expansion of a permission succeeds, the check of any direct
  subject succeeds too and answers whether the tree grants it. Both engines carry the same depth and
  visited set, so the statement is proved for every pair of corresponding contexts by the recursion
  of the check, over the contract of the reader.
\<close>

definition expand_engine_of :: "CheckEngine \<Rightarrow> ExpandEngine" where
  "expand_engine_of e = ExpandEngine_new (ce_reader e) (ce_schema e) (ce_config e)"

definition expand_context_of :: "CheckContext \<Rightarrow> ExpandContext" where
  "expand_context_of ctx =
     \<lparr>ec_snapshot = ctx_snapshot ctx, ec_depth = ctx_depth ctx, ec_visited = ctx_visited ctx\<rparr>"

lemma expand_engine_of_sel [simp]:
  "ee_reader (expand_engine_of e) = ce_reader e" "ee_schema (expand_engine_of e) = ce_schema e"
  "ee_config (expand_engine_of e) = ce_config e"
  by (simp_all add: expand_engine_of_def ExpandEngine_new_def)

lemma expand_context_of_sel [simp]:
  "ec_snapshot (expand_context_of ctx) = ctx_snapshot ctx"
  "ec_depth (expand_context_of ctx) = ctx_depth ctx"
  "ec_visited (expand_context_of ctx) = ctx_visited ctx"
  by (simp_all add: expand_context_of_def)

abbreviation subject_granted :: "ExpandTree \<Rightarrow> CheckContext \<Rightarrow> bool" where
  "subject_granted t ctx \<equiv> tree_grants t (ctx_subject_type ctx) (ctx_subject_id ctx)"

lemma expand_context_of_step [simp]:
  "expand_context_of (ctx\<lparr>ctx_depth := d\<rparr>) =
     \<lparr>ec_snapshot = ctx_snapshot ctx, ec_depth = d, ec_visited = ctx_visited ctx\<rparr>"
  "expand_context_of (ctx\<lparr>ctx_depth := d, ctx_visited := v\<rparr>) =
     \<lparr>ec_snapshot = ctx_snapshot ctx, ec_depth = d, ec_visited = v\<rparr>"
  by (simp_all add: expand_context_of_def)

context tuple_reader
begin

lemma tuple_grants_leaves:
  assumes "ce_reader e = read_tuples"
    and "tuple_leaves (expand_engine_of e) (expand_context_of ctx) t = Inr ls"
  shows "tuple_grants e ctx t = Inr (\<exists>l\<in>set ls. subject_granted l ctx)"
proof (cases "subject_relation (tup_subject t)")
  case None
  with assms(2) show ?thesis
    by (auto simp: tuple_leaves_def tuple_grants_def SubjectRef_expand)
next
  case (Some rel)
  with assms have r: "readable (ctx_snapshot ctx)"
    and ls: "ls = map (\<lambda>ut. TLeaf (tup_subject ut)) (filter (matches (object_filter
      (subject_type (tup_subject t)) (subject_id (tup_subject t)) rel)) (tuples_at (ctx_snapshot ctx)))"
    by (auto simp: tuple_leaves_def result_simps read_Inr)
  from Some assms(1) r ls show ?thesis
    by (auto simp: tuple_grants_def read_ok matches_member_filter matches_object_filter
        filter_empty_conv tuple_eq_iff)
qed

lemma engines_agree:
  "ce_reader e = read_tuples \<Longrightarrow>
     expand_rule (expand_engine_of e) rule ot oi (expand_context_of ctx) = Inr tree \<Longrightarrow>
     evaluate_rule e rule ot oi ctx = Inr (subject_granted tree ctx)"
  "ce_reader e = read_tuples \<Longrightarrow>
     expand_this (expand_engine_of e) name ot oi (expand_context_of ctx) = Inr tree \<Longrightarrow>
     evaluate_this e name ot oi ctx = Inr (subject_granted tree ctx)"
  "ce_reader e = read_tuples \<Longrightarrow>
     expand_arrow (expand_engine_of e) ts cp ot oi (expand_context_of ctx) = Inr tree \<Longrightarrow>
     evaluate_arrow e ts cp ot oi ctx = Inr (subject_granted tree ctx)"
proof (induction e rule ot oi ctx and e name ot oi ctx and e ts cp ot oi ctx
    arbitrary: tree and tree and tree rule: evaluate_rule_evaluate_this_evaluate_arrow.induct)
  case (1 e rule ot oi ctx)
  have d: "\<not> ctx_depth ctx > max_depth (ce_config e)"
    using "1.prems" by (auto simp: expand_rule.simps)
  show ?case
  proof (cases rule)
    case (RThis name)
    with "1.IH"(1) [OF d RThis "1.prems"(1)] "1.prems" d show ?thesis
      by (simp add: expand_rule.simps evaluate_rule.simps)
  next
    case (RUnion cs)
    with "1.prems" d obtain ts where t: "tree = TUnion ts"
      and ts: "list_all2 (\<lambda>c t. expand_rule (expand_engine_of e) c ot oi (expand_context_of ctx) = Inr t) cs ts"
      by (auto simp: expand_rule.simps [of _ "RUnion cs"] result_simps dest!: try_map_Inr)
    from ts have "list_all2 (\<lambda>c t. evaluate_rule e c ot oi ctx = Inr (subject_granted t ctx)) cs ts"
      by (rule list_all2_weaken) (rule "1.IH"(2) [OF d RUnion _ "1.prems"(1)])
    with RUnion d t show ?thesis by (simp add: evaluate_rule.simps [of e "RUnion cs"] try_any_list_all2)
  next
    case (RIntersection cs)
    with "1.prems" d obtain ts where t: "tree = TIntersection ts"
      and ts: "list_all2 (\<lambda>c t. expand_rule (expand_engine_of e) c ot oi (expand_context_of ctx) = Inr t) cs ts"
      by (auto simp: expand_rule.simps [of _ "RIntersection cs"] result_simps dest!: try_map_Inr)
    from ts have "list_all2 (\<lambda>c t. evaluate_rule e c ot oi ctx = Inr (subject_granted t ctx)) cs ts"
      by (rule list_all2_weaken) (rule "1.IH"(3) [OF d RIntersection _ "1.prems"(1)])
    with RIntersection d t show ?thesis
      by (simp add: evaluate_rule.simps [of e "RIntersection cs"] try_all_list_all2)
  next
    case (RExclusion a b)
    with "1.prems" d obtain ta tb where t: "tree = TExclusion ta tb"
      and a: "expand_rule (expand_engine_of e) a ot oi (expand_context_of ctx) = Inr ta"
      and b: "expand_rule (expand_engine_of e) b ot oi (expand_context_of ctx) = Inr tb"
      by (auto simp: expand_rule.simps [of _ "RExclusion a b"] result_simps)
    have ea: "evaluate_rule e a ot oi ctx = Inr (subject_granted ta ctx)"
      by (rule "1.IH"(4) [OF d RExclusion "1.prems"(1) a])
    show ?thesis
    proof (cases "subject_granted ta ctx")
      case True
      with ea have "evaluate_rule e b ot oi ctx = Inr (subject_granted tb ctx)"
        by (intro "1.IH"(5) [OF d RExclusion ea _ "1.prems"(1) b]) simp
      with ea True RExclusion d t show ?thesis by (simp add: evaluate_rule.simps [of e "RExclusion a b"])
    next
      case False
      with ea RExclusion d t show ?thesis by (simp add: evaluate_rule.simps [of e "RExclusion a b"])
    qed
  next
    case (RArrow ts cp)
    with "1.IH"(6) [OF d RArrow "1.prems"(1)] "1.prems" d show ?thesis
      by (simp add: expand_rule.simps evaluate_rule.simps)
  qed
next
  case (2 e name ot oi ctx)
  from "2.prems" obtain td where td: "get_type (ce_schema e) ot = Some td"
    by (auto simp: expand_this.simps split: option.splits)
  show ?case
  proof (cases "get_permission td name")
    case (Some pd)
    with "2.IH" [OF td Some "2.prems"(1)] "2.prems"(2) td show ?thesis
      by (simp add: expand_this.simps evaluate_this.simps)
  next
    case None
    with "2.prems" td obtain tuples yss where rel: "get_relation td name \<noteq> None"
      and r: "read_tuples (object_filter ot oi name) (ctx_snapshot ctx) = Inr tuples"
      and y: "list_all2 (\<lambda>t ls. tuple_leaves (expand_engine_of e) (expand_context_of ctx) t = Inr ls) tuples yss"
      and t: "tree = TThis name (concat yss)"
      by (auto simp: expand_this.simps result_simps split: if_splits elim!: try_concat_map_Inr)
    from y have "list_all2 (\<lambda>t ls. tuple_grants e ctx t = Inr (\<exists>l\<in>set ls. subject_granted l ctx)) tuples yss"
      by (rule list_all2_weaken) (rule tuple_grants_leaves [OF "2.prems"(1)])
    with td None rel r t "2.prems"(1) show ?thesis
      by (auto simp: evaluate_this.simps dest!: try_any_concat)
  qed
next
  case (3 e ts cp ot oi ctx)
  from "3.prems" obtain tuples yss where
      r: "ce_reader e (object_filter ot oi ts) (ctx_snapshot ctx) = Inr tuples"
    and y: "list_all2 (\<lambda>t ys. expand_target (expand_engine_of e) cp (expand_context_of ctx) t = Inr ys) tuples yss"
    and t: "tree = TArrow ts cp (concat yss)"
    by (auto simp: expand_arrow_targets result_simps elim!: try_concat_map_Inr)
  have "list_all2 (\<lambda>t ys. evaluate_target e cp ctx t = Inr (\<exists>y\<in>set ys. subject_granted y ctx)) tuples yss"
    using y
  proof (rule list_all2_weaken)
    fix tuple :: Tuple and ys
    let ?ty = "subject_type (tup_subject tuple)" and ?id = "subject_id (tup_subject tuple)"
    assume tuple: "tuple \<in> set tuples"
      and ys: "expand_target (expand_engine_of e) cp (expand_context_of ctx) tuple = Inr ys"
    show "evaluate_target e cp ctx tuple = Inr (\<exists>y\<in>set ys. subject_granted y ctx)"
    proof (cases "(?ty, ?id, cp) \<in> ctx_visited ctx")
      case True
      with ys show ?thesis by (simp add: expand_target_def evaluate_target_def)
    next
      case False
      with ys obtain td pd tr where td: "get_type (ce_schema e) ?ty = Some td"
        and pd: "get_permission td cp = Some pd" and y1: "ys = [tr]"
        and tr: "expand_rule (expand_engine_of e) (perm_rule pd) ?ty ?id (expand_context_of
          (ctx\<lparr>ctx_depth := ctx_depth ctx + 1, ctx_visited := insert (?ty, ?id, cp) (ctx_visited ctx)\<rparr>)) = Inr tr"
        by (auto simp: expand_target_def Let_def result_simps split: option.splits)
      from "3.IH" [OF r tuple refl refl refl False td pd "3.prems"(1) tr] False td pd y1
      show ?thesis by (simp add: evaluate_target_def Let_def)
    qed
  qed
  then show ?case
    using r t by (simp add: evaluate_arrow_targets try_any_concat)
qed

lemma check_of_expand:
  assumes e: "ce_reader e = read_tuples"
    and x: "expand (expand_engine_of e) \<lparr>er_object_type = cr_object_type req, er_object_id = cr_object_id req,
      er_permission = cr_permission req, er_snapshot = cr_snapshot req\<rparr> = Inr tree"
  shows "check e req = Inr \<lparr>allowed = tree_grants tree (cr_subject_type req) (cr_subject_id req)\<rparr>"
proof -
  let ?c = "\<lparr>ctx_subject_type = cr_subject_type req, ctx_subject_id = cr_subject_id req,
         ctx_snapshot = cr_snapshot req, ctx_depth = 0, ctx_visited = {}\<rparr>"
  from x obtain td pd where td: "get_type (ce_schema e) (cr_object_type req) = Some td"
      "get_permission td (cr_permission req) = Some pd"
    and t: "expand_rule (expand_engine_of e) (perm_rule pd) (cr_object_type req) (cr_object_id req)
      (expand_context_of ?c) = Inr tree"
    by (auto simp: expand_def result_simps expand_context_of_def)
  from engines_agree(1) [OF e t] td show ?thesis by (simp add: check_def)
qed

end

end
