(* ===== verification/Engine_Semantics.thy ===== *)
theory Engine_Semantics
  imports Engine_Agreement
begin

text \<open>
  What a check means. \<open>granted\<close> is the reading of a schema over a set of tuples, as a least fixed
  point: a subject holds a relation through a direct tuple or one userset tuple, a permission through
  its rule, an arrow through the permission on a target object. The check's answer is that reading,
  for every schema whose exclusions subtract a stored relation; the depth limit can only replace an
  answer by an error, and a larger limit keeps every answer. The visited set, which cuts cycles of
  arrows, does not change answers: a shortest derivation never repeats a target.
\<close>

section \<open>Specification\<close>

definition permission_rule :: "Schema \<Rightarrow> string \<Rightarrow> string \<Rightarrow> RewriteRule option" where
  "permission_rule S ot n =
     (case get_type S ot of None \<Rightarrow> None | Some td \<Rightarrow> map_option perm_rule (get_permission td n))"

definition plain_relation :: "Schema \<Rightarrow> string \<Rightarrow> string \<Rightarrow> bool" where
  "plain_relation S ot n =
     (case get_type S ot of None \<Rightarrow> False
      | Some td \<Rightarrow> get_permission td n = None \<and> get_relation td n \<noteq> None)"

definition member :: "Tuple set \<Rightarrow> string \<Rightarrow> string \<Rightarrow> string \<Rightarrow> string \<Rightarrow> string \<Rightarrow> bool" where
  "member T ot oi rel st si \<longleftrightarrow>
     Tuple_new (ObjectRef_new ot oi) rel (direct st si) \<in> T \<or>
     (\<exists>ut ui ur. Tuple_new (ObjectRef_new ot oi) rel (userset ut ui ur) \<in> T \<and>
        Tuple_new (ObjectRef_new ut ui) ur (direct st si) \<in> T)"

inductive granted :: "Schema \<Rightarrow> Tuple set \<Rightarrow> string \<Rightarrow> string \<Rightarrow> RewriteRule \<Rightarrow> string \<Rightarrow> string \<Rightarrow> bool"
  for S T st si
where
  computed: "permission_rule S ot n = Some r \<Longrightarrow> granted S T st si r ot oi \<Longrightarrow>
     granted S T st si (RThis n) ot oi"
| stored: "plain_relation S ot n \<Longrightarrow> member T ot oi n st si \<Longrightarrow> granted S T st si (RThis n) ot oi"
| union: "c \<in> set cs \<Longrightarrow> granted S T st si c ot oi \<Longrightarrow> granted S T st si (RUnion cs) ot oi"
| intersection: "(\<And>c. c \<in> set cs \<Longrightarrow> granted S T st si c ot oi) \<Longrightarrow>
     granted S T st si (RIntersection cs) ot oi"
| exclusion: "granted S T st si a ot oi \<Longrightarrow> plain_relation S ot n \<Longrightarrow> \<not> member T ot oi n st si \<Longrightarrow>
     granted S T st si (RExclusion a (RThis n)) ot oi"
| arrow: "t \<in> T \<Longrightarrow> tup_object t = ObjectRef_new ot oi \<Longrightarrow> tup_relation t = ts \<Longrightarrow>
     permission_rule S (subject_type (tup_subject t)) cp = Some r \<Longrightarrow>
     granted S T st si r (subject_type (tup_subject t)) (subject_id (tup_subject t)) \<Longrightarrow>
     granted S T st si (RArrow ts cp) ot oi"

text \<open>Exclusions subtract a stored relation of the type they occur in.\<close>

fun plain_exclusion_rule :: "Schema \<Rightarrow> string \<Rightarrow> RewriteRule \<Rightarrow> bool" where
  "plain_exclusion_rule S ot (RThis n) = True"
| "plain_exclusion_rule S ot (RUnion cs) = (\<forall>c\<in>set cs. plain_exclusion_rule S ot c)"
| "plain_exclusion_rule S ot (RIntersection cs) = (\<forall>c\<in>set cs. plain_exclusion_rule S ot c)"
| "plain_exclusion_rule S ot (RExclusion a b) =
     (plain_exclusion_rule S ot a \<and> (case b of RThis n \<Rightarrow> plain_relation S ot n | _ \<Rightarrow> False))"
| "plain_exclusion_rule S ot (RArrow ts cp) = True"

definition plain_exclusions :: "Schema \<Rightarrow> bool" where
  "plain_exclusions S =
     list_all (\<lambda>td. list_all (\<lambda>p. plain_exclusion_rule S (type_name td) (perm_rule p)) (permissions td)) (types S)"

lemma plain_exclusionsD:
  "plain_exclusions S \<Longrightarrow> permission_rule S ot n = Some r \<Longrightarrow> plain_exclusion_rule S ot r"
  by (auto simp: plain_exclusions_def permission_rule_def list_all_iff split: option.splits
      dest!: get_type_Some get_permission_Some)

section \<open>Derivations by number of unfolded permissions\<close>

function granted_in ::
  "nat \<Rightarrow> Schema \<Rightarrow> Tuple set \<Rightarrow> string \<Rightarrow> string \<Rightarrow> RewriteRule \<Rightarrow> string \<Rightarrow> string \<Rightarrow> bool"
where
  "granted_in n S T st si (RThis nm) ot oi =
     (case permission_rule S ot nm of
        Some r \<Rightarrow> if n = 0 then False else granted_in (n - 1) S T st si r ot oi
      | None \<Rightarrow> plain_relation S ot nm \<and> member T ot oi nm st si)"
| "granted_in n S T st si (RUnion cs) ot oi = (\<exists>c\<in>set cs. granted_in n S T st si c ot oi)"
| "granted_in n S T st si (RIntersection cs) ot oi = (\<forall>c\<in>set cs. granted_in n S T st si c ot oi)"
| "granted_in n S T st si (RExclusion a b) ot oi =
     (granted_in n S T st si a ot oi \<and>
      (case b of RThis nm \<Rightarrow> plain_relation S ot nm \<and> \<not> member T ot oi nm st si | _ \<Rightarrow> False))"
| "granted_in n S T st si (RArrow ts cp) ot oi =
     (if n = 0 then False else (\<exists>t\<in>T. tup_object t = ObjectRef_new ot oi \<and> tup_relation t = ts \<and>
        (case permission_rule S (subject_type (tup_subject t)) cp of
           Some r \<Rightarrow> granted_in (n - 1) S T st si r (subject_type (tup_subject t)) (subject_id (tup_subject t))
         | None \<Rightarrow> False)))"
  by pat_completeness auto
termination
  by (relation "measures [\<lambda>(n, S, T, st, si, r, ot, oi). n, \<lambda>(n, S, T, st, si, r, ot, oi). size r]")
    (auto simp: less_Suc_eq_le size_list_estimation')

lemma plain_relation_no_permission: "plain_relation S ot n \<Longrightarrow> permission_rule S ot n = None"
  by (auto simp: plain_relation_def permission_rule_def split: option.splits)

lemma granted_in_this:
  "granted_in n S T st si (RThis nm) ot oi \<longleftrightarrow>
     (\<exists>r m. permission_rule S ot nm = Some r \<and> n = Suc m \<and> granted_in m S T st si r ot oi) \<or>
     (plain_relation S ot nm \<and> member T ot oi nm st si)"
  by (cases n) (auto simp: plain_relation_no_permission split: option.splits)

lemma granted_in_arrow:
  "granted_in n S T st si (RArrow ts cp) ot oi \<longleftrightarrow>
     (\<exists>t r m. t \<in> T \<and> tup_object t = ObjectRef_new ot oi \<and> tup_relation t = ts \<and>
        permission_rule S (subject_type (tup_subject t)) cp = Some r \<and> n = Suc m \<and>
        granted_in m S T st si r (subject_type (tup_subject t)) (subject_id (tup_subject t)))"
proof (cases n)
  case (Suc m)
  have "(case permission_rule S (subject_type (tup_subject t)) cp of
           Some r \<Rightarrow> granted_in m S T st si r (subject_type (tup_subject t)) (subject_id (tup_subject t))
         | None \<Rightarrow> False) \<longleftrightarrow>
      (\<exists>r. permission_rule S (subject_type (tup_subject t)) cp = Some r \<and>
         granted_in m S T st si r (subject_type (tup_subject t)) (subject_id (tup_subject t)))" for t :: Tuple
    by (simp split: option.splits)
  with Suc show ?thesis by (auto cong: option.case_cong)
qed simp

declare granted_in.simps(1,5) [simp del]

lemma granted_in_Suc: "granted_in n S T st si r ot oi \<Longrightarrow> granted_in (Suc n) S T st si r ot oi"
proof (induction n S T st si r ot oi rule: granted_in.induct)
  case (1 n S T st si nm ot oi)
  then show ?case unfolding granted_in_this by auto
next
  case (5 n S T st si ts cp ot oi)
  then obtain t r m where t: "t \<in> T" "tup_object t = ObjectRef_new ot oi" "tup_relation t = ts"
    and r: "permission_rule S (subject_type (tup_subject t)) cp = Some r" and n: "n = Suc m"
    and g: "granted_in m S T st si r (subject_type (tup_subject t)) (subject_id (tup_subject t))"
    unfolding granted_in_arrow by blast
  from n have n0: "n \<noteq> 0" and n1: "n - 1 = m" by simp_all
  have "granted_in (Suc (n - 1)) S T st si r (subject_type (tup_subject t)) (subject_id (tup_subject t))"
    by (rule "5.IH" [OF n0 t(1) r]) (simp only: n1 g)
  with t r n show ?case unfolding granted_in_arrow by auto
qed auto

lemma granted_in_mono:
  "n \<le> m \<Longrightarrow> granted_in n S T st si r ot oi \<Longrightarrow> granted_in m S T st si r ot oi"
  by (induction rule: dec_induct) (auto intro: granted_in_Suc)

lemma granted_in_granted: "granted_in n S T st si r ot oi \<Longrightarrow> granted S T st si r ot oi"
proof (induction n S T st si r ot oi rule: granted_in.induct)
  case (1 n S T st si nm ot oi)
  then show ?case unfolding granted_in_this by (auto intro: computed stored)
next
  case (5 n S T st si ts cp ot oi)
  from "5.prems" obtain t r m where t: "t \<in> T" "tup_object t = ObjectRef_new ot oi" "tup_relation t = ts"
    and r: "permission_rule S (subject_type (tup_subject t)) cp = Some r" and n: "n = Suc m"
    and g: "granted_in m S T st si r (subject_type (tup_subject t)) (subject_id (tup_subject t))"
    unfolding granted_in_arrow by blast
  from "5.IH" [OF _ t(1) r] n g show ?case by (intro arrow [OF t r]) simp
qed (auto intro: granted.intros split: RewriteRule.splits)

lemma granted_granted_in: "granted S T st si r ot oi \<Longrightarrow> \<exists>n. granted_in n S T st si r ot oi"
proof (induction rule: granted.induct)
  case (computed ot n r oi)
  then obtain k where "granted_in k S T st si r ot oi" by blast
  with computed.hyps(1) show ?case by (intro exI [of _ "Suc k"]) (simp add: granted_in_this)
next
  case (intersection cs ot oi)
  then obtain k where k: "\<And>c. c \<in> set cs \<Longrightarrow> granted_in (k c) S T st si c ot oi" by metis
  have "granted_in (Max (insert 0 (k ` set cs))) S T st si c ot oi" if "c \<in> set cs" for c
    by (rule granted_in_mono [OF _ k [OF that]]) (use that in auto)
  then show ?case by (intro exI [of _ "Max (insert 0 (k ` set cs))"]) simp
next
  case (arrow t ot oi ts cp r)
  then obtain k where "granted_in k S T st si r (subject_type (tup_subject t)) (subject_id (tup_subject t))"
    by blast
  with arrow.hyps show ?case by (intro exI [of _ "Suc k"]) (auto simp: granted_in_arrow)
qed (auto simp: granted_in_this)

lemma granted_iff: "granted S T st si r ot oi \<longleftrightarrow> (\<exists>n. granted_in n S T st si r ot oi)"
  by (blast intro: granted_in_granted dest: granted_granted_in)

section \<open>The check computes the specification\<close>

abbreviation ctx_granted :: "CheckEngine \<Rightarrow> Tuple set \<Rightarrow> CheckContext \<Rightarrow> RewriteRule \<Rightarrow> string \<Rightarrow> string \<Rightarrow> bool" where
  "ctx_granted e T ctx r ot oi \<equiv> granted (ce_schema e) T (ctx_subject_type ctx) (ctx_subject_id ctx) r ot oi"

abbreviation ctx_granted_in :: "nat \<Rightarrow> CheckEngine \<Rightarrow> Tuple set \<Rightarrow> CheckContext \<Rightarrow> RewriteRule \<Rightarrow> string \<Rightarrow> string \<Rightarrow> bool" where
  "ctx_granted_in n e T ctx r ot oi \<equiv> granted_in n (ce_schema e) T (ctx_subject_type ctx) (ctx_subject_id ctx) r ot oi"

abbreviation ctx_member :: "Tuple set \<Rightarrow> CheckContext \<Rightarrow> string \<Rightarrow> string \<Rightarrow> string \<Rightarrow> bool" where
  "ctx_member T ctx ot oi n \<equiv> member T ot oi n (ctx_subject_type ctx) (ctx_subject_id ctx)"

lemma evaluate_this_computed:
  "permission_rule (ce_schema e) ot n = Some r \<Longrightarrow>
     evaluate_this e n ot oi ctx = evaluate_rule e r ot oi (ctx\<lparr>ctx_depth := ctx_depth ctx + 1\<rparr>)"
  by (auto simp: permission_rule_def evaluate_this.simps split: option.splits)

lemma evaluate_this_cases:
  assumes "evaluate_this e n ot oi ctx = Inr b"
  obtains (computed) r where "permission_rule (ce_schema e) ot n = Some r"
      "evaluate_rule e r ot oi (ctx\<lparr>ctx_depth := ctx_depth ctx + 1\<rparr>) = Inr b"
    | (stored) "plain_relation (ce_schema e) ot n"
  using assms
  by (auto simp: permission_rule_def plain_relation_def evaluate_this.simps
      split: option.splits if_splits)

lemma evaluate_target_cases:
  assumes "evaluate_target e cp ctx t = Inr b"
  obtains (cut) "(subject_type (tup_subject t), subject_id (tup_subject t), cp) \<in> ctx_visited ctx" "\<not> b"
    | (follow) r where "(subject_type (tup_subject t), subject_id (tup_subject t), cp) \<notin> ctx_visited ctx"
      "permission_rule (ce_schema e) (subject_type (tup_subject t)) cp = Some r"
      "evaluate_rule e r (subject_type (tup_subject t)) (subject_id (tup_subject t))
         (ctx\<lparr>ctx_depth := ctx_depth ctx + 1,
             ctx_visited := insert (subject_type (tup_subject t), subject_id (tup_subject t), cp) (ctx_visited ctx)\<rparr>) = Inr b"
  using assms
  by (auto simp: evaluate_target_def permission_rule_def Let_def split: if_splits option.splits)

lemma userset_expand:
  "subject_relation s = Some r \<Longrightarrow> s = userset (subject_type s) (subject_id s) r"
  by (simp add: SubjectRef_expand)

lemma tuples_with_subject:
  "(\<exists>t\<in>{t \<in> T. tup_object t = ob \<and> tup_relation t = r}. P (tup_subject t)) \<longleftrightarrow>
     (\<exists>s. Tuple_new ob r s \<in> T \<and> P s)" for T :: "Tuple set"
proof -
  have "t = Tuple_new (tup_object t) (tup_relation t) (tup_subject t)" for t :: Tuple
    by (simp add: Tuple_new_def)
  then show ?thesis by (metis (mono_tags, lifting) Tuple_new_sel mem_Collect_eq)
qed

context tuple_source
begin

lemma tuple_grants_iff:
  assumes e: "ce_reader e = read_tuples" and t: "tuple_grants e ctx t = Inr b"
  shows "b \<longleftrightarrow> tup_subject t = direct (ctx_subject_type ctx) (ctx_subject_id ctx) \<or>
    (\<exists>ut ui ur. tup_subject t = userset ut ui ur \<and>
       Tuple_new (ObjectRef_new ut ui) ur (direct (ctx_subject_type ctx) (ctx_subject_id ctx))
         \<in> tuples_of (ctx_snapshot ctx))"
proof (cases "subject_relation (tup_subject t)")
  case None
  with t show ?thesis by (auto simp: tuple_grants_def SubjectRef_expand)
next
  case (Some rel)
  with t e obtain us where "read_tuples (member_filter (subject_type (tup_subject t)) (subject_id (tup_subject t)) rel
      (ctx_subject_type ctx) (ctx_subject_id ctx)) (ctx_snapshot ctx) = Inr us" and b: "b \<longleftrightarrow> us \<noteq> []"
    by (auto simp: tuple_grants_def result_simps)
  from read_set [OF this(1)] have "us \<noteq> [] \<longleftrightarrow> Tuple_new (ObjectRef_new (subject_type (tup_subject t)) (subject_id (tup_subject t))) rel
      (direct (ctx_subject_type ctx) (ctx_subject_id ctx)) \<in> tuples_of (ctx_snapshot ctx)"
    by (auto simp: matches_member_filter simp flip: set_empty)
  with Some b show ?thesis by (auto simp: SubjectRef_expand)
qed

lemma evaluate_stored:
  assumes e: "ce_reader e = read_tuples" and p: "plain_relation (ce_schema e) ot n"
    and b: "evaluate_this e n ot oi ctx = Inr b"
  shows "b \<longleftrightarrow> ctx_member (tuples_of (ctx_snapshot ctx)) ctx ot oi n"
proof -
  let ?T = "tuples_of (ctx_snapshot ctx)"
  let ?member = "\<lambda>t. tup_subject t = direct (ctx_subject_type ctx) (ctx_subject_id ctx) \<or>
    (\<exists>ut ui ur. tup_subject t = userset ut ui ur \<and>
       Tuple_new (ObjectRef_new ut ui) ur (direct (ctx_subject_type ctx) (ctx_subject_id ctx)) \<in> ?T)"
  from p b e obtain ts where r: "read_tuples (object_filter ot oi n) (ctx_snapshot ctx) = Inr ts"
    and a: "try_any (tuple_grants e ctx) ts = Inr b"
    by (auto simp: plain_relation_def evaluate_this.simps result_simps split: option.splits)
  have s: "set ts = {t \<in> ?T. tup_object t = ObjectRef_new ot oi \<and> tup_relation t = n}"
    by (simp add: read_set [OF r] matches_object_filter)
  have "b \<longleftrightarrow> (\<exists>t\<in>set ts. ?member t)"
  proof (cases b)
    case True
    with a obtain t where "t \<in> set ts" "tuple_grants e ctx t = Inr True" by (auto dest!: try_any_True)
    with tuple_grants_iff [OF e this(2)] True show ?thesis by blast
  next
    case False
    with a have "tuple_grants e ctx t = Inr False" if "t \<in> set ts" for t using that by (simp add: try_any_False)
    with tuple_grants_iff [OF e] False show ?thesis by blast
  qed
  also have "\<dots> \<longleftrightarrow> ctx_member ?T ctx ot oi n"
    unfolding member_def s tuples_with_subject [of ?T "ObjectRef_new ot oi" n "\<lambda>s.
      s = direct (ctx_subject_type ctx) (ctx_subject_id ctx) \<or> (\<exists>ut ui ur. s = userset ut ui ur \<and>
       Tuple_new (ObjectRef_new ut ui) ur (direct (ctx_subject_type ctx) (ctx_subject_id ctx)) \<in> ?T)"]
    by blast
  finally show ?thesis .
qed

lemma evaluate_exclusion:
  assumes "plain_exclusion_rule (ce_schema e) ot (RExclusion a c)"
    and e: "ce_reader e = read_tuples" and b: "evaluate_rule e (RExclusion a c) ot oi ctx = Inr b"
  obtains n x where "c = RThis n" "plain_relation (ce_schema e) ot n"
    "evaluate_rule e a ot oi ctx = Inr x"
    "b \<longleftrightarrow> x \<and> \<not> ctx_member (tuples_of (ctx_snapshot ctx)) ctx ot oi n"
proof -
  from assms(1) obtain n where c: "c = RThis n" and p: "plain_relation (ce_schema e) ot n"
    by (cases c) auto
  from b have "and_then (evaluate_rule e a ot oi ctx) (\<lambda>x. if \<not> x then Inr False
      else and_then (evaluate_rule e (RThis n) ot oi ctx) (\<lambda>y. Inr (\<not> y))) = Inr b"
    by (simp add: c evaluate_rule.simps [of e "RExclusion a (RThis n)"] split: if_splits)
  then obtain x where x: "evaluate_rule e a ot oi ctx = Inr x"
    and xb: "x \<Longrightarrow> evaluate_rule e (RThis n) ot oi ctx = Inr (\<not> b)" "\<not> x \<Longrightarrow> \<not> b"
    by (auto simp: result_simps split: if_splits)
  have "b \<longleftrightarrow> x \<and> \<not> ctx_member (tuples_of (ctx_snapshot ctx)) ctx ot oi n"
  proof (cases x)
    case True
    then have "evaluate_this e n ot oi ctx = Inr (\<not> b)"
      using xb(1) by (simp add: evaluate_rule.simps [of e "RThis n"] split: if_splits)
    from evaluate_stored [OF e p this] True show ?thesis by blast
  qed (use xb in simp)
  with that c p x show thesis by blast
qed

lemma evaluate_sound:
  "ce_reader e = read_tuples \<Longrightarrow> plain_exclusions (ce_schema e) \<Longrightarrow>
     plain_exclusion_rule (ce_schema e) ot rule \<Longrightarrow> evaluate_rule e rule ot oi ctx = Inr True \<Longrightarrow>
     ctx_granted e (tuples_of (ctx_snapshot ctx)) ctx rule ot oi"
  "ce_reader e = read_tuples \<Longrightarrow> plain_exclusions (ce_schema e) \<Longrightarrow>
     evaluate_this e name ot oi ctx = Inr True \<Longrightarrow>
     ctx_granted e (tuples_of (ctx_snapshot ctx)) ctx (RThis name) ot oi"
  "ce_reader e = read_tuples \<Longrightarrow> plain_exclusions (ce_schema e) \<Longrightarrow>
     evaluate_arrow e ts cp ot oi ctx = Inr True \<Longrightarrow>
     ctx_granted e (tuples_of (ctx_snapshot ctx)) ctx (RArrow ts cp) ot oi"
proof (induction e rule ot oi ctx and e name ot oi ctx and e ts cp ot oi ctx
    rule: evaluate_rule_evaluate_this_evaluate_arrow.induct)
  case (1 e rule ot oi ctx)
  have d: "\<not> ctx_depth ctx > max_depth (ce_config e)"
    using "1.prems"(4) by (auto simp: evaluate_rule.simps)
  show ?case
  proof (cases rule)
    case (RThis name)
    with "1.IH"(1) [OF d RThis "1.prems"(1,2)] "1.prems"(4) d show ?thesis
      by (simp add: evaluate_rule.simps)
  next
    case (RUnion cs)
    with "1.prems"(4) d obtain c where c: "c \<in> set cs" "evaluate_rule e c ot oi ctx = Inr True"
      by (auto simp: evaluate_rule.simps [of e "RUnion cs"] dest!: try_any_True)
    with "1.IH"(2) [OF d RUnion c(1) "1.prems"(1,2) _ c(2)] RUnion "1.prems"(3) show ?thesis
      by (auto intro: union)
  next
    case (RIntersection cs)
    with "1.prems"(4) d have "\<And>c. c \<in> set cs \<Longrightarrow> evaluate_rule e c ot oi ctx = Inr True"
      by (simp add: evaluate_rule.simps [of e "RIntersection cs"] try_all_True)
    with "1.IH"(3) [OF d RIntersection _ "1.prems"(1,2)] RIntersection "1.prems"(3) show ?thesis
      by (auto intro: intersection)
  next
    case (RExclusion a c)
    obtain n x where c: "c = RThis n" "plain_relation (ce_schema e) ot n"
      and x: "evaluate_rule e a ot oi ctx = Inr x"
      and m: "True \<longleftrightarrow> x \<and> \<not> ctx_member (tuples_of (ctx_snapshot ctx)) ctx ot oi n"
      by (rule evaluate_exclusion [OF "1.prems"(3) [unfolded RExclusion] "1.prems"(1) "1.prems"(4) [unfolded RExclusion]])
    from x m have a: "evaluate_rule e a ot oi ctx = Inr True" by simp
    have "ctx_granted e (tuples_of (ctx_snapshot ctx)) ctx a ot oi"
      by (rule "1.IH"(4) [OF d RExclusion "1.prems"(1,2) _ a]) (use "1.prems"(3) RExclusion in simp)
    with c m RExclusion show ?thesis by (auto intro: exclusion)
  next
    case (RArrow ts cp)
    with "1.IH"(6) [OF d RArrow "1.prems"(1,2)] "1.prems"(4) d show ?thesis
      by (simp add: evaluate_rule.simps)
  qed
next
  case (2 e name ot oi ctx)
  from "2.prems"(3) show ?case
  proof (cases rule: evaluate_this_cases)
    case (computed r)
    then obtain td pd where td: "get_type (ce_schema e) ot = Some td" "get_permission td name = Some pd"
      and r: "r = perm_rule pd"
      by (auto simp: permission_rule_def split: option.splits)
    have "ctx_granted e (tuples_of (ctx_snapshot ctx)) ctx r ot oi"
      using "2.IH" [OF td "2.prems"(1,2) plain_exclusionsD [OF "2.prems"(2) computed(1) [unfolded r]]]
        computed(2) r by simp
    with computed(1) show ?thesis by (rule granted.computed)
  next
    case stored
    with evaluate_stored [OF "2.prems"(1) stored "2.prems"(3)] show ?thesis
      by (auto intro: granted.stored)
  qed
next
  case (3 e ts cp ot oi ctx)
  from "3.prems"(1,3) obtain tuples t where
      r: "ce_reader e (object_filter ot oi ts) (ctx_snapshot ctx) = Inr tuples"
    and t: "t \<in> set tuples" "evaluate_target e cp ctx t = Inr True"
    by (auto simp: evaluate_arrow_targets result_simps dest!: try_any_True)
  from r "3.prems"(1) t have tm: "t \<in> tuples_of (ctx_snapshot ctx)"
    "tup_object t = ObjectRef_new ot oi" "tup_relation t = ts"
    using read_set [of "object_filter ot oi ts" "ctx_snapshot ctx" tuples] by (auto simp: matches_object_filter)
  from t(2) show ?case
  proof (cases rule: evaluate_target_cases)
    case (follow ru)
    then obtain td pd where td: "get_type (ce_schema e) (subject_type (tup_subject t)) = Some td"
      "get_permission td cp = Some pd" and ru: "ru = perm_rule pd"
      by (auto simp: permission_rule_def split: option.splits)
    have "ctx_granted e (tuples_of (ctx_snapshot ctx)) ctx ru (subject_type (tup_subject t)) (subject_id (tup_subject t))"
      using "3.IH" [OF r t(1) refl refl refl follow(1) td "3.prems"(1,2)
          plain_exclusionsD [OF "3.prems"(2) follow(2) [unfolded ru]]] follow(3) ru by simp
    with tm follow(2) show ?thesis by (intro granted.arrow)
  qed simp
qed

text \<open>
  A key is refuted up to \<open>n\<close> when its permission has no derivation with fewer than \<open>n\<close> unfoldings. A
  target of an arrow is pursued along a shortest derivation, on which its own key is refuted, so
  cutting the keys already visited loses nothing.
\<close>

lemma evaluate_complete:
  assumes e: "ce_reader e = read_tuples" and S: "plain_exclusions (ce_schema e)"
  shows "plain_exclusion_rule (ce_schema e) ot rule \<Longrightarrow> evaluate_rule e rule ot oi ctx = Inr False \<Longrightarrow>
     (\<And>t i p r m. (t, i, p) \<in> ctx_visited ctx \<Longrightarrow> permission_rule (ce_schema e) t p = Some r \<Longrightarrow> m < n \<Longrightarrow>
        \<not> ctx_granted_in m e (tuples_of (ctx_snapshot ctx)) ctx r t i) \<Longrightarrow>
     \<not> ctx_granted_in n e (tuples_of (ctx_snapshot ctx)) ctx rule ot oi"
proof (induction n arbitrary: rule ot oi ctx rule: less_induct)
  case (less n rule0 ot0 oi0 ctx)
  let ?T = "tuples_of (ctx_snapshot ctx)"
  note smaller = less.IH and visited = less.prems(3)
  have "plain_exclusion_rule (ce_schema e) ot rule \<Longrightarrow> evaluate_rule e rule ot oi ctx = Inr False \<Longrightarrow>
      \<not> ctx_granted_in n e ?T ctx rule ot oi" for rule ot oi
  proof (induction rule)
    case (RThis nm)
    then have b: "evaluate_this e nm ot oi ctx = Inr False"
      by (simp add: evaluate_rule.simps split: if_splits)
    show ?case
    proof
      assume g: "ctx_granted_in n e ?T ctx (RThis nm) ot oi"
      from b show False
      proof (cases rule: evaluate_this_cases)
        case (computed r)
        with g obtain m where m: "n = Suc m" "ctx_granted_in m e ?T ctx r ot oi"
          by (auto simp: granted_in_this plain_relation_no_permission)
        have "\<not> ctx_granted_in m e (tuples_of (ctx_snapshot (ctx\<lparr>ctx_depth := ctx_depth ctx + 1\<rparr>)))
            (ctx\<lparr>ctx_depth := ctx_depth ctx + 1\<rparr>) r ot oi"
          by (rule smaller [OF _ plain_exclusionsD [OF S computed(1)] computed(2)])
            (use m visited in auto)
        with m show False by simp
      next
        case stored
        with evaluate_stored [OF e stored b] g show False
          by (auto simp: granted_in_this plain_relation_no_permission)
      qed
    qed
  next
    case (RUnion cs)
    then have "\<And>c. c \<in> set cs \<Longrightarrow> evaluate_rule e c ot oi ctx = Inr False"
      by (simp add: evaluate_rule.simps [of e "RUnion cs"] try_any_False split: if_splits)
    with RUnion show ?case by simp
  next
    case (RIntersection cs)
    then obtain c where "c \<in> set cs" "evaluate_rule e c ot oi ctx = Inr False"
      by (auto simp: evaluate_rule.simps [of e "RIntersection cs"] dest!: try_all_False split: if_splits)
    with RIntersection show ?case by auto
  next
    case (RExclusion a c)
    obtain nm x where c: "c = RThis nm" "plain_relation (ce_schema e) ot nm"
      and x: "evaluate_rule e a ot oi ctx = Inr x"
      and m: "False \<longleftrightarrow> x \<and> \<not> ctx_member ?T ctx ot oi nm"
      by (rule evaluate_exclusion [OF RExclusion.prems(1) e RExclusion.prems(2)])
    with RExclusion show ?case by (cases x) auto
  next
    case (RArrow ts cp)
    then have b: "evaluate_arrow e ts cp ot oi ctx = Inr False"
      by (simp add: evaluate_rule.simps split: if_splits)
    show ?case
    proof
      assume "ctx_granted_in n e ?T ctx (RArrow ts cp) ot oi"
      then obtain t r k where t: "t \<in> ?T" "tup_object t = ObjectRef_new ot oi" "tup_relation t = ts"
        and r: "permission_rule (ce_schema e) (subject_type (tup_subject t)) cp = Some r" and k: "n = Suc k"
        and g: "ctx_granted_in k e ?T ctx r (subject_type (tup_subject t)) (subject_id (tup_subject t))"
        unfolding granted_in_arrow by blast
      from b e obtain us where us: "read_tuples (object_filter ot oi ts) (ctx_snapshot ctx) = Inr us"
        and fs: "\<And>u. u \<in> set us \<Longrightarrow> evaluate_target e cp ctx u = Inr False"
        by (auto simp: evaluate_arrow_targets result_simps try_any_False)
      have f: "evaluate_target e cp ctx t = Inr False"
        by (rule fs) (use t in \<open>simp add: read_set [OF us] matches_object_filter\<close>)
      define m where "m = (LEAST m. ctx_granted_in m e ?T ctx r (subject_type (tup_subject t)) (subject_id (tup_subject t)))"
      have mg: "ctx_granted_in m e ?T ctx r (subject_type (tup_subject t)) (subject_id (tup_subject t))"
        unfolding m_def using g by (rule LeastI)
      have "m \<le> k" unfolding m_def using g by (rule Least_le)
      with k have mn: "m < n" by simp
      have least: "\<not> ctx_granted_in j e ?T ctx r (subject_type (tup_subject t)) (subject_id (tup_subject t))"
        if "j < m" for j using that unfolding m_def by (rule not_less_Least)
      from f show False
      proof (cases rule: evaluate_target_cases)
        case cut
        from visited [OF cut(1) r mn] mg show False by blast
      next
        case (follow r')
        with r have r': "r' = r" by simp
        let ?c = "ctx\<lparr>ctx_depth := ctx_depth ctx + 1, ctx_visited :=
          insert (subject_type (tup_subject t), subject_id (tup_subject t), cp) (ctx_visited ctx)\<rparr>"
        have "\<not> ctx_granted_in m e (tuples_of (ctx_snapshot ?c)) ?c r (subject_type (tup_subject t)) (subject_id (tup_subject t))"
        proof (rule smaller [OF mn plain_exclusionsD [OF S r] follow(3) [unfolded r']])
          fix ty i p r2 j
          assume "(ty, i, p) \<in> ctx_visited ?c" "permission_rule (ce_schema e) ty p = Some r2" "j < m"
          then show "\<not> ctx_granted_in j e (tuples_of (ctx_snapshot ?c)) ?c r2 ty i"
            using r least visited [of ty i p r2 j] mn by auto
        qed
        with mg show False by simp
      qed
    qed
  qed
  with less.prems(1,2) show ?case by blast
qed

lemma check_granted:
  assumes "ce_reader e = read_tuples" and "plain_exclusions (ce_schema e)"
    and "check e req = Inr res"
  obtains r where "permission_rule (ce_schema e) (cr_object_type req) (cr_permission req) = Some r"
    "allowed res \<longleftrightarrow> granted (ce_schema e) (tuples_of (cr_snapshot req))
       (cr_subject_type req) (cr_subject_id req) r (cr_object_type req) (cr_object_id req)"
proof -
  let ?c = "\<lparr>ctx_subject_type = cr_subject_type req, ctx_subject_id = cr_subject_id req,
         ctx_snapshot = cr_snapshot req, ctx_depth = 0, ctx_visited = {}\<rparr>"
  from assms(3) obtain r where r: "permission_rule (ce_schema e) (cr_object_type req) (cr_permission req) = Some r"
    and ev: "evaluate_rule e r (cr_object_type req) (cr_object_id req) ?c = Inr (allowed res)"
    by (auto simp: check_def permission_rule_def result_simps split: option.splits)
  note pr = plain_exclusionsD [OF assms(2) r]
  have "\<not> granted_in n (ce_schema e) (tuples_of (cr_snapshot req))
       (cr_subject_type req) (cr_subject_id req) r (cr_object_type req) (cr_object_id req)" if "\<not> allowed res" for n
    using evaluate_complete [OF assms(1,2) pr, of "cr_object_id req" ?c n] ev that by simp
  moreover have "granted (ce_schema e) (tuples_of (cr_snapshot req))
       (cr_subject_type req) (cr_subject_id req) r (cr_object_type req) (cr_object_id req)" if "allowed res"
    using evaluate_sound(1) [OF assms(1,2) pr, of "cr_object_id req" ?c] ev that by simp
  ultimately show thesis using that r by (auto simp: granted_iff)
qed

end

end
