(* ===== verification/Engine_Depth.thy ===== *)
theory Engine_Depth
  imports Engine_Semantics Demo
begin

text \<open>
  The depth limit of the two engines. A limit can only turn an answer into \<open>MaxDepthExceeded\<close>: every
  answer given under a limit is given under each larger one, and the depth an error reports is one
  past the limit, so the traversal never goes deeper. The facts hold for every reader.
\<close>

section \<open>Raising the limit keeps the answers\<close>

definition deeper :: "nat \<Rightarrow> CheckEngine \<Rightarrow> CheckEngine" where
  "deeper k e = e\<lparr>ce_config := (ce_config e)\<lparr>max_depth := max_depth (ce_config e) + k\<rparr>\<rparr>"

lemma deeper_sel [simp]:
  "ce_reader (deeper k e) = ce_reader e" "ce_schema (deeper k e) = ce_schema e"
  "max_depth (ce_config (deeper k e)) = max_depth (ce_config e) + k"
  by (simp_all add: deeper_def)

lemma tuple_grants_deeper [simp]: "tuple_grants (deeper k e) = tuple_grants e"
  by (simp add: tuple_grants_def fun_eq_iff cong: option.case_cong)

lemma try_any_keep:
  "(\<And>x b. x \<in> set xs \<Longrightarrow> f x = Inr b \<Longrightarrow> g x = Inr b) \<Longrightarrow> try_any f xs = Inr r \<Longrightarrow> try_any g xs = Inr r"
  by (induction xs) (auto split: sum.splits if_splits)

lemma try_all_keep:
  "(\<And>x b. x \<in> set xs \<Longrightarrow> f x = Inr b \<Longrightarrow> g x = Inr b) \<Longrightarrow> try_all f xs = Inr r \<Longrightarrow> try_all g xs = Inr r"
  by (induction xs) (auto split: sum.splits if_splits)

lemma evaluate_deeper:
  "evaluate_rule e rule ot oi ctx = Inr b \<Longrightarrow> evaluate_rule (deeper k e) rule ot oi ctx = Inr b"
  "evaluate_this e name ot oi ctx = Inr b \<Longrightarrow> evaluate_this (deeper k e) name ot oi ctx = Inr b"
  "evaluate_arrow e ts cp ot oi ctx = Inr b \<Longrightarrow> evaluate_arrow (deeper k e) ts cp ot oi ctx = Inr b"
proof (induction e rule ot oi ctx and e name ot oi ctx and e ts cp ot oi ctx
    arbitrary: b and b and b rule: evaluate_rule_evaluate_this_evaluate_arrow.induct)
  case (1 e rule ot oi ctx)
  have d: "\<not> ctx_depth ctx > max_depth (ce_config e)"
    using "1.prems" by (auto simp: evaluate_rule.simps)
  show ?case
  proof (cases rule)
    case (RThis name)
    with "1.IH"(1) [OF d RThis] "1.prems" d show ?thesis by (simp add: evaluate_rule.simps)
  next
    case (RUnion cs)
    with "1.prems" d have "try_any (\<lambda>c. evaluate_rule e c ot oi ctx) cs = Inr b"
      by (simp add: evaluate_rule.simps [of e "RUnion cs"])
    then have "try_any (\<lambda>c. evaluate_rule (deeper k e) c ot oi ctx) cs = Inr b"
      by (rule try_any_keep [rotated]) (rule "1.IH"(2) [OF d RUnion])
    with d RUnion show ?thesis by (simp add: evaluate_rule.simps [of _ "RUnion cs"])
  next
    case (RIntersection cs)
    with "1.prems" d have "try_all (\<lambda>c. evaluate_rule e c ot oi ctx) cs = Inr b"
      by (simp add: evaluate_rule.simps [of e "RIntersection cs"])
    then have "try_all (\<lambda>c. evaluate_rule (deeper k e) c ot oi ctx) cs = Inr b"
      by (rule try_all_keep [rotated]) (rule "1.IH"(3) [OF d RIntersection])
    with d RIntersection show ?thesis by (simp add: evaluate_rule.simps [of _ "RIntersection cs"])
  next
    case (RExclusion a c)
    with "1.prems" d obtain x where x: "evaluate_rule e a ot oi ctx = Inr x"
      and y: "x \<Longrightarrow> evaluate_rule e c ot oi ctx = Inr (\<not> b)" "\<not> x \<Longrightarrow> \<not> b"
      by (auto simp: evaluate_rule.simps [of e "RExclusion a c"] result_simps split: if_splits)
    note a = "1.IH"(4) [OF d RExclusion x]
    show ?thesis
    proof (cases x)
      case True
      with y(1) "1.IH"(5) [OF d RExclusion x] have "evaluate_rule (deeper k e) c ot oi ctx = Inr (\<not> b)"
        by simp
      with a True d RExclusion show ?thesis by (simp add: evaluate_rule.simps [of _ "RExclusion a c"])
    qed (use y a d RExclusion in \<open>simp add: evaluate_rule.simps [of _ "RExclusion a c"]\<close>)
  next
    case (RArrow ts cp)
    with "1.IH"(6) [OF d RArrow] "1.prems" d show ?thesis by (simp add: evaluate_rule.simps)
  qed
next
  case (2 e name ot oi ctx)
  then obtain td where td: "get_type (ce_schema e) ot = Some td"
    by (auto simp: evaluate_this.simps split: option.splits)
  show ?case
  proof (cases "get_permission td name")
    case (Some pd)
    with "2.IH" [OF td Some] "2.prems" td show ?thesis by (simp add: evaluate_this.simps)
  qed (use "2.prems" td in \<open>simp add: evaluate_this.simps split: if_splits\<close>)
next
  case (3 e ts cp ot oi ctx)
  then obtain tuples where r: "ce_reader e (object_filter ot oi ts) (ctx_snapshot ctx) = Inr tuples"
    and t: "try_any (evaluate_target e cp ctx) tuples = Inr b"
    by (auto simp: evaluate_arrow_targets result_simps)
  from t have "try_any (evaluate_target (deeper k e) cp ctx) tuples = Inr b"
  proof (rule try_any_keep [rotated])
    fix t b assume t: "t \<in> set tuples" "evaluate_target e cp ctx t = Inr b"
    from t(2) show "evaluate_target (deeper k e) cp ctx t = Inr b"
    proof (cases rule: evaluate_target_cases)
      case cut
      then show ?thesis by (simp add: evaluate_target_def)
    next
      case (follow ru)
      then obtain td pd where td: "get_type (ce_schema e) (subject_type (tup_subject t)) = Some td"
        "get_permission td cp = Some pd" and ru: "ru = perm_rule pd"
        by (auto simp: permission_rule_def split: option.splits)
      from "3.IH" [OF r t(1) refl refl refl follow(1) td follow(3) [unfolded ru]] follow(1) td
      show ?thesis by (simp add: evaluate_target_def Let_def)
    qed
  qed
  with r show ?case by (simp add: evaluate_arrow_targets)
qed

section \<open>The depth an error reports\<close>

lemma evaluate_max_depth:
  "ctx_depth ctx \<le> max_depth (ce_config e) + 1 \<Longrightarrow> evaluate_rule e rule ot oi ctx = Inl (MaxDepthExceeded d) \<Longrightarrow>
     (\<And>f s. ce_reader e f s \<noteq> Inl (MaxDepthExceeded d)) \<Longrightarrow> d = max_depth (ce_config e) + 1"
  "ctx_depth ctx \<le> max_depth (ce_config e) \<Longrightarrow> evaluate_this e name ot oi ctx = Inl (MaxDepthExceeded d) \<Longrightarrow>
     (\<And>f s. ce_reader e f s \<noteq> Inl (MaxDepthExceeded d)) \<Longrightarrow> d = max_depth (ce_config e) + 1"
  "ctx_depth ctx \<le> max_depth (ce_config e) \<Longrightarrow> evaluate_arrow e ts cp ot oi ctx = Inl (MaxDepthExceeded d) \<Longrightarrow>
     (\<And>f s. ce_reader e f s \<noteq> Inl (MaxDepthExceeded d)) \<Longrightarrow> d = max_depth (ce_config e) + 1"
proof (induction e rule ot oi ctx and e name ot oi ctx and e ts cp ot oi ctx
    rule: evaluate_rule_evaluate_this_evaluate_arrow.induct)
  case (1 e rule ot oi ctx)
  show ?case
  proof (cases "ctx_depth ctx > max_depth (ce_config e)")
    case True
    with "1.prems" show ?thesis by (simp add: evaluate_rule.simps)
  next
    case d: False
    then have d': "ctx_depth ctx \<le> max_depth (ce_config e)" "ctx_depth ctx \<le> max_depth (ce_config e) + 1" by simp_all
    show ?thesis
    proof (cases rule)
      case (RThis name)
      with "1.IH"(1) [OF d RThis d'(1) _ "1.prems"(3)] "1.prems" d show ?thesis
        by (simp add: evaluate_rule.simps)
    next
      case (RUnion cs)
      with "1.prems"(2) d obtain c where "c \<in> set cs" "evaluate_rule e c ot oi ctx = Inl (MaxDepthExceeded d)"
        by (auto simp: evaluate_rule.simps [of e "RUnion cs"] dest!: try_any_err)
      from "1.IH"(2) [OF d RUnion this(1) d'(2) this(2) "1.prems"(3)] show ?thesis .
    next
      case (RIntersection cs)
      with "1.prems"(2) d obtain c where "c \<in> set cs" "evaluate_rule e c ot oi ctx = Inl (MaxDepthExceeded d)"
        by (auto simp: evaluate_rule.simps [of e "RIntersection cs"] dest!: try_all_err)
      from "1.IH"(3) [OF d RIntersection this(1) d'(2) this(2) "1.prems"(3)] show ?thesis .
    next
      case (RExclusion a c)
      with "1.prems"(2) d consider (a) "evaluate_rule e a ot oi ctx = Inl (MaxDepthExceeded d)"
        | (c) "evaluate_rule e a ot oi ctx = Inr True" "evaluate_rule e c ot oi ctx = Inl (MaxDepthExceeded d)"
        by (auto simp: evaluate_rule.simps [of e "RExclusion a c"] result_simps split: if_splits)
      then show ?thesis
      proof cases
        case a
        from "1.IH"(4) [OF d RExclusion d'(2) a "1.prems"(3)] show ?thesis .
      next
        case c
        from "1.IH"(5) [OF d RExclusion c(1) _ d'(2) c(2) "1.prems"(3)] show ?thesis by simp
      qed
    next
      case (RArrow ts cp)
      with "1.IH"(6) [OF d RArrow d'(1) _ "1.prems"(3)] "1.prems" d show ?thesis
        by (simp add: evaluate_rule.simps)
    qed
  qed
next
  case (2 e name ot oi ctx)
  from "2.prems"(2) obtain td where td: "get_type (ce_schema e) ot = Some td"
    by (auto simp: evaluate_this.simps split: option.splits)
  show ?case
  proof (cases "get_permission td name")
    case (Some pd)
    with "2.IH" [OF td Some _ _ "2.prems"(3)] "2.prems"(1,2) td show ?thesis by (simp add: evaluate_this.simps)
  next
    case None
    have "tuple_grants e ctx t \<noteq> Inl (MaxDepthExceeded d)" for t
      using "2.prems"(3) by (auto simp: tuple_grants_def result_simps split: option.splits)
    with "2.prems" td None show ?thesis
      by (auto simp: evaluate_this.simps result_simps dest!: try_any_err split: if_splits)
  qed
next
  case (3 e ts cp ot oi ctx)
  from "3.prems"(2,3) obtain tuples t where
      r: "ce_reader e (object_filter ot oi ts) (ctx_snapshot ctx) = Inr tuples"
    and t: "t \<in> set tuples" "evaluate_target e cp ctx t = Inl (MaxDepthExceeded d)"
    by (auto simp: evaluate_arrow_targets result_simps dest!: try_any_err)
  from t(2) obtain td pd where k: "(subject_type (tup_subject t), subject_id (tup_subject t), cp) \<notin> ctx_visited ctx"
    and td: "get_type (ce_schema e) (subject_type (tup_subject t)) = Some td" "get_permission td cp = Some pd"
    and ev: "evaluate_rule e (perm_rule pd) (subject_type (tup_subject t)) (subject_id (tup_subject t))
       (ctx\<lparr>ctx_depth := ctx_depth ctx + 1, ctx_visited :=
          insert (subject_type (tup_subject t), subject_id (tup_subject t), cp) (ctx_visited ctx)\<rparr>)
       = Inl (MaxDepthExceeded d)"
    by (auto simp: evaluate_target_def Let_def split: if_splits option.splits)
  from "3.IH" [OF r t(1) refl refl refl k td _ ev "3.prems"(3)] "3.prems"(1) show ?case by simp
qed

section \<open>Properties of the limit\<close>

text \<open>
  C15. Raising the depth limit keeps every answer: a check that answers under a limit gives the same
  answer under each larger one, for every reader.
\<close>

theorem check_deeper: "check e req = Inr res \<Longrightarrow> check (deeper k e) req = Inr res"
  by (auto simp: check_def result_simps intro: evaluate_deeper)

theorem check_deeper_witness:
  "check (deeper 4 (CheckEngine_new demo_reader demo_schema (demo_config 3)))
     \<lparr>cr_object_type = ''document'', cr_object_id = ''plan'', cr_permission = ''can_view'',
      cr_subject_type = ''user'', cr_subject_id = ''bob'', cr_snapshot = None\<rparr> = Inr \<lparr>allowed = True\<rparr>"
  by (rule check_deeper) code_simp

text \<open>
  C16. The depth a check reports when it gives up is one past the limit, unless the reader itself
  reports a depth error: the traversal never goes deeper than the limit.
\<close>

theorem check_max_depth:
  assumes "check e req = Inl (MaxDepthExceeded d)"
    and "\<And>f s. ce_reader e f s \<noteq> Inl (MaxDepthExceeded d)"
  shows "d = max_depth (ce_config e) + 1"
proof -
  from assms(1) obtain r where "evaluate_rule e r (cr_object_type req) (cr_object_id req)
      \<lparr>ctx_subject_type = cr_subject_type req, ctx_subject_id = cr_subject_id req,
       ctx_snapshot = cr_snapshot req, ctx_depth = 0, ctx_visited = {}\<rparr> = Inl (MaxDepthExceeded d)"
    by (auto simp: check_def result_simps)
  from evaluate_max_depth(1) [OF _ this assms(2)] show ?thesis by simp
qed

theorem check_max_depth_witness:
  "check (CheckEngine_new demo_reader demo_schema (demo_config 0))
     \<lparr>cr_object_type = ''document'', cr_object_id = ''plan'', cr_permission = ''can_view'',
      cr_subject_type = ''user'', cr_subject_id = ''bob'', cr_snapshot = None\<rparr> = Inl (MaxDepthExceeded 1) \<and>
   (1 :: nat) = max_depth (ce_config (CheckEngine_new demo_reader demo_schema (demo_config 0))) + 1"
proof -
  let ?e = "CheckEngine_new demo_reader demo_schema (demo_config 0)"
  have c: "check ?e \<lparr>cr_object_type = ''document'', cr_object_id = ''plan'', cr_permission = ''can_view'',
      cr_subject_type = ''user'', cr_subject_id = ''bob'', cr_snapshot = None\<rparr> = Inl (MaxDepthExceeded 1)"
    by code_simp
  have "ce_reader ?e f s \<noteq> Inl (MaxDepthExceeded 1)" for f s
    by (simp add: CheckEngine_new_def demo_reader_def)
  from check_max_depth [OF c this] c show ?thesis by simp
qed

end
