(* ===== verification/Adapter.thy ===== *)
theory Adapter
  imports Garbage_Collector Engine_Depth
begin

text \<open>
  \<open>kraalzibar-server/src/adapter.rs\<close>: a store handle seen through the engines' \<open>TupleReader\<close>. The
  contract of a versioned store gives the contract of a reader, so the engine theorems hold over
  every store; the interpretation is on the handles of the in-memory factory.
\<close>

definition StoreTupleReader :: "'s Store \<Rightarrow> 's \<Rightarrow> TupleReader" where
  "StoreTupleReader store s f snapshot =
     map_err (\<lambda>e. CheckStorageError (StorageError_to_string e)) (store_read store s f snapshot None)"

sublocale versioned_store \<subseteq> reader: tuple_reader "StoreTupleReader store s"
    "\<lambda>snap. view s (snapshot_value (current s) snap)"
    "\<lambda>snap. snapshot_value (current s) snap \<le> current s" for s
  by unfold_locales (auto simp: StoreTupleReader_def read_view read_ahead not_le)

end
