(* ===== verification/Metrics.thy ===== *)
theory Metrics
  imports Prelude "HOL-Library.AList"
begin

text \<open>
  \<open>kraalzibar-server/src/metrics.rs\<close>: counters that wrap at 64 bits, latency histograms with
  cumulative buckets, and the Prometheus rendering. Double precision arithmetic is a parameter: its
  literals, addition, comparison, bit encoding and decimal printing. The compare-exchange loop of
  \<open>observe\<close> is one step here, since a failed exchange changes nothing.
\<close>

section \<open>Histograms\<close>

record 'x F64 =
  f64_lit :: "nat \<Rightarrow> nat \<Rightarrow> 'x"
  f64_add :: "'x \<Rightarrow> 'x \<Rightarrow> 'x"
  f64_le :: "'x \<Rightarrow> 'x \<Rightarrow> bool"
  from_bits :: "u64 \<Rightarrow> 'x"
  to_bits :: "'x \<Rightarrow> u64"
  show_f64 :: "'x \<Rightarrow> string"

text \<open>The literal \<open>f64_lit n d\<close> is \<open>n / d\<close>.\<close>

definition BUCKET_BOUNDARIES :: "'x F64 \<Rightarrow> 'x list" where
  "BUCKET_BOUNDARIES F = map (\<lambda>(n, d). f64_lit F n d)
     [(1, 1000), (5, 1000), (1, 100), (25, 1000), (5, 100), (1, 10), (25, 100), (5, 10),
      (1, 1), (25, 10), (5, 1), (10, 1)]"

record Histogram =
  buckets :: "u64 list"
  sum_bits :: u64
  count :: u64

definition Histogram_new :: "'x F64 \<Rightarrow> Histogram" where
  "Histogram_new F = \<lparr>buckets = map (\<lambda>_. 0) [0 ..< length (BUCKET_BOUNDARIES F)], sum_bits = 0, count = 0\<rparr>"

text \<open>The loop over the boundaries, from index \<open>i\<close>.\<close>

fun observe_buckets :: "'x F64 \<Rightarrow> 'x \<Rightarrow> nat \<Rightarrow> 'x list \<Rightarrow> u64 list \<Rightarrow> u64 list" where
  "observe_buckets F v i [] bs = bs"
| "observe_buckets F v i (b # rest) bs =
     observe_buckets F v (Suc i) rest (if f64_le F v b then bs[i := bs ! i + 1] else bs)"

definition observe :: "'x F64 \<Rightarrow> 'x \<Rightarrow> Histogram \<Rightarrow> Histogram" where
  "observe F v h =
     (let h = h\<lparr>count := count h + 1\<rparr>;
          h = h\<lparr>sum_bits := to_bits F (f64_add F (from_bits F (sum_bits h)) v)\<rparr>
      in h\<lparr>buckets := observe_buckets F v 0 (BUCKET_BOUNDARIES F) (buckets h)\<rparr>)"

definition sum_as_f64 :: "'x F64 \<Rightarrow> Histogram \<Rightarrow> 'x" where
  "sum_as_f64 F h = from_bits F (sum_bits h)"

text \<open>An index out of range panics.\<close>

definition bucket_count :: "Histogram \<Rightarrow> nat \<Rightarrow> u64 option" where
  "bucket_count h i = (if i < length (buckets h) then Some (buckets h ! i) else None)"

definition dq :: char where
  "dq = CHR 0x22"

definition nl :: char where
  "nl = CHR 0x0A"

definition method_label :: "string \<Rightarrow> string" where
  "method_label m = ''method='' @ [dq] @ m @ [dq]"

text \<open>The rendering of one bucket panics with \<open>bucket_count\<close>.\<close>

fun render_buckets :: "'x F64 \<Rightarrow> Histogram \<Rightarrow> string \<Rightarrow> string \<Rightarrow> nat \<Rightarrow> 'x list \<Rightarrow> string option" where
  "render_buckets F h name m i [] = Some []"
| "render_buckets F h name m i (b # rest) =
     (case bucket_count h i of
        None \<Rightarrow> None
      | Some n \<Rightarrow> map_option (append (name @ ''_bucket{'' @ method_label m @ '',le='' @ [dq] @ show_f64 F b @ [dq] @
          ''} '' @ show_u64 n @ [nl])) (render_buckets F h name m (Suc i) rest))"

definition Histogram_render :: "'x F64 \<Rightarrow> Histogram \<Rightarrow> string \<Rightarrow> string \<Rightarrow> string option" where
  "Histogram_render F h name m =
     map_option (\<lambda>bs. bs @
         name @ ''_bucket{'' @ method_label m @ '',le='' @ [dq] @ ''+Inf'' @ [dq] @ ''} '' @ show_u64 (count h) @ [nl] @
         name @ ''_sum{'' @ method_label m @ ''} '' @ show_f64 F (sum_as_f64 F h) @ [nl] @
         name @ ''_count{'' @ method_label m @ ''} '' @ show_u64 (count h) @ [nl])
       (render_buckets F h name m 0 (BUCKET_BOUNDARIES F))"

section \<open>Metrics\<close>

record MethodMetrics =
  requests :: u64
  duration :: Histogram

definition MethodMetrics_new :: "'x F64 \<Rightarrow> MethodMetrics" where
  "MethodMetrics_new F = \<lparr>requests = 0, duration = Histogram_new F\<rparr>"

definition MethodMetrics_record :: "'x F64 \<Rightarrow> 'x \<Rightarrow> MethodMetrics \<Rightarrow> MethodMetrics" where
  "MethodMetrics_record F elapsed m =
     (let m = m\<lparr>requests := requests m + 1\<rparr> in m\<lparr>duration := observe F elapsed (duration m)\<rparr>)"

record Metrics =
  request_total :: u64
  request_success :: u64
  request_error :: u64
  schema_cache_hits :: u64
  schema_cache_misses :: u64
  check_cache_hits :: u64
  check_cache_misses :: u64
  method_metrics :: "(string \<times> MethodMetrics) list"

definition Metrics_default :: Metrics where
  "Metrics_default = \<lparr>request_total = 0, request_success = 0, request_error = 0,
     schema_cache_hits = 0, schema_cache_misses = 0, check_cache_hits = 0, check_cache_misses = 0,
     method_metrics = []\<rparr>"

definition record_method_request :: "'x F64 \<Rightarrow> string \<Rightarrow> 'x \<Rightarrow> Metrics \<Rightarrow> Metrics" where
  "record_method_request F m elapsed ms =
     (let mm = (case map_of (method_metrics ms) m of Some x \<Rightarrow> x | None \<Rightarrow> MethodMetrics_new F)
      in ms\<lparr>method_metrics := AList.update m (MethodMetrics_record F elapsed mm) (method_metrics ms)\<rparr>)"

definition record_request :: "Metrics \<Rightarrow> Metrics" where
  "record_request ms = ms\<lparr>request_total := request_total ms + 1\<rparr>"

definition record_success :: "Metrics \<Rightarrow> Metrics" where
  "record_success ms = ms\<lparr>request_success := request_success ms + 1\<rparr>"

definition record_error :: "Metrics \<Rightarrow> Metrics" where
  "record_error ms = ms\<lparr>request_error := request_error ms + 1\<rparr>"

definition record_schema_cache_hit :: "Metrics \<Rightarrow> Metrics" where
  "record_schema_cache_hit ms = ms\<lparr>schema_cache_hits := schema_cache_hits ms + 1\<rparr>"

definition record_schema_cache_miss :: "Metrics \<Rightarrow> Metrics" where
  "record_schema_cache_miss ms = ms\<lparr>schema_cache_misses := schema_cache_misses ms + 1\<rparr>"

definition record_check_cache_hit :: "Metrics \<Rightarrow> Metrics" where
  "record_check_cache_hit ms = ms\<lparr>check_cache_hits := check_cache_hits ms + 1\<rparr>"

definition record_check_cache_miss :: "Metrics \<Rightarrow> Metrics" where
  "record_check_cache_miss ms = ms\<lparr>check_cache_misses := check_cache_misses ms + 1\<rparr>"

section \<open>Prometheus text\<close>

definition counter_block :: "string \<Rightarrow> string \<Rightarrow> u64 \<Rightarrow> string" where
  "counter_block name help v =
     ''# HELP '' @ name @ '' '' @ help @ [nl] @ ''# TYPE '' @ name @ '' counter'' @ [nl] @
     name @ '' '' @ show_u64 v @ [nl]"

definition method_lines :: "(string \<times> MethodMetrics) list \<Rightarrow> string list \<Rightarrow> string" where
  "method_lines ms methods = concat (map (\<lambda>m. case map_of ms m of
       Some mm \<Rightarrow> ''kraalzibar_method_requests_total{'' @ method_label m @ ''} '' @ show_u64 (requests mm) @ [nl]
     | None \<Rightarrow> []) methods)"

fun method_histograms :: "'x F64 \<Rightarrow> (string \<times> MethodMetrics) list \<Rightarrow> string list \<Rightarrow> string option" where
  "method_histograms F ms [] = Some []"
| "method_histograms F ms (m # rest) =
     (case map_of ms m of
        None \<Rightarrow> None
      | Some mm \<Rightarrow>
          (case Histogram_render F (duration mm) ''kraalzibar_request_duration_seconds'' m of
             None \<Rightarrow> None
           | Some t \<Rightarrow> map_option (append t) (method_histograms F ms rest)))"

definition render_counters :: "Metrics \<Rightarrow> string" where
  "render_counters ms =
     counter_block ''kraalzibar_requests_total'' ''Total number of requests.'' (request_total ms) @
     counter_block ''kraalzibar_requests_success_total'' ''Total successful requests.'' (request_success ms) @
     counter_block ''kraalzibar_requests_error_total'' ''Total failed requests.'' (request_error ms) @
     counter_block ''kraalzibar_schema_cache_hits_total'' ''Schema cache hits.'' (schema_cache_hits ms) @
     counter_block ''kraalzibar_schema_cache_misses_total'' ''Schema cache misses.'' (schema_cache_misses ms) @
     counter_block ''kraalzibar_check_cache_hits_total'' ''Check cache hits.'' (check_cache_hits ms) @
     counter_block ''kraalzibar_check_cache_misses_total'' ''Check cache misses.'' (check_cache_misses ms)"

definition render_prometheus :: "'x F64 \<Rightarrow> Metrics \<Rightarrow> string option" where
  "render_prometheus F ms =
     (let methods = sort (map fst (method_metrics ms))
      in if methods \<noteq> [] then
           map_option (\<lambda>hs. render_counters ms @
               ''# HELP kraalzibar_method_requests_total Total requests per method.'' @ [nl] @
               ''# TYPE kraalzibar_method_requests_total counter'' @ [nl] @
               method_lines (method_metrics ms) methods @
               ''# HELP kraalzibar_request_duration_seconds Request duration histogram.'' @ [nl] @
               ''# TYPE kraalzibar_request_duration_seconds histogram'' @ [nl] @ hs)
             (method_histograms F (method_metrics ms) methods)
         else Some (render_counters ms))"

section \<open>The buckets are cumulative\<close>

text \<open>What the histogram relies on of the comparison: it is transitive along the boundaries.\<close>

definition f64_ordered :: "'x F64 \<Rightarrow> bool" where
  "f64_ordered F \<longleftrightarrow> (\<forall>v. sorted_wrt (\<lambda>a b. f64_le F v a \<longrightarrow> f64_le F v b) (BUCKET_BOUNDARIES F))"

text \<open>
  After the values \<open>vs\<close>, bucket \<open>i\<close> counts those at most its boundary and \<open>count\<close> counts all, modulo
  \<open>2\<^sup>6\<^sup>4\<close>.
\<close>

definition histogram_of :: "'x F64 \<Rightarrow> 'x list \<Rightarrow> Histogram \<Rightarrow> bool" where
  "histogram_of F vs h \<longleftrightarrow>
     buckets h = map (\<lambda>b. of_nat (length (filter (\<lambda>v. f64_le F v b) vs))) (BUCKET_BOUNDARIES F) \<and>
     count h = of_nat (length vs)"

lemma observe_buckets_zip:
  "length pre + length bs = length cs \<Longrightarrow> i = length pre \<Longrightarrow>
     observe_buckets F v i bs cs =
       take i cs @ map2 (\<lambda>b c. if f64_le F v b then c + 1 else c) bs (drop i cs)"
proof (induction bs arbitrary: i cs pre)
  case (Cons b bs)
  then have i: "i < length cs" by simp
  let ?cs = "if f64_le F v b then cs[i := cs ! i + 1] else cs"
  have "observe_buckets F v (Suc i) bs ?cs =
      take (Suc i) ?cs @ map2 (\<lambda>b c. if f64_le F v b then c + 1 else c) bs (drop (Suc i) ?cs)"
    by (rule Cons.IH [of "pre @ [undefined]"]) (use Cons.prems in auto)
  with i show ?case
    by (auto simp: take_Suc_conv_app_nth Cons_nth_drop_Suc [symmetric, of i cs] simp del: Cons_nth_drop_Suc)
qed simp

lemma histogram_of_new: "histogram_of F [] (Histogram_new F)"
  by (simp add: histogram_of_def Histogram_new_def map_replicate_const)

lemma histogram_of_observe:
  assumes "histogram_of F vs h"
  shows "histogram_of F (v # vs) (observe F v h)"
proof -
  let ?B = "BUCKET_BOUNDARIES F"
  from assms have b: "buckets h = map (\<lambda>b. of_nat (length (filter (\<lambda>v. f64_le F v b) vs))) ?B"
    and c: "count h = of_nat (length vs)"
    by (simp_all add: histogram_of_def)
  have "observe_buckets F v 0 ?B (buckets h) = map2 (\<lambda>b c. if f64_le F v b then c + 1 else c) ?B (buckets h)"
    using observe_buckets_zip [of "[]" ?B "buckets h" 0 F v] b by simp
  also have "\<dots> = map (\<lambda>b. of_nat (length (filter (\<lambda>v. f64_le F v b) (v # vs)))) ?B"
    by (rule nth_equalityI) (auto simp: b add.commute)
  finally show ?thesis by (simp add: histogram_of_def observe_def Let_def c add.commute)
qed

lemma histogram_of_observations: "histogram_of F vs (foldr (observe F) vs (Histogram_new F))"
  by (induction vs) (auto simp: histogram_of_new histogram_of_observe)

lemma cumulative_le:
  assumes "f64_ordered F" "i < j" "j < length (BUCKET_BOUNDARIES F)"
  shows "length (filter (\<lambda>v. f64_le F v (BUCKET_BOUNDARIES F ! i)) vs) \<le>
    length (filter (\<lambda>v. f64_le F v (BUCKET_BOUNDARIES F ! j)) vs)"
  using assms by (induction vs) (auto simp: f64_ordered_def sorted_wrt_iff_nth_less)

section \<open>Rendering never panics\<close>

lemma length_observe_buckets [simp]: "length (observe_buckets F v i bs cs) = length cs"
  by (induction F v i bs cs rule: observe_buckets.induct) auto

lemma render_buckets_total:
  "i + length bs \<le> length (buckets h) \<Longrightarrow> \<exists>t. render_buckets F h name m i bs = Some t"
  by (induction F h name m i bs rule: render_buckets.induct) (auto simp: bucket_count_def)

definition metrics_ok :: "'x F64 \<Rightarrow> Metrics \<Rightarrow> bool" where
  "metrics_ok F ms \<longleftrightarrow> distinct (map fst (method_metrics ms)) \<and>
     (\<forall>(m, mm)\<in>set (method_metrics ms). length (buckets (duration mm)) = length (BUCKET_BOUNDARIES F))"

lemma metrics_ok_default: "metrics_ok F Metrics_default"
  by (simp add: metrics_ok_def Metrics_default_def)

lemma length_buckets_record:
  "length (buckets (duration (MethodMetrics_record F e mm))) = length (buckets (duration mm))"
  by (simp add: MethodMetrics_record_def observe_def Let_def)

lemma set_alist_update: "p \<in> set (AList.update k v xs) \<Longrightarrow> p = (k, v) \<or> p \<in> set xs"
  by (induction xs) (auto split: if_splits)

lemma metrics_ok_record_method:
  assumes "metrics_ok F ms"
  shows "metrics_ok F (record_method_request F m e ms)"
proof -
  have "length (buckets (duration mm)) = length (BUCKET_BOUNDARIES F)"
    if "map_of (method_metrics ms) m = Some mm" for mm
    using assms map_of_SomeD [OF that] by (auto simp: metrics_ok_def)
  then have new: "length (buckets (duration (MethodMetrics_record F e
      (case map_of (method_metrics ms) m of Some x \<Rightarrow> x | None \<Rightarrow> MethodMetrics_new F)))) = length (BUCKET_BOUNDARIES F)"
    by (auto simp: length_buckets_record MethodMetrics_new_def Histogram_new_def split: option.splits)
  with assms show ?thesis
    by (auto simp: metrics_ok_def record_method_request_def distinct_update dest!: set_alist_update)
qed

lemma method_histograms_total:
  assumes "metrics_ok F ms" "set xs \<subseteq> fst ` set (method_metrics ms)"
  shows "\<exists>t. method_histograms F (method_metrics ms) xs = Some t"
  using assms(2)
proof (induction xs)
  case (Cons m xs)
  then obtain mm where mm: "map_of (method_metrics ms) m = Some mm"
    by (metis list.set_intros(1) map_of_eq_None_iff not_Some_eq subsetD)
  with assms(1) map_of_SomeD [OF mm] render_buckets_total [of 0 "BUCKET_BOUNDARIES F" "duration mm" F]
  have "\<exists>t. Histogram_render F (duration mm) ''kraalzibar_request_duration_seconds'' m = Some t"
    by (force simp: metrics_ok_def Histogram_render_def)
  with mm Cons show ?case by auto
qed simp

lemma render_prometheus_total: "metrics_ok F ms \<Longrightarrow> \<exists>t. render_prometheus F ms = Some t"
  using method_histograms_total [of F ms "sort (map fst (method_metrics ms))"]
  by (auto simp: render_prometheus_def Let_def)

section \<open>Properties of the metrics\<close>

text \<open>
  C25. The buckets of a histogram are cumulative: after any observations, fewer than \<open>2\<^sup>6\<^sup>4\<close> of them, a
  bucket counts no more than a bucket with a larger boundary, and none more than the total count,
  provided the comparison of doubles is transitive along the boundaries.
\<close>

theorem histogram_cumulative:
  assumes "f64_ordered F" "length vs < 2 ^ 64" "i < j" "j < length (BUCKET_BOUNDARIES F)"
    and "h = foldr (observe F) vs (Histogram_new F)"
  shows "buckets h ! i \<le> buckets h ! j \<and> buckets h ! j \<le> count h"
proof -
  let ?n = "\<lambda>i. length (filter (\<lambda>v. f64_le F v (BUCKET_BOUNDARIES F ! i)) vs)"
  have le: "?n i \<le> ?n j" "?n j \<le> length vs" using cumulative_le [OF assms(1,3,4)] by simp_all
  have u: "(of_nat m :: u64) \<le> of_nat n" if "m \<le> n" "n \<le> length vs" for m n
    using that assms(2) by (simp add: word_le_nat_alt unat_of_nat)
  from histogram_of_observations [of F vs] assms(3,4) u [OF le] u [OF le(2) order_refl]
  show ?thesis by (simp add: histogram_of_def assms(5))
qed

text \<open>Doubles that are whole milliseconds, to instantiate the theorem.\<close>

definition demo_f64 :: "nat F64" where
  "demo_f64 = \<lparr>f64_lit = (\<lambda>n d. n * 1000 div d), f64_add = (+), f64_le = (\<le>), from_bits = unat,
     to_bits = of_nat, show_f64 = show_nat\<rparr>"

theorem histogram_cumulative_witness:
  "buckets (foldr (observe demo_f64) [3, 70, 20000] (Histogram_new demo_f64)) ! 0 \<le>
     buckets (foldr (observe demo_f64) [3, 70, 20000] (Histogram_new demo_f64)) ! 11 \<and>
   buckets (foldr (observe demo_f64) [3, 70, 20000] (Histogram_new demo_f64)) ! 11 \<le>
     count (foldr (observe demo_f64) [3, 70, 20000] (Histogram_new demo_f64)) \<and>
   buckets (foldr (observe demo_f64) [3, 70, 20000] (Histogram_new demo_f64)) =
     [0, 1, 1, 1, 1, 2, 2, 2, 2, 2, 2, 2]"
proof -
  have o: "f64_ordered demo_f64" by (auto simp: f64_ordered_def demo_f64_def BUCKET_BOUNDARIES_def)
  have l: "(11 :: nat) < length (BUCKET_BOUNDARIES demo_f64)" by (simp add: BUCKET_BOUNDARIES_def)
  have b: "buckets (foldr (observe demo_f64) [3, 70, 20000] (Histogram_new demo_f64)) =
     [0, 1, 1, 1, 1, 2, 2, 2, 2, 2, 2, 2]"
    using histogram_of_observations [of demo_f64 "[3, 70, 20000]", unfolded histogram_of_def]
    by (simp add: demo_f64_def BUCKET_BOUNDARIES_def del: foldr.simps foldr_Cons)
  from histogram_cumulative [OF o _ _ l refl, of "[3, 70, 20000]" 0] b show ?thesis by simp
qed

text \<open>
  C26. Recording requests never makes the Prometheus endpoint panic: from the initial metrics, after
  any requests recorded under any method names, rendering succeeds.
\<close>

theorem render_after_requests:
  "\<exists>t. render_prometheus F (fold (\<lambda>(m, e). record_method_request F m e) reqs Metrics_default) = Some t"
proof -
  have "metrics_ok F (fold (\<lambda>(m, e). record_method_request F m e) reqs ms)" if "metrics_ok F ms" for ms
    using that by (induction reqs arbitrary: ms) (auto simp: metrics_ok_record_method)
  then show ?thesis by (blast intro: render_prometheus_total metrics_ok_default)
qed

end
