(* ===== verification/Schema_Parser.thy ===== *)
theory Schema_Parser
  imports Schemas "HOL-Library.Monad_Syntax"
begin

text \<open>
  \<open>kraalzibar-core/src/schema/grammar.pest\<close> and \<open>parser.rs\<close>: the grammar as a PEG recogniser that
  builds the pair tree of the pest library, one function per grammar rule, and the functions of
  \<open>parser.rs\<close> that turn the tree into a schema. In a rule that is not atomic, pest skips white space
  and comments between the elements of a sequence and between the rounds of a repetition; \<open>skip\<close> is
  that step. The text of pest's own error message is the parameter \<open>pest_error\<close>.
\<close>

section \<open>Pair trees\<close>

datatype Rule =
    R_schema | R_definition | R_definition_body | R_relation_def | R_subject_type_list
  | R_subject_type_ref | R_permission_def | R_permission_expr | R_union_op | R_intersection_op
  | R_exclusion_op | R_permission_term | R_arrow_expr | R_identifier | R_EOI

datatype Pair = Pair (as_rule: Rule) (as_str: string) (into_inner: "Pair list")

section \<open>Tokens\<close>

definition is_whitespace :: "char \<Rightarrow> bool" where
  "is_whitespace c \<longleftrightarrow> c = CHR '' '' \<or> c = CHR 0x09 \<or> c = CHR 0x0A \<or> c = CHR 0x0D"

definition is_newline :: "char \<Rightarrow> bool" where
  "is_newline c \<longleftrightarrow> c = CHR 0x0A \<or> c = CHR 0x0D"

text \<open>\<open>(WHITESPACE* ~ (COMMENT ~ WHITESPACE*)*)\<close>, with a comment running up to a newline.\<close>

fun skip :: "string \<Rightarrow> string" and skip_comment :: "string \<Rightarrow> string" where
  "skip [] = []"
| "skip (c # cs) =
     (if is_whitespace c then skip cs
      else if c = CHR ''/'' then
        (case cs of d # ds \<Rightarrow> if d = CHR ''/'' then skip_comment ds else c # cs | [] \<Rightarrow> c # cs)
      else c # cs)"
| "skip_comment [] = []"
| "skip_comment (c # cs) = (if is_newline c then skip cs else skip_comment cs)"

definition is_ascii_alpha :: "char \<Rightarrow> bool" where
  "is_ascii_alpha c \<longleftrightarrow> (65 \<le> (of_char c :: nat) \<and> (of_char c :: nat) \<le> 90) \<or>
     (97 \<le> (of_char c :: nat) \<and> (of_char c :: nat) \<le> 122)"

definition is_ident_char :: "char \<Rightarrow> bool" where
  "is_ident_char c \<longleftrightarrow> is_ascii_alpha c \<or> is_digit c \<or> c = CHR ''_''"

text \<open>The text a rule consumed.\<close>

definition span :: "string \<Rightarrow> string \<Rightarrow> string" where
  "span s r = take (length s - length r) s"

text \<open>
  Repetition: \<open>rep0\<close> runs a recogniser until it fails, leaving the input where the failing round
  began. Every rule of the grammar consumes input (\<open>g_consumes\<close> below), so the test on the lengths,
  which makes the recursion total, never decides.
\<close>

function rep0 :: "(string \<Rightarrow> (Pair list \<times> string) option) \<Rightarrow> string \<Rightarrow> Pair list \<times> string" where
  "rep0 q s =
     (case q s of
        None \<Rightarrow> ([], s)
      | Some (ps, r) \<Rightarrow>
          if length r < length s then (let (qs, t) = rep0 q r in (ps @ qs, t)) else (ps, r))"
  by pat_completeness auto
termination
  by (relation "measure (\<lambda>(q, s). length s)") auto

declare rep0.simps [simp del]

definition rep :: "(string \<Rightarrow> (Pair list \<times> string) option) \<Rightarrow> string \<Rightarrow> Pair list \<times> string" where
  "rep q s =
     (case q s of
        None \<Rightarrow> ([], s)
      | Some (ps, r) \<Rightarrow> (let (qs, t) = rep0 (\<lambda>x. q (skip x)) r in (ps @ qs, t)))"

section \<open>The grammar\<close>

definition g_identifier :: "string \<Rightarrow> (Pair \<times> string) option" where
  "g_identifier s =
     (case s of
        [] \<Rightarrow> None
      | c # cs \<Rightarrow>
          if is_ascii_alpha c
          then Some (Pair R_identifier (c # takeWhile is_ident_char cs) [], dropWhile is_ident_char cs)
          else None)"

definition g_subject_type_ref :: "string \<Rightarrow> (Pair \<times> string) option" where
  "g_subject_type_ref s = do {
     (i, r1) \<leftarrow> g_identifier s;
     let r1 = skip r1;
     let (js, r3) = (case (do { r2 \<leftarrow> strip_prefix ''#'' r1; g_identifier (skip r2) }) of
        Some (j, r3) \<Rightarrow> ([j], r3) | None \<Rightarrow> ([], r1));
     Some (Pair R_subject_type_ref (span s r3) (i # js), r3)
   }"

definition g_alternative :: "string \<Rightarrow> (Pair list \<times> string) option" where
  "g_alternative s = do {
     r1 \<leftarrow> strip_prefix ''|'' s;
     (p, r2) \<leftarrow> g_subject_type_ref (skip r1);
     Some ([p], r2)
   }"

definition g_subject_type_list :: "string \<Rightarrow> (Pair \<times> string) option" where
  "g_subject_type_list s = do {
     (p, r1) \<leftarrow> g_subject_type_ref s;
     let (ps, r2) = rep g_alternative (skip r1);
     Some (Pair R_subject_type_list (span s r2) (p # ps), r2)
   }"

definition g_relation_def :: "string \<Rightarrow> (Pair \<times> string) option" where
  "g_relation_def s = do {
     r1 \<leftarrow> strip_prefix ''relation'' s;
     (i, r2) \<leftarrow> g_identifier (skip r1);
     r3 \<leftarrow> strip_prefix '':'' (skip r2);
     (l, r4) \<leftarrow> g_subject_type_list (skip r3);
     Some (Pair R_relation_def (span s r4) [i, l], r4)
   }"

definition g_arrow_expr :: "string \<Rightarrow> (Pair \<times> string) option" where
  "g_arrow_expr s = do {
     (i, r1) \<leftarrow> g_identifier s;
     r2 \<leftarrow> strip_prefix ''->'' (skip r1);
     (j, r3) \<leftarrow> g_identifier (skip r2);
     Some (Pair R_arrow_expr (span s r3) [i, j], r3)
   }"

definition g_permission_term :: "string \<Rightarrow> (Pair \<times> string) option" where
  "g_permission_term s = do {
     (p, r) \<leftarrow> (case g_arrow_expr s of Some x \<Rightarrow> Some x | None \<Rightarrow> g_identifier s);
     Some (Pair R_permission_term (span s r) [p], r)
   }"

definition g_permission_op :: "string \<Rightarrow> (Pair \<times> string) option" where
  "g_permission_op s =
     (case strip_prefix ''+'' s of
        Some r \<Rightarrow> Some (Pair R_union_op ''+'' [], r)
      | None \<Rightarrow> (case strip_prefix ''&'' s of
          Some r \<Rightarrow> Some (Pair R_intersection_op ''&'' [], r)
        | None \<Rightarrow> (case strip_prefix ''-'' s of
            Some r \<Rightarrow> Some (Pair R_exclusion_op ''-'' [], r)
          | None \<Rightarrow> None)))"

definition g_op_term :: "string \<Rightarrow> (Pair list \<times> string) option" where
  "g_op_term s = do {
     (p, r1) \<leftarrow> g_permission_op s;
     (t, r2) \<leftarrow> g_permission_term (skip r1);
     Some ([p, t], r2)
   }"

definition g_permission_expr :: "string \<Rightarrow> (Pair \<times> string) option" where
  "g_permission_expr s = do {
     (t, r1) \<leftarrow> g_permission_term s;
     let (ps, r2) = rep g_op_term (skip r1);
     Some (Pair R_permission_expr (span s r2) (t # ps), r2)
   }"

definition g_permission_def :: "string \<Rightarrow> (Pair \<times> string) option" where
  "g_permission_def s = do {
     r1 \<leftarrow> strip_prefix ''permission'' s;
     (i, r2) \<leftarrow> g_identifier (skip r1);
     r3 \<leftarrow> strip_prefix ''='' (skip r2);
     (e, r4) \<leftarrow> g_permission_expr (skip r3);
     Some (Pair R_permission_def (span s r4) [i, e], r4)
   }"

definition g_body_item :: "string \<Rightarrow> (Pair list \<times> string) option" where
  "g_body_item s = do {
     (p, r) \<leftarrow> (case g_relation_def s of Some x \<Rightarrow> Some x | None \<Rightarrow> g_permission_def s);
     Some ([p], r)
   }"

definition g_definition_body :: "string \<Rightarrow> Pair \<times> string" where
  "g_definition_body s =
     (let (ps, r) = rep g_body_item s in (Pair R_definition_body (span s r) ps, r))"

definition g_definition :: "string \<Rightarrow> (Pair \<times> string) option" where
  "g_definition s = do {
     r1 \<leftarrow> strip_prefix ''definition'' s;
     (i, r2) \<leftarrow> g_identifier (skip r1);
     r3 \<leftarrow> strip_prefix ''{'' (skip r2);
     let (b, r4) = g_definition_body (skip r3);
     r5 \<leftarrow> strip_prefix ''}'' (skip r4);
     Some (Pair R_definition (span s r5) [i, b], r5)
   }"

definition g_definition_item :: "string \<Rightarrow> (Pair list \<times> string) option" where
  "g_definition_item s = do { (p, r) \<leftarrow> g_definition s; Some ([p], r) }"

definition g_schema :: "string \<Rightarrow> Pair option" where
  "g_schema s =
     (let (ps, r) = rep g_definition_item (skip s)
      in if skip r = [] then Some (Pair R_schema s (ps @ [Pair R_EOI [] []])) else None)"

section \<open>From pairs to a schema\<close>

datatype ParseError =
    Syntax string
  | MixedOperators
  | MultipleExclusions
  | DuplicateType string
  | DuplicateRelation string string
  | DuplicatePermission string string

fun ParseError_to_string :: "ParseError \<Rightarrow> string" where
  "ParseError_to_string (Syntax m) = ''syntax error: '' @ m"
| "ParseError_to_string MixedOperators =
     ''mixed operators in permission expression: use only one of +, &, - per expression''"
| "ParseError_to_string MultipleExclusions =
     ''exclusion (-) supports exactly two operands: base - excluded''"
| "ParseError_to_string (DuplicateType t) = ''duplicate type: '' @ t"
| "ParseError_to_string (DuplicateRelation tn r) =
     ''duplicate relation '' @ quoted r @ '' in type '' @ quoted tn"
| "ParseError_to_string (DuplicatePermission tn p) =
     ''duplicate permission '' @ quoted p @ '' in type '' @ quoted tn"

fun Rule_debug :: "Rule \<Rightarrow> string" where
  "Rule_debug R_schema = ''schema''"
| "Rule_debug R_definition = ''definition''"
| "Rule_debug R_definition_body = ''definition_body''"
| "Rule_debug R_relation_def = ''relation_def''"
| "Rule_debug R_subject_type_list = ''subject_type_list''"
| "Rule_debug R_subject_type_ref = ''subject_type_ref''"
| "Rule_debug R_permission_def = ''permission_def''"
| "Rule_debug R_permission_expr = ''permission_expr''"
| "Rule_debug R_union_op = ''union_op''"
| "Rule_debug R_intersection_op = ''intersection_op''"
| "Rule_debug R_exclusion_op = ''exclusion_op''"
| "Rule_debug R_permission_term = ''permission_term''"
| "Rule_debug R_arrow_expr = ''arrow_expr''"
| "Rule_debug R_identifier = ''identifier''"
| "Rule_debug R_EOI = ''EOI''"

definition unexpected_rule :: "Rule \<Rightarrow> ParseError" where
  "unexpected_rule r = Syntax (''unexpected rule: '' @ Rule_debug r)"

definition missing_token :: "string \<Rightarrow> ParseError" where
  "missing_token ctx = Syntax (''missing token: '' @ ctx)"

text \<open>\<open>inner.next().ok_or_else(|| missing_token(context))?\<close> on the pairs still to come.\<close>

definition next_pair :: "string \<Rightarrow> Pair list \<Rightarrow> ParseError + (Pair \<times> Pair list)" where
  "next_pair ctx ps = (case ps of [] \<Rightarrow> Inl (missing_token ctx) | p # rest \<Rightarrow> Inr (p, rest))"

definition parse_permission_term :: "Pair \<Rightarrow> ParseError + RewriteRule" where
  "parse_permission_term pair =
     and_then (next_pair ''permission term content'' (into_inner pair)) (\<lambda>(inner, _).
       if as_rule inner = R_arrow_expr then
         and_then (next_pair ''arrow tupleset'' (into_inner inner)) (\<lambda>(t, parts).
         and_then (next_pair ''arrow computed'' parts) (\<lambda>(c, _).
           Inr (RArrow (as_str t) (as_str c))))
       else if as_rule inner = R_identifier then Inr (RThis (as_str inner))
       else Inl (unexpected_rule (as_rule inner)))"

text \<open>The \<open>while let Some(op) = inner.next()\<close> loop.\<close>

fun parse_ops_and_terms :: "Pair list \<Rightarrow> ParseError + (Rule \<times> RewriteRule) list" where
  "parse_ops_and_terms [] = Inr []"
| "parse_ops_and_terms [op] = Inl (missing_token ''permission term after operator'')"
| "parse_ops_and_terms (op # t # rest) =
     and_then (parse_permission_term t) (\<lambda>term.
     and_then (parse_ops_and_terms rest) (\<lambda>xs. Inr ((as_rule op, term) # xs)))"

definition combine_ops :: "RewriteRule \<Rightarrow> (Rule \<times> RewriteRule) list \<Rightarrow> ParseError + RewriteRule" where
  "combine_ops first ops_and_terms =
     (case ops_and_terms of
        [] \<Rightarrow> Inr first
      | (first_op, second) # _ \<Rightarrow>
          if list_ex (\<lambda>(op, _). op \<noteq> first_op) ops_and_terms then Inl MixedOperators
          else if first_op = R_union_op then Inr (RUnion (first # map snd ops_and_terms))
          else if first_op = R_intersection_op then Inr (RIntersection (first # map snd ops_and_terms))
          else if first_op = R_exclusion_op then
            if length ops_and_terms \<noteq> 1 then Inl MultipleExclusions
            else Inr (RExclusion first second)
          else Inl (unexpected_rule first_op))"

definition parse_permission_expr :: "Pair \<Rightarrow> ParseError + RewriteRule" where
  "parse_permission_expr pair =
     and_then (next_pair ''permission term'' (into_inner pair)) (\<lambda>(t, rest).
     and_then (parse_permission_term t) (\<lambda>first.
     and_then (parse_ops_and_terms rest) (\<lambda>ops_and_terms.
       combine_ops first ops_and_terms)))"

definition parse_permission_def :: "Pair \<Rightarrow> ParseError + PermissionDef" where
  "parse_permission_def pair =
     and_then (next_pair ''permission name'' (into_inner pair)) (\<lambda>(n, rest).
     and_then (next_pair ''permission expression'' rest) (\<lambda>(e, _).
     and_then (parse_permission_expr e) (\<lambda>rule.
       Inr \<lparr>perm_name = as_str n, perm_rule = rule\<rparr>)))"

definition parse_subject_type_ref :: "Pair \<Rightarrow> ParseError + SubjectTypeRef" where
  "parse_subject_type_ref pair =
     and_then (next_pair ''subject type name'' (into_inner pair)) (\<lambda>(n, rest).
       Inr \<lparr>str_type_name = as_str n,
            str_relation = (case rest of p # _ \<Rightarrow> Some (as_str p) | [] \<Rightarrow> None)\<rparr>)"

definition parse_relation_def :: "Pair \<Rightarrow> ParseError + RelationDef" where
  "parse_relation_def pair =
     and_then (next_pair ''relation name'' (into_inner pair)) (\<lambda>(n, rest).
     and_then (next_pair ''subject type list'' rest) (\<lambda>(l, _).
     and_then (try_map parse_subject_type_ref (into_inner l)) (\<lambda>subject_types.
       Inr \<lparr>rel_name = as_str n, rel_subject_types = subject_types\<rparr>)))"

text \<open>The loop over the items of a body, with its two \<open>HashSet\<close>s and its two result vectors.\<close>

fun parse_items ::
  "string \<Rightarrow> Pair list \<Rightarrow> string set \<Rightarrow> string set \<Rightarrow> RelationDef list \<Rightarrow> PermissionDef list \<Rightarrow>
     ParseError + (RelationDef list \<times> PermissionDef list)"
where
  "parse_items name [] seen_relations seen_permissions rels perms = Inr (rels, perms)"
| "parse_items name (item # items) seen_relations seen_permissions rels perms =
     (if as_rule item = R_relation_def then
        and_then (parse_relation_def item) (\<lambda>rel.
          if rel_name rel \<in> seen_relations then Inl (DuplicateRelation name (rel_name rel))
          else parse_items name items (insert (rel_name rel) seen_relations) seen_permissions
                 (rels @ [rel]) perms)
      else if as_rule item = R_permission_def then
        and_then (parse_permission_def item) (\<lambda>perm.
          if perm_name perm \<in> seen_permissions then Inl (DuplicatePermission name (perm_name perm))
          else parse_items name items seen_relations (insert (perm_name perm) seen_permissions)
                 rels (perms @ [perm]))
      else parse_items name items seen_relations seen_permissions rels perms)"

definition parse_definition :: "Pair \<Rightarrow> ParseError + TypeDefinition" where
  "parse_definition pair =
     and_then (next_pair ''definition name'' (into_inner pair)) (\<lambda>(n, rest).
     and_then (next_pair ''definition body'' rest) (\<lambda>(body, _).
     and_then (parse_items (as_str n) (into_inner body) {} {} [] []) (\<lambda>(rels, perms).
       Inr \<lparr>type_name = as_str n, relations = rels, permissions = perms\<rparr>)))"

fun parse_types :: "Pair list \<Rightarrow> string set \<Rightarrow> TypeDefinition list \<Rightarrow> ParseError + TypeDefinition list" where
  "parse_types [] seen_types ts = Inr ts"
| "parse_types (inner # rest) seen_types ts =
     (if as_rule inner = R_definition then
        and_then (parse_definition inner) (\<lambda>type_def.
          if type_name type_def \<in> seen_types then Inl (DuplicateType (type_name type_def))
          else parse_types rest (insert (type_name type_def) seen_types) (ts @ [type_def]))
      else parse_types rest seen_types ts)"

definition parse_schema :: "(string \<Rightarrow> string) \<Rightarrow> string \<Rightarrow> ParseError + Schema" where
  "parse_schema pest_error input =
     (case g_schema input of
        None \<Rightarrow> Inl (Syntax (pest_error input))
      | Some pair \<Rightarrow>
          and_then (parse_types (into_inner pair) {} []) (\<lambda>ts. Inr \<lparr>types = ts\<rparr>))"

end
