(* ===== verification/Schema_Parser_Correct.thy ===== *)
theory Schema_Parser_Correct
  imports Schema_Parser
begin

text \<open>
  What the parser guarantees. A schema it returns is well formed (unique names, identifiers of the
  grammar's shape, flat permission rules with one operator), and once the grammar has accepted the
  text the internal errors of \<open>parser.rs\<close> ("missing token", "unexpected rule") cannot occur.
\<close>

section \<open>Well-formed schemas\<close>

definition valid_ident :: "string \<Rightarrow> bool" where
  "valid_ident n = (case n of [] \<Rightarrow> False | c # cs \<Rightarrow> is_ascii_alpha c \<and> list_all is_ident_char cs)"

fun wf_term :: "RewriteRule \<Rightarrow> bool" where
  "wf_term (RThis n) = valid_ident n"
| "wf_term (RArrow a b) = (valid_ident a \<and> valid_ident b)"
| "wf_term _ = False"

fun wf_rule :: "RewriteRule \<Rightarrow> bool" where
  "wf_rule (RUnion ts) = (2 \<le> length ts \<and> list_all wf_term ts)"
| "wf_rule (RIntersection ts) = (2 \<le> length ts \<and> list_all wf_term ts)"
| "wf_rule (RExclusion a b) = (wf_term a \<and> wf_term b)"
| "wf_rule t = wf_term t"

definition wf_subject_type :: "SubjectTypeRef \<Rightarrow> bool" where
  "wf_subject_type s \<longleftrightarrow> valid_ident (str_type_name s) \<and> pred_option valid_ident (str_relation s)"

definition wf_relation :: "RelationDef \<Rightarrow> bool" where
  "wf_relation r \<longleftrightarrow> valid_ident (rel_name r) \<and> rel_subject_types r \<noteq> [] \<and>
     list_all wf_subject_type (rel_subject_types r)"

definition wf_permission :: "PermissionDef \<Rightarrow> bool" where
  "wf_permission p \<longleftrightarrow> valid_ident (perm_name p) \<and> wf_rule (perm_rule p)"

definition wf_type :: "TypeDefinition \<Rightarrow> bool" where
  "wf_type td \<longleftrightarrow> valid_ident (type_name td) \<and>
     distinct (map rel_name (relations td)) \<and> list_all wf_relation (relations td) \<and>
     distinct (map perm_name (permissions td)) \<and> list_all wf_permission (permissions td)"

definition wf_schema :: "Schema \<Rightarrow> bool" where
  "wf_schema s \<longleftrightarrow> distinct (map type_name (types s)) \<and> list_all wf_type (types s)"

section \<open>Rules of the grammar consume input\<close>

lemma skip_length: "length (skip s) \<le> length s" "length (skip_comment s) \<le> length s"
proof (induction s and s rule: skip_skip_comment.induct)
  case (2 c cs)
  then show ?case by (cases cs) (simp_all add: le_SucI)
next
  case (4 c cs)
  then show ?case by (simp add: le_SucI)
qed simp_all

lemma strip_prefix_length: "strip_prefix p s = Some r \<Longrightarrow> length s = length p + length r"
  by (simp add: strip_prefix_Some)

lemma dropWhile_length: "length (dropWhile P xs) \<le> length xs"
  by (induction xs) auto

lemma g_identifier_consumes: "g_identifier s = Some (p, r) \<Longrightarrow> length r < length s"
  by (auto simp: g_identifier_def less_Suc_eq_le dropWhile_length split: list.splits if_splits)

lemma rep0_length: "snd (rep0 q s) = r \<Longrightarrow> length r \<le> length s \<or> (\<exists>ps s' t. q s' = Some (ps, t) \<and> length s' \<le> length t)"
proof (induction q s arbitrary: r rule: rep0.induct)
  case (1 q s)
  show ?case
  proof (cases "q s")
    case None
    with "1.prems" show ?thesis by (simp add: rep0.simps [of q s])
  next
    case (Some x)
    obtain ps t where x: "x = (ps, t)" by fastforce
    show ?thesis
    proof (cases "length t < length s")
      case True
      with "1.prems" Some x have "snd (rep0 q t) = r"
        by (simp add: rep0.simps [of q s] split: prod.splits)
      with "1.IH" [OF Some x [symmetric] True] True show ?thesis by fastforce
    next
      case False
      with Some x show ?thesis by (auto simp: not_less)
    qed
  qed
qed

lemma rep_length:
  assumes "\<And>s ps t. q s = Some (ps, t) \<Longrightarrow> length t < length s"
  shows "length (snd (rep q s)) \<le> length s"
proof (cases "q s")
  case None
  then show ?thesis by (simp add: rep_def)
next
  case (Some x)
  obtain ps t where x: "x = (ps, t)" by fastforce
  have "length (snd (rep0 (\<lambda>x. q (skip x)) t)) \<le> length t"
    using rep0_length [of "\<lambda>x. q (skip x)" t "snd (rep0 (\<lambda>x. q (skip x)) t)"] assms
    by (metis leD le_trans skip_length(1))
  with assms [of s ps t] Some x show ?thesis
    by (auto simp: rep_def split: prod.splits)
qed

lemmas g_lengths = g_identifier_consumes strip_prefix_length
lemmas g_binds = bind_eq_Some_conv Let_def split_beta

lemma skip_less: "n < length (skip s) \<Longrightarrow> n < length s"
  using skip_length(1) [of s] by simp

lemma strip_prefix_skip: "strip_prefix p (skip s) = Some r \<Longrightarrow> length p + length r \<le> length s"
  using skip_length(1) [of s] by (auto dest: strip_prefix_length)

lemma g_identifier_skip: "g_identifier (skip s) = Some (i, r) \<Longrightarrow> length r < length s"
  by (blast dest: g_identifier_consumes skip_less)

lemma g_subject_type_ref_consumes:
  assumes "g_subject_type_ref s = Some (p, r)" shows "length r < length s"
proof -
  from assms obtain i r1 where i: "g_identifier s = Some (i, r1)"
    and r: "r = skip r1 \<or> (\<exists>j r2. strip_prefix ''#'' (skip r1) = Some r2 \<and> g_identifier (skip r2) = Some (j, r))"
    by (auto simp: g_subject_type_ref_def g_binds split: option.splits)
  from r have "length r \<le> length r1"
    using skip_length(1) [of r1] by (auto dest!: strip_prefix_skip g_identifier_skip)
  with g_identifier_consumes [OF i] show ?thesis by simp
qed

lemma g_alternative_consumes: "g_alternative s = Some (ps, r) \<Longrightarrow> length r < length s"
  by (auto simp: g_alternative_def g_binds dest!: strip_prefix_length g_subject_type_ref_consumes skip_less)

lemma g_subject_type_list_consumes:
  assumes "g_subject_type_list s = Some (p, r)" shows "length r < length s"
proof -
  from assms obtain q r1 where q: "g_subject_type_ref s = Some (q, r1)"
    and r: "r = snd (rep g_alternative (skip r1))"
    by (auto simp: g_subject_type_list_def g_binds)
  have "length r \<le> length r1"
    unfolding r by (rule order_trans [OF rep_length skip_length(1)]) (rule g_alternative_consumes)
  with g_subject_type_ref_consumes [OF q] show ?thesis by simp
qed

lemma g_arrow_expr_consumes: "g_arrow_expr s = Some (p, r) \<Longrightarrow> length r < length s"
  by (auto simp: g_arrow_expr_def g_binds
      dest!: g_identifier_consumes strip_prefix_skip g_identifier_skip)

lemma g_permission_term_consumes: "g_permission_term s = Some (p, r) \<Longrightarrow> length r < length s"
  by (auto simp: g_permission_term_def g_binds g_arrow_expr_consumes g_identifier_consumes
      split: option.splits)

lemma g_permission_op_consumes: "g_permission_op s = Some (p, r) \<Longrightarrow> length r < length s"
  by (auto simp: g_permission_op_def split: option.splits dest!: strip_prefix_length)

lemma g_op_term_consumes: "g_op_term s = Some (ps, r) \<Longrightarrow> length r < length s"
  by (fastforce simp: g_op_term_def g_binds
      dest!: g_permission_op_consumes g_permission_term_consumes skip_less)

lemma g_permission_expr_consumes:
  assumes "g_permission_expr s = Some (p, r)" shows "length r < length s"
proof -
  from assms obtain q r1 where q: "g_permission_term s = Some (q, r1)"
    and r: "r = snd (rep g_op_term (skip r1))"
    by (auto simp: g_permission_expr_def g_binds)
  have "length r \<le> length r1"
    unfolding r by (rule order_trans [OF rep_length skip_length(1)]) (rule g_op_term_consumes)
  with g_permission_term_consumes [OF q] show ?thesis by simp
qed

lemma g_relation_def_consumes: "g_relation_def s = Some (p, r) \<Longrightarrow> length r < length s"
  by (auto simp: g_relation_def_def g_binds dest!: strip_prefix_length strip_prefix_skip
      g_identifier_skip g_subject_type_list_consumes skip_less)

lemma g_permission_def_consumes: "g_permission_def s = Some (p, r) \<Longrightarrow> length r < length s"
  by (auto simp: g_permission_def_def g_binds dest!: strip_prefix_length strip_prefix_skip
      g_identifier_skip g_permission_expr_consumes skip_less)

lemma g_body_item_consumes: "g_body_item s = Some (ps, r) \<Longrightarrow> length r < length s"
  by (auto simp: g_body_item_def g_binds split: option.splits
      dest!: g_relation_def_consumes g_permission_def_consumes)

lemma g_definition_consumes:
  assumes "g_definition s = Some (p, r)" shows "length r < length s"
proof -
  from assms obtain i r1 r2 r3 where
    "strip_prefix ''definition'' s = Some r1" "g_identifier (skip r1) = Some (i, r2)"
    "strip_prefix ''{'' (skip r2) = Some r3"
    "strip_prefix ''}'' (skip (snd (rep g_body_item (skip r3)))) = Some r"
    by (auto simp: g_definition_def g_definition_body_def g_binds)
  moreover have "length (snd (rep g_body_item (skip r3))) \<le> length r3"
    by (rule order_trans [OF rep_length skip_length(1)]) (rule g_body_item_consumes)
  ultimately show ?thesis
    using skip_length(1) [of r1] skip_length(1) [of r2]
      skip_length(1) [of "snd (rep g_body_item (skip r3))"]
    by (auto dest!: g_lengths)
qed

lemma g_definition_item_consumes: "g_definition_item s = Some (ps, r) \<Longrightarrow> length r < length s"
  by (auto simp: g_definition_item_def g_binds dest!: g_definition_consumes)

lemmas g_consumes = g_alternative_consumes g_op_term_consumes g_body_item_consumes
  g_definition_item_consumes

section \<open>Accepted text yields a well-formed schema or a semantic error\<close>

fun is_syntax_error :: "ParseError \<Rightarrow> bool" where
  "is_syntax_error (Syntax m) = True"
| "is_syntax_error _ = False"

text \<open>The result is a value with property \<open>P\<close>, or an error other than \<open>Syntax\<close>.\<close>

definition yields :: "('a \<Rightarrow> bool) \<Rightarrow> ParseError + 'a \<Rightarrow> bool" where
  "yields P m = (case m of Inl e \<Rightarrow> \<not> is_syntax_error e | Inr a \<Rightarrow> P a)"

lemma yields_simps [simp]:
  "yields P (Inr a) = P a" "yields P (Inl e) = (\<not> is_syntax_error e)"
  by (simp_all add: yields_def)

lemma yields_and_then:
  "yields P m \<Longrightarrow> (\<And>a. P a \<Longrightarrow> yields Q (f a)) \<Longrightarrow> yields Q (and_then m f)"
  by (cases m) auto

lemma next_pair_simps [simp]:
  "next_pair ctx (p # ps) = Inr (p, ps)" "next_pair ctx [] = Inl (missing_token ctx)"
  by (simp_all add: next_pair_def)

lemma rep0_all:
  "(\<And>s ps r. q s = Some (ps, r) \<Longrightarrow> P ps) \<Longrightarrow> P [] \<Longrightarrow> (\<And>xs ys. P xs \<Longrightarrow> P ys \<Longrightarrow> P (xs @ ys)) \<Longrightarrow>
     P (fst (rep0 q s))"
proof (induction q s rule: rep0.induct)
  case (1 q s)
  show ?case
  proof (cases "q s")
    case None
    with "1.prems" show ?thesis by (simp add: rep0.simps [of q s])
  next
    case (Some x)
    obtain ps t where x: "x = (ps, t)" by fastforce
    have ps: "P ps" using "1.prems"(1) Some x by blast
    show ?thesis
    proof (cases "length t < length s")
      case True
      have "P (fst (rep0 q t))" by (rule "1.IH" [OF Some x [symmetric] True "1.prems"])
      with "1.prems"(3) ps Some x True show ?thesis by (simp add: rep0.simps [of q s] split_beta)
    next
      case False
      with ps Some x show ?thesis by (simp add: rep0.simps [of q s])
    qed
  qed
qed

lemma rep_all:
  assumes "\<And>s ps r. q s = Some (ps, r) \<Longrightarrow> P ps" and "P []"
    and "\<And>xs ys. P xs \<Longrightarrow> P ys \<Longrightarrow> P (xs @ ys)"
  shows "P (fst (rep q s))"
proof (cases "q s")
  case None
  with assms(2) show ?thesis by (simp add: rep_def)
next
  case (Some x)
  have "P (fst (rep0 (\<lambda>x. q (skip x)) (snd x)))"
    by (rule rep0_all) (use assms in blast)+
  with Some assms show ?thesis by (cases x) (simp add: rep_def split_beta)
qed

lemma g_identifier_valid:
  "g_identifier s = Some (p, r) \<Longrightarrow> as_rule p = R_identifier \<and> valid_ident (as_str p)"
  by (auto simp: g_identifier_def valid_ident_def list_all_iff dest: set_takeWhileD
      split: list.splits if_splits)

text \<open>Subject types and relations.\<close>

definition ref_ok :: "Pair \<Rightarrow> bool" where
  "ref_ok p \<longleftrightarrow> (\<exists>s. parse_subject_type_ref p = Inr s \<and> wf_subject_type s)"

lemma ref_okI:
  "into_inner p = i # js \<Longrightarrow> valid_ident (as_str i) \<Longrightarrow> (\<And>j. j \<in> set js \<Longrightarrow> valid_ident (as_str j)) \<Longrightarrow>
     ref_ok p"
  by (cases js) (simp_all add: ref_ok_def parse_subject_type_ref_def wf_subject_type_def)

lemma g_subject_type_ref_ok:
  assumes "g_subject_type_ref s = Some (p, r)" shows "ref_ok p"
proof -
  from assms obtain i js r1 where "g_identifier s = Some (i, r1)" "into_inner p = i # js"
    and "js = [] \<or> (\<exists>j s' r'. js = [j] \<and> g_identifier s' = Some (j, r'))"
    by (fastforce simp: g_subject_type_ref_def g_binds split: option.splits)
  then show ?thesis by (auto dest!: g_identifier_valid intro: ref_okI)
qed

lemma g_alternative_ok: "g_alternative s = Some (ps, r) \<Longrightarrow> list_all ref_ok ps"
  by (auto simp: g_alternative_def g_binds g_subject_type_ref_ok)

lemma try_map_refs: "list_all ref_ok ps \<Longrightarrow>
  \<exists>ss. try_map parse_subject_type_ref ps = Inr ss \<and> list_all wf_subject_type ss \<and> length ss = length ps"
  by (induction ps) (auto simp: ref_ok_def)

lemma g_relation_def_ok:
  assumes "g_relation_def s = Some (p, r)"
  shows "as_rule p = R_relation_def" and "yields wf_relation (parse_relation_def p)"
proof -
  from assms obtain i q l r1 r2 r3 r4 where i: "g_identifier r1 = Some (i, r2)"
    and q: "g_subject_type_ref r3 = Some (q, r4)"
    and p: "as_rule p = R_relation_def" "into_inner p = [i, l]"
    and l: "into_inner l = q # fst (rep g_alternative (skip r4))"
    by (auto simp: g_relation_def_def g_subject_type_list_def g_binds)
  have "list_all ref_ok (fst (rep g_alternative (skip r4)))"
    by (rule rep_all) (auto dest: g_alternative_ok)
  then obtain ss where ss: "try_map parse_subject_type_ref (into_inner l) = Inr ss"
    "list_all wf_subject_type ss" "ss \<noteq> []"
    using g_subject_type_ref_ok [OF q] try_map_refs [of "into_inner l"] l
    by (metis length_0_conv list.distinct(1) list.pred_inject(2))
  show "as_rule p = R_relation_def" by (rule p)
  show "yields wf_relation (parse_relation_def p)"
    using g_identifier_valid [OF i] ss p by (simp add: parse_relation_def_def wf_relation_def)
qed

text \<open>Permission expressions.\<close>

definition term_ok :: "Pair \<Rightarrow> bool" where
  "term_ok p \<longleftrightarrow> (\<exists>t. parse_permission_term p = Inr t \<and> wf_term t)"

lemma g_permission_term_ok: "g_permission_term s = Some (p, r) \<Longrightarrow> term_ok p"
  by (auto simp: g_permission_term_def g_arrow_expr_def g_binds term_ok_def parse_permission_term_def
      split: option.splits dest!: g_identifier_valid)

fun ops_ok :: "Pair list \<Rightarrow> bool" where
  "ops_ok [] = True"
| "ops_ok [op] = False"
| "ops_ok (op # t # rest) =
     (as_rule op \<in> {R_union_op, R_intersection_op, R_exclusion_op} \<and> term_ok t \<and> ops_ok rest)"

lemma ops_ok_append: "ops_ok xs \<Longrightarrow> ops_ok ys \<Longrightarrow> ops_ok (xs @ ys)"
  by (induction xs rule: ops_ok.induct) auto

lemma g_op_term_ok: "g_op_term s = Some (ps, r) \<Longrightarrow> ops_ok ps"
  by (auto simp: g_op_term_def g_permission_op_def g_binds g_permission_term_ok split: option.splits)

lemma parse_ops_ok: "ops_ok ps \<Longrightarrow>
  \<exists>xs. parse_ops_and_terms ps = Inr xs \<and>
    (\<forall>(op, t)\<in>set xs. op \<in> {R_union_op, R_intersection_op, R_exclusion_op} \<and> wf_term t)"
  by (induction ps rule: ops_ok.induct) (auto simp: term_ok_def)

lemma wf_rule_term: "wf_term t \<Longrightarrow> wf_rule t"
  by (cases t) auto

lemma combine_ops_ok:
  assumes "wf_term first"
    and "\<forall>(op, t)\<in>set xs. op \<in> {R_union_op, R_intersection_op, R_exclusion_op} \<and> wf_term t"
  shows "yields wf_rule (combine_ops first xs)"
proof (cases xs)
  case Nil
  with assms show ?thesis by (simp add: combine_ops_def wf_rule_term)
next
  case (Cons x ys)
  obtain op t where x: "x = (op, t)" by fastforce
  have "list_all wf_term (first # map snd xs)"
    using assms by (fastforce simp: list_all_iff)
  moreover have "op \<in> {R_union_op, R_intersection_op, R_exclusion_op}"
    using assms Cons x by auto
  ultimately show ?thesis using Cons x by (auto simp: combine_ops_def)
qed

lemma g_permission_def_ok:
  assumes "g_permission_def s = Some (p, r)"
  shows "as_rule p = R_permission_def" and "yields wf_permission (parse_permission_def p)"
proof -
  from assms obtain i q e r1 r2 r3 r4 where i: "g_identifier r1 = Some (i, r2)"
    and q: "g_permission_term r3 = Some (q, r4)"
    and p: "as_rule p = R_permission_def" "into_inner p = [i, e]"
    and e: "into_inner e = q # fst (rep g_op_term (skip r4))"
    by (auto simp: g_permission_def_def g_permission_expr_def g_binds)
  have "ops_ok (fst (rep g_op_term (skip r4)))"
    by (rule rep_all) (auto dest: g_op_term_ok intro: ops_ok_append)
  then obtain xs where xs: "parse_ops_and_terms (fst (rep g_op_term (skip r4))) = Inr xs"
    "\<forall>(op, t)\<in>set xs. op \<in> {R_union_op, R_intersection_op, R_exclusion_op} \<and> wf_term t"
    using parse_ops_ok by blast
  from g_permission_term_ok [OF q] obtain t where t: "parse_permission_term q = Inr t" "wf_term t"
    by (auto simp: term_ok_def)
  have "yields wf_rule (parse_permission_expr e)"
    using combine_ops_ok [OF t(2) xs(2)] t(1) xs(1) e by (simp add: parse_permission_expr_def)
  then have "yields wf_permission (and_then (parse_permission_expr e)
      (\<lambda>rule. Inr \<lparr>perm_name = as_str i, perm_rule = rule\<rparr>))"
    by (rule yields_and_then) (simp add: wf_permission_def g_identifier_valid [OF i])
  then show "yields wf_permission (parse_permission_def p)"
    using p by (simp add: parse_permission_def_def)
  show "as_rule p = R_permission_def" by (rule p)
qed

text \<open>Type bodies and whole schemas.\<close>

definition item_ok :: "Pair \<Rightarrow> bool" where
  "item_ok p \<longleftrightarrow> (as_rule p = R_relation_def \<and> yields wf_relation (parse_relation_def p)) \<or>
     (as_rule p = R_permission_def \<and> yields wf_permission (parse_permission_def p))"

lemma g_body_item_ok: "g_body_item s = Some (ps, r) \<Longrightarrow> list_all item_ok ps"
  by (auto simp: g_body_item_def g_binds item_ok_def g_relation_def_ok g_permission_def_ok
      split: option.splits)

definition names_ok :: "string set \<Rightarrow> string set \<Rightarrow> RelationDef list \<times> PermissionDef list \<Rightarrow> bool" where
  "names_ok sr sp = (\<lambda>(rels, perms).
     distinct (map rel_name rels) \<and> rel_name ` set rels \<subseteq> sr \<and> list_all wf_relation rels \<and>
     distinct (map perm_name perms) \<and> perm_name ` set perms \<subseteq> sp \<and> list_all wf_permission perms)"

lemma parse_items_ok:
  "list_all item_ok items \<Longrightarrow> names_ok sr sp (rels, perms) \<Longrightarrow>
     yields (\<lambda>rp. \<exists>sr' sp'. names_ok sr' sp' rp) (parse_items name items sr sp rels perms)"
proof (induction name items sr sp rels perms rule: parse_items.induct)
  case (1 name sr sp rels perms)
  then show ?case by auto
next
  case (2 name item items sr sp rels perms)
  from "2.prems"(1) have item: "item_ok item" and items: "list_all item_ok items" by simp_all
  from item consider
      (rel) "as_rule item = R_relation_def" "yields wf_relation (parse_relation_def item)"
    | (perm) "as_rule item = R_permission_def" "yields wf_permission (parse_permission_def item)"
    by (auto simp: item_ok_def)
  then show ?case
  proof cases
    case rel
    show ?thesis
    proof (cases "parse_relation_def item")
      case (Inl e)
      with rel show ?thesis by simp
    next
      case (Inr x)
      with rel have x: "wf_relation x" by simp
      show ?thesis
      proof (cases "rel_name x \<in> sr")
        case True
        with rel Inr show ?thesis by simp
      next
        case False
        have "names_ok (insert (rel_name x) sr) sp (rels @ [x], perms)"
          using "2.prems"(2) x False by (auto simp: names_ok_def)
        with "2.IH"(1) [OF rel(1) Inr False items] rel Inr False show ?thesis by simp
      qed
    qed
  next
    case perm
    then have nr: "as_rule item \<noteq> R_relation_def" by simp
    show ?thesis
    proof (cases "parse_permission_def item")
      case (Inl e)
      with perm show ?thesis by simp
    next
      case (Inr x)
      with perm have x: "wf_permission x" by simp
      show ?thesis
      proof (cases "perm_name x \<in> sp")
        case True
        with perm Inr show ?thesis by simp
      next
        case False
        have "names_ok sr (insert (perm_name x) sp) (rels, perms @ [x])"
          using "2.prems"(2) x False by (auto simp: names_ok_def)
        with "2.IH"(2) [OF nr perm(1) Inr False items] perm Inr False show ?thesis by simp
      qed
    qed
  qed
qed

definition def_ok :: "Pair \<Rightarrow> bool" where
  "def_ok p \<longleftrightarrow> as_rule p = R_definition \<and> yields wf_type (parse_definition p)"

lemma g_definition_ok:
  assumes "g_definition s = Some (p, r)" shows "def_ok p"
proof -
  from assms obtain i b r1 r2 r3 where i: "g_identifier r1 = Some (i, r2)"
    and p: "as_rule p = R_definition" "into_inner p = [i, b]"
    and b: "into_inner b = fst (rep g_body_item r3)"
    by (auto simp: g_definition_def g_definition_body_def g_binds)
  have "list_all item_ok (into_inner b)"
    unfolding b by (rule rep_all) (auto dest: g_body_item_ok)
  then have "yields (\<lambda>rp. \<exists>sr sp. names_ok sr sp rp) (parse_items (as_str i) (into_inner b) {} {} [] [])"
    by (rule parse_items_ok) (simp add: names_ok_def)
  then have "yields wf_type (and_then (parse_items (as_str i) (into_inner b) {} {} [] [])
      (\<lambda>(rels, perms). Inr \<lparr>type_name = as_str i, relations = rels, permissions = perms\<rparr>))"
    by (rule yields_and_then) (auto simp: names_ok_def wf_type_def g_identifier_valid [OF i])
  then show ?thesis using p by (simp add: def_ok_def parse_definition_def)
qed

lemma parse_types_ok:
  "list_all (\<lambda>p. as_rule p = R_definition \<longrightarrow> def_ok p) ps \<Longrightarrow>
   distinct (map type_name ts) \<Longrightarrow> type_name ` set ts \<subseteq> seen \<Longrightarrow> list_all wf_type ts \<Longrightarrow>
     yields (\<lambda>ts. distinct (map type_name ts) \<and> list_all wf_type ts) (parse_types ps seen ts)"
proof (induction ps seen ts rule: parse_types.induct)
  case (1 seen ts)
  then show ?case by simp
next
  case (2 p ps seen ts)
  show ?case
  proof (cases "as_rule p = R_definition")
    case True
    with "2.prems"(1) have y: "yields wf_type (parse_definition p)" by (simp add: def_ok_def)
    show ?thesis
    proof (cases "parse_definition p")
      case (Inl e)
      with True y show ?thesis by simp
    next
      case (Inr td)
      show ?thesis
      proof (cases "type_name td \<in> seen")
        case False
        have "yields (\<lambda>ts. distinct (map type_name ts) \<and> list_all wf_type ts)
            (parse_types ps (insert (type_name td) seen) (ts @ [td]))"
          by (rule "2.IH"(1) [OF True Inr False]) (use "2.prems" y Inr False in auto)
        with True Inr False show ?thesis by simp
      qed (use True Inr in simp)
    qed
  next
    case False
    with "2.IH"(2) [OF False] "2.prems" show ?thesis by simp
  qed
qed

lemma g_schema_ok:
  assumes "g_schema s = Some p"
  shows "yields (\<lambda>ts. distinct (map type_name ts) \<and> list_all wf_type ts) (parse_types (into_inner p) {} [])"
proof -
  from assms have p: "into_inner p = fst (rep g_definition_item (skip s)) @ [Pair R_EOI [] []]"
    by (auto simp: g_schema_def split_beta Let_def split: if_splits)
  have "list_all def_ok (fst (rep g_definition_item (skip s)))"
    by (rule rep_all) (auto simp: g_definition_item_def g_binds dest: g_definition_ok)
  then show ?thesis unfolding p
    by (intro parse_types_ok) (auto simp: list_all_iff)
qed

lemma parsed_schema_wf: "parse_schema pe s = Inr sc \<Longrightarrow> wf_schema sc"
  by (auto simp: parse_schema_def wf_schema_def result_simps dest!: g_schema_ok split: option.splits)

lemma parsed_syntax_error:
  "parse_schema pe s = Inl (Syntax m) \<Longrightarrow> g_schema s = None \<and> m = pe s"
  by (auto simp: parse_schema_def result_simps dest!: g_schema_ok split: option.splits)

section \<open>Properties of the parser\<close>

definition demo_text :: string where
  "demo_text =
     ''definition user {} definition doc { relation owner: user | group#member '' @
     ''permission view = owner + parent->view }''"

text \<open>
  C22. A schema the parser returns is well formed: type, relation and permission names are unique and
  have the grammar's shape, and a permission rule is a term or one operator over terms, two for an
  exclusion.
\<close>

theorem parse_schema_wf: "parse_schema pest_error text_in = Inr schema \<Longrightarrow> wf_schema schema"
  by (rule parsed_schema_wf)

theorem parse_schema_wf_witness:
  "\<exists>schema. parse_schema (\<lambda>_. []) demo_text = Inr schema \<and> wf_schema schema \<and> map type_name (types schema) = [''user'', ''doc'']"
proof -
  have "parse_schema (\<lambda>_. []) demo_text = Inr \<lparr>types =
     [\<lparr>type_name = ''user'', relations = [], permissions = []\<rparr>,
      \<lparr>type_name = ''doc'', relations = [\<lparr>rel_name = ''owner'', rel_subject_types =
          [\<lparr>str_type_name = ''user'', str_relation = None\<rparr>, \<lparr>str_type_name = ''group'', str_relation = Some ''member''\<rparr>]\<rparr>],
        permissions = [\<lparr>perm_name = ''view'', perm_rule = RUnion [RThis ''owner'', RArrow ''parent'' ''view'']\<rparr>]\<rparr>]\<rparr>"
    by code_simp
  from parse_schema_wf [OF this] this show ?thesis by simp
qed



section \<open>The parser returns\<close>

text \<open>The loop as pest runs it: nothing but a failing round ends it, so it may run forever.\<close>

partial_function (option) pest_repeat ::
  "(string \<Rightarrow> (Pair list \<times> string) option) \<Rightarrow> string \<Rightarrow> (Pair list \<times> string) option" where
  "pest_repeat q s =
     (case q s of
        None \<Rightarrow> Some ([], s)
      | Some (ps, r) \<Rightarrow> Option.bind (pest_repeat q r) (\<lambda>(qs, t). Some (ps @ qs, t)))"

lemma pest_repeat_returns:
  assumes "\<And>s ps r. q s = Some (ps, r) \<Longrightarrow> length r < length s"
  shows "pest_repeat q s = Some (rep0 q s)"
proof (induction s rule: length_induct)
  case (1 s)
  show ?case
  proof (cases "q s")
    case None
    then show ?thesis by (simp add: pest_repeat.simps [of q s] rep0.simps [of q s])
  next
    case (Some y)
    then obtain ps r where y: "q s = Some (ps, r)" by (cases y) auto
    with 1 assms have "pest_repeat q r = Some (rep0 q r)" by blast
    with y assms [OF y] show ?thesis
      by (simp add: pest_repeat.simps [of q s] rep0.simps [of q s] split_beta Let_def)
  qed
qed

text \<open>A repeated rule behind \<open>skip\<close>, as pest inserts it between rounds, consumes input as well.\<close>

lemma skip_consumes:
  assumes "\<And>s ps r. q s = Some (ps, r) \<Longrightarrow> length r < length s" "q (skip s) = Some (ps, r)"
  shows "length r < length s"
  using assms(1) [OF assms(2)] skip_length(1) [of s] by simp

text \<open>
  C13. Parsing terminates: on every text, each of the four loops of the grammar, which pest ends only at a
  round that fails, ends, with the result the parser's model gives it.
\<close>

theorem grammar_loops_terminate:
  "pest_repeat (\<lambda>x. g_definition_item (skip x)) s = Some (rep0 (\<lambda>x. g_definition_item (skip x)) s) \<and>
   pest_repeat (\<lambda>x. g_body_item (skip x)) s = Some (rep0 (\<lambda>x. g_body_item (skip x)) s) \<and>
   pest_repeat (\<lambda>x. g_alternative (skip x)) s = Some (rep0 (\<lambda>x. g_alternative (skip x)) s) \<and>
   pest_repeat (\<lambda>x. g_op_term (skip x)) s = Some (rep0 (\<lambda>x. g_op_term (skip x)) s)"
  by (intro conjI pest_repeat_returns) (erule skip_consumes [rotated], erule g_consumes)+

text \<open>A keyword needs no separator: the text that follows it at once is taken as the name.\<close>

lemma keyword_needs_no_separator:
  "parse_schema pe ''definitiondoc { relationowner: user }'' = Inr \<lparr>types = [\<lparr>type_name = ''doc'',
     relations = [\<lparr>rel_name = ''owner'', rel_subject_types = [\<lparr>str_type_name = ''user'', str_relation = None\<rparr>]\<rparr>],
     permissions = []\<rparr>]\<rparr>"
proof -
  have "parse_schema (\<lambda>_. []) ''definitiondoc { relationowner: user }'' = Inr \<lparr>types = [\<lparr>type_name = ''doc'',
     relations = [\<lparr>rel_name = ''owner'', rel_subject_types = [\<lparr>str_type_name = ''user'', str_relation = None\<rparr>]\<rparr>],
     permissions = []\<rparr>]\<rparr>" by code_simp
  then show ?thesis by (auto simp: parse_schema_def split: option.splits)
qed

end
