(* ===== verification/Service.thy ===== *)
theory Service
  imports Adapter Metrics Schema_Parser_Correct
begin

text \<open>
  \<open>kraalzibar-server/src/service.rs\<close> with \<open>error.rs\<close> and \<open>audit.rs\<close>: the authorization service. Its state
  is the factory's, the two caches, the metrics and the audit events emitted so far; a method maps a
  state to a result and the next state, on every path. The cache library, the store factory and the
  text of pest's syntax errors are parameters, gathered in an environment.
\<close>

section \<open>Errors\<close>

datatype ApiError =
    Check CheckError
  | Storage StorageError
  | Parse ParseError
  | Validation "ValidationError list"
  | BreakingChanges "BreakingChange list"
  | SchemaNotFound

fun join :: "string \<Rightarrow> string list \<Rightarrow> string" where
  "join sep [] = []"
| "join sep [x] = x"
| "join sep (x # xs) = x @ sep @ join sep xs"

definition format_validation_errors :: "ValidationError list \<Rightarrow> string" where
  "format_validation_errors errors = join ''; '' (map ValidationError_to_string errors)"

fun ApiError_to_string :: "ApiError \<Rightarrow> string" where
  "ApiError_to_string (Check e) = ''check error: '' @ CheckError_to_string e"
| "ApiError_to_string (Storage e) = ''storage error: '' @ StorageError_to_string e"
| "ApiError_to_string (Parse e) = ''parse error: '' @ ParseError_to_string e"
| "ApiError_to_string (Validation es) = ''schema validation errors: '' @ format_validation_errors es"
| "ApiError_to_string (BreakingChanges cs) = ''breaking schema changes detected (use force=true to override)''"
| "ApiError_to_string SchemaNotFound = ''schema not found''"

section \<open>Audit events\<close>

datatype AuditEvent =
    SchemaWrite TenantId bool bool string
  | RelationshipWrite TenantId nat nat u64
  | AuthSuccess TenantId string
  | AuthFailure string string

definition audit_schema_write :: "TenantId \<Rightarrow> bool \<Rightarrow> bool \<Rightarrow> string option \<Rightarrow> AuditEvent" where
  "audit_schema_write t force overridden token =
     SchemaWrite t force overridden (case token of Some s \<Rightarrow> s | None \<Rightarrow> [])"

definition audit_relationship_write :: "TenantId \<Rightarrow> nat \<Rightarrow> nat \<Rightarrow> SnapshotToken \<Rightarrow> AuditEvent" where
  "audit_relationship_write t writes deletes token = RelationshipWrite t writes deletes (value_of token)"

definition audit_auth_success :: "TenantId \<Rightarrow> string \<Rightarrow> AuditEvent" where
  "audit_auth_success t key_id = AuthSuccess t key_id"

definition audit_auth_failure :: "string \<Rightarrow> string option \<Rightarrow> AuditEvent" where
  "audit_auth_failure reason key_id =
     AuthFailure reason (case key_id of Some k \<Rightarrow> k | None \<Rightarrow> ''unknown'')"

section \<open>Requests and responses\<close>

datatype Consistency =
    FullConsistency
  | MinimizeLatency
  | AtLeastAsFresh SnapshotToken
  | AtExactSnapshot SnapshotToken

record CheckPermissionInput =
  cpi_object_type :: string
  cpi_object_id :: string
  cpi_permission :: string
  cpi_subject_type :: string
  cpi_subject_id :: string
  cpi_consistency :: Consistency

record CheckPermissionOutput =
  cpo_allowed :: bool
  cpo_snapshot :: "SnapshotToken option"

record ExpandPermissionInput =
  epi_object_type :: string
  epi_object_id :: string
  epi_permission :: string
  epi_consistency :: Consistency

record LookupSubjectsInput =
  lsi_object_type :: string
  lsi_object_id :: string
  lsi_permission :: string
  lsi_subject_type :: string
  lsi_consistency :: Consistency

record LookupResourcesInput =
  lri_resource_type :: string
  lri_permission :: string
  lri_subject_type :: string
  lri_subject_id :: string
  lri_consistency :: Consistency
  lri_limit :: "nat option"

record ExpandPermissionOutput =
  epo_tree :: ExpandTree
  epo_snapshot :: "SnapshotToken option"

record LookupResourcesOutput =
  lro_resource_ids :: "string list"
  lro_snapshot :: "SnapshotToken option"

record LookupSubjectsOutput =
  lso_subjects :: "SubjectRef list"
  lso_snapshot :: "SnapshotToken option"

record ReadRelationshipsOutput =
  rro_tuples :: "Tuple list"
  rro_snapshot :: "SnapshotToken option"

record WriteSchemaOutput =
  breaking_changes_overridden :: bool

record CheckCacheKey =
  cck_tenant_id :: TenantId
  cck_object_type :: string
  cck_object_id :: string
  cck_permission :: string
  cck_subject_type :: string
  cck_subject_id :: string
  cck_snapshot :: SnapshotToken

section \<open>The environment\<close>

text \<open>
  The operations of \<open>moka::future::Cache\<close> the service calls. A get may drop entries (capacity,
  time to live), so it returns the cache too.
\<close>

record ('k, 'v, 'c) Cache =
  cache_build :: "u64 \<Rightarrow> u64 \<Rightarrow> 'c"
  cache_get :: "'c \<Rightarrow> 'k \<Rightarrow> 'v option \<times> 'c"
  cache_insert :: "'c \<Rightarrow> 'k \<Rightarrow> 'v \<Rightarrow> 'c"
  cache_invalidate :: "'c \<Rightarrow> 'k \<Rightarrow> 'c"
  cache_invalidate_all :: "'c \<Rightarrow> 'c"

record ('f, 'sc, 'cc) Env =
  env_factory :: "'f StoreFactory"
  env_schema_cache :: "(TenantId, Schema, 'sc) Cache"
  env_check_cache :: "(CheckCacheKey, bool, 'cc) Cache"
  env_pest_error :: "string \<Rightarrow> string"

record CacheConfig =
  schema_cache_capacity :: u64
  schema_cache_ttl_seconds :: u64
  check_cache_capacity :: u64
  check_cache_ttl_seconds :: u64

definition CacheConfig_default :: CacheConfig where
  "CacheConfig_default = \<lparr>schema_cache_capacity = 1000, schema_cache_ttl_seconds = 30,
     check_cache_capacity = 10000, check_cache_ttl_seconds = 300\<rparr>"

record ('f, 'sc, 'cc) AuthzService =
  factory :: 'f
  engine_config :: EngineConfig
  schema_limits :: SchemaLimits
  schema_cache :: 'sc
  check_cache :: 'cc
  metrics :: "Metrics option"
  audit_log :: "AuditEvent list"

definition with_cache_config ::
  "('f, 'sc, 'cc) Env \<Rightarrow> 'f \<Rightarrow> EngineConfig \<Rightarrow> SchemaLimits \<Rightarrow> CacheConfig \<Rightarrow> ('f, 'sc, 'cc) AuthzService" where
  "with_cache_config env f ec sl cc =
     \<lparr>factory = f, engine_config = ec, schema_limits = sl,
      schema_cache = cache_build (env_schema_cache env) (schema_cache_capacity cc) (schema_cache_ttl_seconds cc),
      check_cache = cache_build (env_check_cache env) (check_cache_capacity cc) (check_cache_ttl_seconds cc),
      metrics = None, audit_log = []\<rparr>"

definition AuthzService_new ::
  "('f, 'sc, 'cc) Env \<Rightarrow> 'f \<Rightarrow> EngineConfig \<Rightarrow> SchemaLimits \<Rightarrow> ('f, 'sc, 'cc) AuthzService" where
  "AuthzService_new env f ec sl = with_cache_config env f ec sl CacheConfig_default"

definition with_metrics :: "Metrics \<Rightarrow> ('f, 'sc, 'cc) AuthzService \<Rightarrow> ('f, 'sc, 'cc) AuthzService" where
  "with_metrics m svc = svc\<lparr>metrics := Some m\<rparr>"

text \<open>\<open>if let Some(m) = &self.metrics { ... }\<close>\<close>

definition on_metrics :: "(Metrics \<Rightarrow> Metrics) \<Rightarrow> ('f, 'sc, 'cc) AuthzService \<Rightarrow> ('f, 'sc, 'cc) AuthzService" where
  "on_metrics g svc = svc\<lparr>metrics := map_option g (metrics svc)\<rparr>"

definition emit :: "AuditEvent \<Rightarrow> ('f, 'sc, 'cc) AuthzService \<Rightarrow> ('f, 'sc, 'cc) AuthzService" where
  "emit ev svc = svc\<lparr>audit_log := audit_log svc @ [ev]\<rparr>"

text \<open>\<open>self.factory.for_tenant(tenant_id)\<close>\<close>

definition open_store ::
  "('f, 'sc, 'cc) Env \<Rightarrow> TenantId \<Rightarrow> ('f, 'sc, 'cc) AuthzService \<Rightarrow> 'f Store \<times> ('f, 'sc, 'cc) AuthzService" where
  "open_store env tenant svc =
     (case for_tenant (env_factory env) (factory svc) tenant of (store, f) \<Rightarrow> (store, svc\<lparr>factory := f\<rparr>))"

section \<open>Snapshots and schemas\<close>

fun resolve_snapshot :: "'f Store \<Rightarrow> 'f \<Rightarrow> Consistency \<Rightarrow> ApiError + SnapshotToken option" where
  "resolve_snapshot store f FullConsistency =
     and_then (map_err Storage (store_snapshot store f)) (\<lambda>token. Inr (Some token))"
| "resolve_snapshot store f MinimizeLatency = Inr None"
| "resolve_snapshot store f (AtLeastAsFresh token) = Inr (Some token)"
| "resolve_snapshot store f (AtExactSnapshot token) = Inr (Some token)"

text \<open>The schema a cache miss loads.\<close>

definition load_schema :: "('f, 'sc, 'cc) Env \<Rightarrow> 'f Store \<Rightarrow> 'f \<Rightarrow> ApiError + Schema" where
  "load_schema env store f =
     and_then (map_err Storage (store_read_schema store f)) (\<lambda>stored.
     and_then (ok_or stored SchemaNotFound) (\<lambda>schema_text.
     map_err Parse (parse_schema (env_pest_error env) schema_text)))"

definition load_schema_cached ::
  "('f, 'sc, 'cc) Env \<Rightarrow> TenantId \<Rightarrow> 'f Store \<Rightarrow> ('f, 'sc, 'cc) AuthzService \<Rightarrow>
     (ApiError + Schema) \<times> ('f, 'sc, 'cc) AuthzService" where
  "load_schema_cached env tenant store svc =
     (case cache_get (env_schema_cache env) (schema_cache svc) tenant of
        (Some cached, c) \<Rightarrow> (Inr cached, on_metrics record_schema_cache_hit (svc\<lparr>schema_cache := c\<rparr>))
      | (None, c) \<Rightarrow>
          (let svc = on_metrics record_schema_cache_miss (svc\<lparr>schema_cache := c\<rparr>)
           in case load_schema env store (factory svc) of
                Inl e \<Rightarrow> (Inl e, svc)
              | Inr schema \<Rightarrow>
                  (Inr schema,
                   svc\<lparr>schema_cache := cache_insert (env_schema_cache env) (schema_cache svc) tenant schema\<rparr>)))"

section \<open>Methods\<close>

definition check_request_of :: "CheckPermissionInput \<Rightarrow> SnapshotToken option \<Rightarrow> CheckRequest" where
  "check_request_of input snapshot =
     \<lparr>cr_object_type = cpi_object_type input, cr_object_id = cpi_object_id input,
      cr_permission = cpi_permission input, cr_subject_type = cpi_subject_type input,
      cr_subject_id = cpi_subject_id input, cr_snapshot = snapshot\<rparr>"

definition cache_key_of :: "TenantId \<Rightarrow> CheckPermissionInput \<Rightarrow> SnapshotToken \<Rightarrow> CheckCacheKey" where
  "cache_key_of tenant input snap =
     \<lparr>cck_tenant_id = tenant, cck_object_type = cpi_object_type input, cck_object_id = cpi_object_id input,
      cck_permission = cpi_permission input, cck_subject_type = cpi_subject_type input,
      cck_subject_id = cpi_subject_id input, cck_snapshot = snap\<rparr>"

definition check_permission ::
  "('f, 'sc, 'cc) Env \<Rightarrow> TenantId \<Rightarrow> CheckPermissionInput \<Rightarrow> ('f, 'sc, 'cc) AuthzService \<Rightarrow>
     (ApiError + CheckPermissionOutput) \<times> ('f, 'sc, 'cc) AuthzService" where
  "check_permission env tenant input svc =
     (case open_store env tenant svc of (store, svc) \<Rightarrow>
      case resolve_snapshot store (factory svc) (cpi_consistency input) of
        Inl e \<Rightarrow> (Inl e, svc)
      | Inr (Some snap) \<Rightarrow>
          (let cache_key = cache_key_of tenant input snap
           in case cache_get (env_check_cache env) (check_cache svc) cache_key of
                (Some cached_allowed, c) \<Rightarrow>
                  (Inr \<lparr>cpo_allowed = cached_allowed, cpo_snapshot = Some snap\<rparr>,
                   on_metrics record_check_cache_hit (svc\<lparr>check_cache := c\<rparr>))
              | (None, c) \<Rightarrow>
                  (case load_schema_cached env tenant store
                       (on_metrics record_check_cache_miss (svc\<lparr>check_cache := c\<rparr>)) of
                     (Inl e, svc) \<Rightarrow> (Inl e, svc)
                   | (Inr schema, svc) \<Rightarrow>
                       (let engine = CheckEngine_new (StoreTupleReader store (factory svc)) schema (engine_config svc)
                        in case map_err Check (check engine (check_request_of input (Some snap))) of
                             Inl e \<Rightarrow> (Inl e, svc)
                           | Inr result \<Rightarrow>
                               (Inr \<lparr>cpo_allowed = allowed result, cpo_snapshot = Some snap\<rparr>,
                                svc\<lparr>check_cache :=
                                  cache_insert (env_check_cache env) (check_cache svc) cache_key (allowed result)\<rparr>))))
      | Inr None \<Rightarrow>
          (case load_schema_cached env tenant store svc of
             (Inl e, svc) \<Rightarrow> (Inl e, svc)
           | (Inr schema, svc) \<Rightarrow>
               (let engine = CheckEngine_new (StoreTupleReader store (factory svc)) schema (engine_config svc)
                in case map_err Check (check engine (check_request_of input None)) of
                     Inl e \<Rightarrow> (Inl e, svc)
                   | Inr result \<Rightarrow> (Inr \<lparr>cpo_allowed = allowed result, cpo_snapshot = None\<rparr>, svc))))"

definition expand_permission_tree ::
  "('f, 'sc, 'cc) Env \<Rightarrow> TenantId \<Rightarrow> ExpandPermissionInput \<Rightarrow> ('f, 'sc, 'cc) AuthzService \<Rightarrow>
     (ApiError + ExpandPermissionOutput) \<times> ('f, 'sc, 'cc) AuthzService" where
  "expand_permission_tree env tenant input svc =
     (case open_store env tenant svc of (store, svc) \<Rightarrow>
      case resolve_snapshot store (factory svc) (epi_consistency input) of
        Inl e \<Rightarrow> (Inl e, svc)
      | Inr snapshot \<Rightarrow>
          (case load_schema_cached env tenant store svc of
             (Inl e, svc) \<Rightarrow> (Inl e, svc)
           | (Inr schema, svc) \<Rightarrow>
               (let engine = ExpandEngine_new (StoreTupleReader store (factory svc)) schema (engine_config svc)
                in case map_err Check (expand engine
                     \<lparr>er_object_type = epi_object_type input, er_object_id = epi_object_id input,
                      er_permission = epi_permission input, er_snapshot = snapshot\<rparr>) of
                     Inl e \<Rightarrow> (Inl e, svc)
                   | Inr tree \<Rightarrow> (Inr \<lparr>epo_tree = tree, epo_snapshot = snapshot\<rparr>, svc))))"

definition write_relationships ::
  "('f, 'sc, 'cc) Env \<Rightarrow> TenantId \<Rightarrow> TupleWrite list \<Rightarrow> TupleFilter list \<Rightarrow> ('f, 'sc, 'cc) AuthzService \<Rightarrow>
     (ApiError + SnapshotToken) \<times> ('f, 'sc, 'cc) AuthzService" where
  "write_relationships env tenant writes deletes svc =
     (case open_store env tenant svc of (store, svc) \<Rightarrow>
      case store_write store (factory svc) writes deletes of
        (Inl e, f) \<Rightarrow> (Inl (Storage e), svc\<lparr>factory := f\<rparr>)
      | (Inr token, f) \<Rightarrow>
          (let svc = svc\<lparr>factory := f\<rparr>;
               svc = svc\<lparr>check_cache := cache_invalidate_all (env_check_cache env) (check_cache svc)\<rparr>
           in (Inr token, emit (audit_relationship_write tenant (length writes) (length deletes) token) svc)))"

definition read_relationships ::
  "('f, 'sc, 'cc) Env \<Rightarrow> TenantId \<Rightarrow> TupleFilter \<Rightarrow> Consistency \<Rightarrow> nat option \<Rightarrow> ('f, 'sc, 'cc) AuthzService \<Rightarrow>
     (ApiError + ReadRelationshipsOutput) \<times> ('f, 'sc, 'cc) AuthzService" where
  "read_relationships env tenant f consistency limit svc =
     (case open_store env tenant svc of (store, svc) \<Rightarrow>
      (and_then (resolve_snapshot store (factory svc) consistency) (\<lambda>snapshot.
       and_then (map_err Storage (store_read store (factory svc) f snapshot limit)) (\<lambda>tuples.
         Inr \<lparr>rro_tuples = tuples, rro_snapshot = snapshot\<rparr>)), svc))"

definition write_schema ::
  "('f, 'sc, 'cc) Env \<Rightarrow> TenantId \<Rightarrow> string \<Rightarrow> bool \<Rightarrow> ('f, 'sc, 'cc) AuthzService \<Rightarrow>
     (ApiError + WriteSchemaOutput) \<times> ('f, 'sc, 'cc) AuthzService" where
  "write_schema env tenant text_in force svc =
     (case parse_schema (env_pest_error env) text_in of
        Inl e \<Rightarrow> (Inl (Parse e), svc)
      | Inr new_schema \<Rightarrow>
          (case validate_schema_limits new_schema (schema_limits svc) of
             Inl errors \<Rightarrow> (Inl (Validation errors), svc)
           | Inr _ \<Rightarrow>
               (case open_store env tenant svc of (store, svc) \<Rightarrow>
                case store_read_schema store (factory svc) of
                  Inl e \<Rightarrow> (Inl (Storage e), svc)
                | Inr existing_text \<Rightarrow>
                    (let overridden =
                         (case existing_text of
                            None \<Rightarrow> Inr False
                          | Some old_text \<Rightarrow>
                              and_then (map_err Parse (parse_schema (env_pest_error env) old_text)) (\<lambda>old_schema.
                                let breaking = detect_breaking_changes old_schema new_schema
                                in if breaking \<noteq> [] \<and> \<not> force then Inl (BreakingChanges breaking)
                                   else Inr (breaking \<noteq> [])))
                     in case overridden of
                          Inl e \<Rightarrow> (Inl e, svc)
                        | Inr breaking_overridden \<Rightarrow>
                            (case store_write_schema store (factory svc) text_in of
                               (Inl e, f) \<Rightarrow> (Inl (Storage e), svc\<lparr>factory := f\<rparr>)
                             | (Inr _, f) \<Rightarrow>
                                 (let svc = svc\<lparr>factory := f,
                                        schema_cache := cache_invalidate (env_schema_cache env) (schema_cache svc) tenant,
                                        check_cache := cache_invalidate_all (env_check_cache env) (check_cache svc)\<rparr>
                                  in (Inr \<lparr>breaking_changes_overridden = breaking_overridden\<rparr>,
                                      emit (audit_schema_write tenant force breaking_overridden None) svc)))))))"

definition read_schema ::
  "('f, 'sc, 'cc) Env \<Rightarrow> TenantId \<Rightarrow> ('f, 'sc, 'cc) AuthzService \<Rightarrow>
     (ApiError + string option) \<times> ('f, 'sc, 'cc) AuthzService" where
  "read_schema env tenant svc =
     (case open_store env tenant svc of (store, svc) \<Rightarrow>
        (map_err Storage (store_read_schema store (factory svc)), svc))"

definition lookup_subjects ::
  "('f, 'sc, 'cc) Env \<Rightarrow> TenantId \<Rightarrow> LookupSubjectsInput \<Rightarrow> ('f, 'sc, 'cc) AuthzService \<Rightarrow>
     (ApiError + LookupSubjectsOutput) \<times> ('f, 'sc, 'cc) AuthzService" where
  "lookup_subjects env tenant input svc =
     (case expand_permission_tree env tenant
          \<lparr>epi_object_type = lsi_object_type input, epi_object_id = lsi_object_id input,
           epi_permission = lsi_permission input, epi_consistency = lsi_consistency input\<rparr> svc of
        (Inl e, svc) \<Rightarrow> (Inl e, svc)
      | (Inr expand_output, svc) \<Rightarrow>
          (let subjects = collect_subjects (epo_tree expand_output) (lsi_subject_type input);
               subjects = sort_key (\<lambda>s. (subject_type s, subject_id s)) subjects;
               subjects = remdups_adj subjects
           in (Inr \<lparr>lso_subjects = subjects, lso_snapshot = epo_snapshot expand_output\<rparr>, svc)))"

text \<open>The loop of \<open>lookup_resources\<close>, with the results pushed so far.\<close>

fun lookup_loop ::
  "CheckEngine \<Rightarrow> LookupResourcesInput \<Rightarrow> SnapshotToken option \<Rightarrow> nat \<Rightarrow> string list \<Rightarrow> string list \<Rightarrow>
     CheckError + string list" where
  "lookup_loop engine input snapshot limit results [] = Inr results"
| "lookup_loop engine input snapshot limit results (oi # rest) =
     (if length results \<ge> limit then Inr results
      else and_then (check engine
          \<lparr>cr_object_type = lri_resource_type input, cr_object_id = oi,
           cr_permission = lri_permission input, cr_subject_type = lri_subject_type input,
           cr_subject_id = lri_subject_id input, cr_snapshot = snapshot\<rparr>) (\<lambda>check_result.
        lookup_loop engine input snapshot limit (if allowed check_result then results @ [oi] else results) rest))"

definition lookup_resources ::
  "('f, 'sc, 'cc) Env \<Rightarrow> TenantId \<Rightarrow> LookupResourcesInput \<Rightarrow> ('f, 'sc, 'cc) AuthzService \<Rightarrow>
     (ApiError + LookupResourcesOutput) \<times> ('f, 'sc, 'cc) AuthzService" where
  "lookup_resources env tenant input svc =
     (case open_store env tenant svc of (store, svc) \<Rightarrow>
      case resolve_snapshot store (factory svc) (lri_consistency input) of
        Inl e \<Rightarrow> (Inl e, svc)
      | Inr snapshot \<Rightarrow>
          (case store_list_object_ids store (factory svc) (lri_resource_type input) snapshot None of
             Inl e \<Rightarrow> (Inl (Storage e), svc)
           | Inr object_ids \<Rightarrow>
               (case load_schema_cached env tenant store svc of
                  (Inl e, svc) \<Rightarrow> (Inl e, svc)
                | (Inr schema, svc) \<Rightarrow>
                    (let engine = CheckEngine_new (StoreTupleReader store (factory svc)) schema (engine_config svc);
                         limit = (case lri_limit input of Some n \<Rightarrow> n | None \<Rightarrow> 1000)
                     in case map_err Check (lookup_loop engine input snapshot limit [] object_ids) of
                          Inl e \<Rightarrow> (Inl e, svc)
                        | Inr results \<Rightarrow> (Inr \<lparr>lro_resource_ids = results, lro_snapshot = snapshot\<rparr>, svc)))))"

end
