(* ===== verification/Auth.thy ===== *)
theory Auth
  imports Service
begin

text \<open>
  \<open>kraalzibar-server/src/auth.rs\<close>, \<open>middleware/auth.rs\<close> and the record of \<open>api_key_repository.rs\<close>: API keys
  and who a request acts for. The argon2 library and the key table are parameters; the handler behind
  the middleware is a function of the tenant the middleware inserts.
\<close>

section \<open>API keys\<close>

datatype AuthError =
    MissingHeader
  | InvalidKeyFormat
  | UnknownKey
  | RevokedKey
  | AuthInternal string

fun AuthError_to_string :: "AuthError \<Rightarrow> string" where
  "AuthError_to_string MissingHeader = ''missing authorization header''"
| "AuthError_to_string InvalidKeyFormat = ''invalid api key format''"
| "AuthError_to_string UnknownKey = ''unknown api key''"
| "AuthError_to_string RevokedKey = ''api key has been revoked''"
| "AuthError_to_string (AuthInternal m) = ''internal authentication error: '' @ m"

record ApiKeyRecord =
  akr_key_id :: string
  akr_key_hash :: string
  akr_tenant_id :: TenantId
  akr_revoked :: bool

record TenantContext =
  tc_tenant_id :: TenantId
  tc_key_id :: string

text \<open>\<open>str::splitn\<close>: at most \<open>n\<close> pieces, the last one keeps the remaining separators.\<close>

fun splitn :: "nat \<Rightarrow> char \<Rightarrow> string \<Rightarrow> string list" where
  "splitn 0 sep s = []"
| "splitn (Suc 0) sep s = [s]"
| "splitn (Suc (Suc n)) sep s =
     (if sep \<in> set s then takeWhile (\<lambda>c. c \<noteq> sep) s # splitn (Suc n) sep (tl (dropWhile (\<lambda>c. c \<noteq> sep) s))
      else [s])"

definition parse_api_key :: "string \<Rightarrow> AuthError + string \<times> string" where
  "parse_api_key raw_key =
     (let parts = splitn 3 (CHR ''_'') raw_key
      in if length parts \<noteq> 3 \<or> parts ! 0 \<noteq> ''kraalzibar'' then Inl InvalidKeyFormat
         else
           (let key_id = parts ! 1; secret = parts ! 2
            in if key_id = [] \<or> secret = [] then Inl InvalidKeyFormat else Inr (key_id, secret)))"

text \<open>The operations of \<open>argon2\<close>: hashing under a salt, reading a hash, and verifying against it.\<close>

record 'h Argon2 =
  hash_password :: "string \<Rightarrow> string \<Rightarrow> string + string"
  PasswordHash_new :: "string \<Rightarrow> string + 'h"
  verify_password :: "string \<Rightarrow> 'h \<Rightarrow> bool"

definition hash_secret :: "'h Argon2 \<Rightarrow> string \<Rightarrow> string \<Rightarrow> AuthError + string" where
  "hash_secret A salt secret = map_err AuthInternal (hash_password A secret salt)"

definition verify_secret :: "'h Argon2 \<Rightarrow> string \<Rightarrow> string \<Rightarrow> AuthError + bool" where
  "verify_secret A secret hash =
     and_then (map_err AuthInternal (PasswordHash_new A hash)) (\<lambda>parsed_hash. Inr (verify_password A secret parsed_hash))"

text \<open>The characters drawn for an index below 36; the draws are the parameters of \<open>generate_api_key\<close>.\<close>

definition key_char :: "nat \<Rightarrow> char" where
  "key_char idx = (if idx < 10 then char_of (48 + idx) else char_of (97 + idx - 10 :: nat))"

definition generate_api_key :: "nat list \<Rightarrow> nat list \<Rightarrow> string \<times> string" where
  "generate_api_key id_draws secret_draws =
     (let key_id = map key_char id_draws; secret = map key_char secret_draws
      in (''kraalzibar_'' @ key_id @ ''_'' @ secret, secret))"

text \<open>The result of an authentication and the audit events it emits.\<close>

definition authenticate ::
  "'h Argon2 \<Rightarrow> string \<Rightarrow> (string \<Rightarrow> ApiKeyRecord option) \<Rightarrow> (AuthError + TenantContext) \<times> AuditEvent list" where
  "authenticate A raw_key lookup =
     (case parse_api_key raw_key of
        Inl e \<Rightarrow> (Inl e, [audit_auth_failure (AuthError_to_string e) None])
      | Inr (key_id, secret) \<Rightarrow>
          (case lookup key_id of
             None \<Rightarrow> (Inl UnknownKey, [audit_auth_failure ''unknown api key'' (Some key_id)])
           | Some rec \<Rightarrow>
               if akr_revoked rec then (Inl RevokedKey, [audit_auth_failure ''api key revoked'' (Some key_id)])
               else
                 (case verify_secret A secret (akr_key_hash rec) of
                    Inl e \<Rightarrow> (Inl e, [])
                  | Inr valid \<Rightarrow>
                      if \<not> valid then (Inl UnknownKey, [audit_auth_failure ''invalid secret'' (Some key_id)])
                      else (Inr \<lparr>tc_tenant_id = akr_tenant_id rec, tc_key_id = akr_key_id rec\<rparr>,
                            [audit_auth_success (akr_tenant_id rec) (akr_key_id rec)]))))"

section \<open>The key table\<close>

text \<open>The rows of \<open>api_keys\<close>, with the columns the queries name.\<close>

record ApiKeyRow =
  row_key_id :: string
  row_key_hash :: string
  row_tenant_id :: Uuid
  row_revoked :: bool

definition ApiKeyRecord_of :: "ApiKeyRow \<Rightarrow> ApiKeyRecord" where
  "ApiKeyRecord_of r = \<lparr>akr_key_id = row_key_id r, akr_key_hash = row_key_hash r,
     akr_tenant_id = TenantId (row_tenant_id r), akr_revoked = row_revoked r\<rparr>"

text \<open>\<open>lookup_by_key_id\<close> over the query \<open>fetch_optional\<close>, which may fail with the driver's error text.\<close>

definition lookup_by_key_id ::
  "(string \<Rightarrow> string + ApiKeyRow option) \<Rightarrow> string \<Rightarrow> string + ApiKeyRecord option" where
  "lookup_by_key_id fetch_optional key_id =
     and_then (fetch_optional key_id) (\<lambda>row. Inr (map_option ApiKeyRecord_of row))"

section \<open>The middleware\<close>

record 'r AuthState =
  repository :: "'r option"
  dev_tenant :: TenantId

definition dev_mode :: "'r AuthState" where
  "dev_mode = \<lparr>repository = None, dev_tenant = TenantId 0\<rparr>"

definition with_repository :: "'r \<Rightarrow> 'r AuthState" where
  "with_repository r = \<lparr>repository = Some r, dev_tenant = TenantId 0\<rparr>"

definition is_dev_mode :: "'r AuthState \<Rightarrow> bool" where
  "is_dev_mode st \<longleftrightarrow> repository st = None"

definition skip_auth :: "string \<Rightarrow> bool" where
  "skip_auth path \<longleftrightarrow> path = ''/healthz'' \<or> path = ''/metrics''"

text \<open>
  What the middleware decides: run the handler, with the tenant it inserted if any, or answer with a
  status and message. \<open>authorization\<close> is the header where it is present and is visible text.
\<close>

datatype AuthDecision =
    RunHandler "TenantId option"
  | AuthReject nat string

type_synonym KeyQuery = "string \<Rightarrow> string + ApiKeyRow option"

definition rest_auth_middleware ::
  "'h Argon2 \<Rightarrow> KeyQuery AuthState \<Rightarrow> string \<Rightarrow> string option \<Rightarrow> AuthDecision \<times> AuditEvent list" where
  "rest_auth_middleware A st path authorization =
     (if skip_auth path then (RunHandler None, [])
      else case repository st of
        None \<Rightarrow> (RunHandler (Some (dev_tenant st)), [])
      | Some repo \<Rightarrow>
          (case authorization of
             None \<Rightarrow> (AuthReject 401 ''missing authorization header'', [])
           | Some auth_header \<Rightarrow>
               (case strip_prefix ''Bearer '' auth_header of
                  None \<Rightarrow> (AuthReject 401 ''invalid authorization format'', [])
                | Some raw_key \<Rightarrow>
                    (case parse_api_key raw_key of
                       Inl _ \<Rightarrow> (AuthReject 401 ''invalid api key format'', [])
                     | Inr (key_id, _) \<Rightarrow>
                         (case lookup_by_key_id repo key_id of
                            Inl e \<Rightarrow> (AuthReject 500 ''internal server error'', [])
                          | Inr lookup_result \<Rightarrow>
                              (case authenticate A raw_key (\<lambda>_. lookup_result) of
                                 (Inr ctx, evs) \<Rightarrow> (RunHandler (Some (tc_tenant_id ctx)), evs)
                               | (Inl RevokedKey, evs) \<Rightarrow> (AuthReject 401 ''api key has been revoked'', evs)
                               | (Inl _, evs) \<Rightarrow> (AuthReject 401 ''invalid api key'', evs)))))))"

text \<open>The gRPC status codes the program names; the others by their number.\<close>

datatype TonicCode =
    Unauthenticated
  | TonicInternal
  | InvalidArgument
  | NotFound
  | FailedPrecondition
  | ResourceExhausted
  | Unimplemented
  | PermissionDenied
  | DeadlineExceeded
  | Unavailable
  | OtherCode nat

definition grpc_auth_interceptor ::
  "'h Argon2 \<Rightarrow> KeyQuery AuthState \<Rightarrow> string option \<Rightarrow> ((TonicCode \<times> string) + TenantId) \<times> AuditEvent list" where
  "grpc_auth_interceptor A st authorization =
     (case repository st of
        None \<Rightarrow> (Inr (dev_tenant st), [])
      | Some repo \<Rightarrow>
          (case authorization of
             None \<Rightarrow> (Inl (Unauthenticated, ''missing authorization header''), [])
           | Some auth_header \<Rightarrow>
               (case strip_prefix ''Bearer '' auth_header of
                  None \<Rightarrow> (Inl (Unauthenticated, ''invalid authorization format''), [])
                | Some raw_key \<Rightarrow>
                    (case parse_api_key raw_key of
                       Inl _ \<Rightarrow> (Inl (Unauthenticated, ''invalid api key format''), [])
                     | Inr (key_id, _) \<Rightarrow>
                         (case lookup_by_key_id repo key_id of
                            Inl e \<Rightarrow> (Inl (TonicInternal, ''internal server error''), [])
                          | Inr lookup_result \<Rightarrow>
                              (case authenticate A raw_key (\<lambda>_. lookup_result) of
                                 (Inr ctx, evs) \<Rightarrow> (Inr (tc_tenant_id ctx), evs)
                               | (Inl RevokedKey, evs) \<Rightarrow> (Inl (Unauthenticated, ''api key has been revoked''), evs)
                               | (Inl _, evs) \<Rightarrow> (Inl (Unauthenticated, ''invalid api key''), evs)))))))"

section \<open>Lemmas\<close>

lemma takeWhile_sep: "sep \<notin> set p \<Longrightarrow> takeWhile (\<lambda>c. c \<noteq> sep) (p @ sep # s) = p"
  by (induction p) auto

lemma dropWhile_sep: "sep \<notin> set p \<Longrightarrow> dropWhile (\<lambda>c. c \<noteq> sep) (p @ sep # s) = sep # s"
  by (induction p) auto

lemma split_first: "sep \<in> set s \<Longrightarrow> s = takeWhile (\<lambda>c. c \<noteq> sep) s @ sep # tl (dropWhile (\<lambda>c. c \<noteq> sep) s)"
  by (induction s) auto

lemma parse_api_key_Inr:
  "parse_api_key raw = Inr (k, s) \<longleftrightarrow>
     raw = ''kraalzibar_'' @ k @ ''_'' @ s \<and> CHR ''_'' \<notin> set k \<and> k \<noteq> [] \<and> s \<noteq> []" (is "?l \<longleftrightarrow> ?r")
proof
  assume ?r
  then have "splitn 3 (CHR ''_'') raw = [''kraalzibar'', k, s]"
    by (simp add: numeral_3_eq_3 takeWhile_sep dropWhile_sep)
  with \<open>?r\<close> show ?l by (simp add: parse_api_key_def Let_def)
next
  assume l: ?l
  let ?p = "takeWhile (\<lambda>c. c \<noteq> CHR ''_'') raw" and ?t = "tl (dropWhile (\<lambda>c. c \<noteq> CHR ''_'') raw)"
  from l have m: "CHR ''_'' \<in> set raw" and p: "?p = ''kraalzibar''" and t: "CHR ''_'' \<in> set ?t"
    and k: "k = takeWhile (\<lambda>c. c \<noteq> CHR ''_'') ?t" and s: "s = tl (dropWhile (\<lambda>c. c \<noteq> CHR ''_'') ?t)"
    and ne: "k \<noteq> []" "s \<noteq> []"
    by (auto simp: parse_api_key_def Let_def numeral_3_eq_3 split: if_splits)
  from split_first [OF m] p have "raw = ''kraalzibar'' @ CHR ''_'' # ?t" by simp
  moreover from split_first [OF t] k s have "?t = k @ CHR ''_'' # s" by simp
  moreover have "CHR ''_'' \<notin> set k" unfolding k by (auto dest: set_takeWhileD)
  ultimately show ?r using ne by simp
qed

lemma parse_api_key_Inl: "parse_api_key raw = Inl e \<Longrightarrow> e = InvalidKeyFormat"
  by (auto simp: parse_api_key_def Let_def split: if_splits)

lemma key_char_not_underscore:
  assumes "i < 36"
  shows "key_char i \<noteq> CHR ''_''"
proof
  assume "key_char i = CHR ''_''"
  then have "of_char (key_char i) = (95 :: nat)" by simp
  moreover have "of_char (key_char i) = (if i < 10 then 48 + i else 87 + i :: nat)"
    using assms by (simp add: key_char_def)
  ultimately show False using assms by (simp split: if_splits)
qed

text \<open>A successful authentication: every check it passed.\<close>

lemma authenticate_Inr:
  "authenticate A raw lookup = (Inr ctx, evs) \<longleftrightarrow>
     (\<exists>k s rec h. parse_api_key raw = Inr (k, s) \<and> lookup k = Some rec \<and> \<not> akr_revoked rec \<and>
        PasswordHash_new A (akr_key_hash rec) = Inr h \<and> verify_password A s h \<and>
        ctx = \<lparr>tc_tenant_id = akr_tenant_id rec, tc_key_id = akr_key_id rec\<rparr> \<and>
        evs = [AuthSuccess (akr_tenant_id rec) (akr_key_id rec)])"
  unfolding authenticate_def verify_secret_def
  by (auto simp: result_simps audit_auth_success_def split: option.splits sum.splits if_splits)

text \<open>What running the handler means for a request that is not exempt.\<close>

lemma rest_auth_RunHandler:
  assumes "rest_auth_middleware A st path authorization = (RunHandler t, evs)" "\<not> skip_auth path"
    and "repository st = Some repo"
  obtains raw k s row where "authorization = Some (''Bearer '' @ raw)" "parse_api_key raw = Inr (k, s)"
    "repo k = Inr (Some row)" "\<not> row_revoked row"
    "verify_secret A s (row_key_hash row) = Inr True" "t = Some (TenantId (row_tenant_id row))"
    "evs = [AuthSuccess (TenantId (row_tenant_id row)) (row_key_id row)]"
proof -
  from assms obtain raw k s lr where a: "authorization = Some (''Bearer '' @ raw)"
    and k: "parse_api_key raw = Inr (k, s)" and l: "lookup_by_key_id repo k = Inr lr"
    and au: "\<exists>ctx. authenticate A raw (\<lambda>_. lr) = (Inr ctx, evs) \<and> t = Some (tc_tenant_id ctx)"
    by (auto simp: rest_auth_middleware_def strip_prefix_Some
        split: option.splits sum.splits prod.splits AuthError.splits)
  from au k obtain rec h where "lr = Some rec" "\<not> akr_revoked rec" "PasswordHash_new A (akr_key_hash rec) = Inr h"
      "verify_password A s h" "t = Some (akr_tenant_id rec)" "evs = [AuthSuccess (akr_tenant_id rec) (akr_key_id rec)]"
    by (auto simp: authenticate_Inr)
  moreover from l this(1) obtain row where "repo k = Inr (Some row)" "rec = ApiKeyRecord_of row"
    by (auto simp: lookup_by_key_id_def result_simps)
  ultimately show thesis using that a k by (simp add: ApiKeyRecord_of_def verify_secret_def)
qed

text \<open>A generated key is accepted by the parser, which gives back the parts it was made of.\<close>

lemma parse_generated_key:
  assumes "length ids = 16" "length secrets = 32" "list_all (\<lambda>i. i < 36) ids"
  shows "parse_api_key (fst (generate_api_key ids secrets)) = Inr (map key_char ids, snd (generate_api_key ids secrets))"
proof -
  have "CHR ''_'' \<notin> set (map key_char ids)"
    using assms(3) key_char_not_underscore by (auto simp: list_all_iff) metis
  with assms(1,2) show ?thesis by (auto simp: parse_api_key_Inr generate_api_key_def Let_def)
qed

section \<open>Properties of authentication\<close>

text \<open>
  C27. No request is handled for a tenant without that tenant's key: with a key table, outside the
  health and metrics paths, the handler runs only when the header is a bearer key whose id is in the
  table, not revoked, with a secret that verifies against the stored hash; it runs for the tenant of
  that row, and the success is audited.
\<close>

theorem rest_auth_sound:
  assumes "rest_auth_middleware A (with_repository repo) path authorization = (RunHandler t, evs)"
    and "\<not> skip_auth path"
  shows "\<exists>k s row. authorization = Some (''Bearer kraalzibar_'' @ k @ ''_'' @ s) \<and> CHR ''_'' \<notin> set k \<and>
    repo k = Inr (Some row) \<and> \<not> row_revoked row \<and> verify_secret A s (row_key_hash row) = Inr True \<and>
    t = Some (TenantId (row_tenant_id row)) \<and> evs = [AuthSuccess (TenantId (row_tenant_id row)) (row_key_id row)]"
  using assms by - (rule rest_auth_RunHandler [of A "with_repository repo" path authorization t evs repo],
      auto simp: with_repository_def parse_api_key_Inr)

definition demo_argon :: "string Argon2" where
  "demo_argon = \<lparr>hash_password = (\<lambda>secret salt. Inr secret), PasswordHash_new = Inr, verify_password = (=)\<rparr>"

definition demo_keys :: KeyQuery where
  "demo_keys k = Inr (if k = ''abc'' then Some \<lparr>row_key_id = k, row_key_hash = ''s3_cret'', row_tenant_id = 1, row_revoked = False\<rparr>
     else None)"

theorem rest_auth_sound_witness:
  "rest_auth_middleware demo_argon (with_repository demo_keys) ''/v1/schema'' (Some ''Bearer kraalzibar_abc_s3_cret'') =
     (RunHandler (Some (TenantId 1)), [AuthSuccess (TenantId 1) ''abc'']) \<and>
   (\<exists>k s row. ''Bearer kraalzibar_abc_s3_cret'' = ''Bearer kraalzibar_'' @ k @ ''_'' @ s \<and> demo_keys k = Inr (Some row) \<and> \<not> row_revoked row)"
proof -
  have r: "rest_auth_middleware demo_argon (with_repository demo_keys) ''/v1/schema'' (Some ''Bearer kraalzibar_abc_s3_cret'') =
     (RunHandler (Some (TenantId 1)), [AuthSuccess (TenantId 1) ''abc''])" by code_simp
  have s: "\<not> skip_auth ''/v1/schema''" by (simp add: skip_auth_def)
  from rest_auth_sound [OF r s] r show ?thesis by blast
qed

text \<open>
  C28. The two front ends agree: for a path that needs authentication, the REST middleware runs the
  handler for a tenant exactly when the gRPC interceptor lets the call through for that tenant, with
  the same audit events, and rejects exactly when it rejects, with the same message.
\<close>

theorem rest_grpc_auth_agree:
  assumes "\<not> skip_auth path"
  shows "grpc_auth_interceptor A st authorization =
    (case rest_auth_middleware A st path authorization of
       (RunHandler (Some t), evs) \<Rightarrow> (Inr t, evs)
     | (RunHandler None, evs) \<Rightarrow> (Inl (TonicInternal, []), evs)
     | (AuthReject status m, evs) \<Rightarrow> (Inl (if status = 401 then Unauthenticated else TonicInternal, m), evs))"
  using assms
  by (auto simp: rest_auth_middleware_def grpc_auth_interceptor_def
      split: option.splits sum.splits prod.splits AuthError.splits)

theorem rest_grpc_auth_agree_witness:
  "grpc_auth_interceptor demo_argon (with_repository demo_keys) (Some ''Bearer kraalzibar_abc_wrong'') =
     (Inl (Unauthenticated, ''invalid api key''), [AuthFailure ''invalid secret'' ''abc''])"
proof -
  have r: "rest_auth_middleware demo_argon (with_repository demo_keys) ''/v1/schema'' (Some ''Bearer kraalzibar_abc_wrong'') =
     (AuthReject 401 ''invalid api key'', [AuthFailure ''invalid secret'' ''abc''])" by code_simp
  from rest_grpc_auth_agree [of "''/v1/schema''" demo_argon "with_repository demo_keys"] r show ?thesis
    by (simp add: skip_auth_def)
qed

end
