(* ===== verification/Rest.thy ===== *)
theory Rest
  imports Auth
begin

text \<open>
  \<open>kraalzibar-server/src/rest\<close>: request and response types, the handlers, and the router with its
  metrics and authentication layers. Decoding a body and the answers of the router for an unknown
  route belong to axum and serde and are parameters; a response is its status and JSON value. The
  application state and the service share one metrics object, as \<open>main.rs\<close> wires them, so the layer
  updates the service's.
\<close>

section \<open>Types\<close>

datatype ConsistencyRequest =
    ReqFull
  | ReqMinimizeLatency
  | ReqAtLeastAsFresh string
  | ReqAtExactSnapshot string

record CheckPermissionRequest =
  cpr_resource_type :: string
  cpr_resource_id :: string
  cpr_permission :: string
  cpr_subject_type :: string
  cpr_subject_id :: string
  cpr_consistency :: "ConsistencyRequest option"

record ExpandPermissionRequest =
  epr_resource_type :: string
  epr_resource_id :: string
  epr_permission :: string
  epr_consistency :: "ConsistencyRequest option"

record LookupResourcesRequest =
  lrr_resource_type :: string
  lrr_permission :: string
  lrr_subject_type :: string
  lrr_subject_id :: string
  lrr_limit :: "nat option"
  lrr_consistency :: "ConsistencyRequest option"

record LookupSubjectsRequest =
  lsr_resource_type :: string
  lsr_resource_id :: string
  lsr_permission :: string
  lsr_subject_type :: string
  lsr_consistency :: "ConsistencyRequest option"

record RelationshipUpdate =
  upd_operation :: string
  upd_resource_type :: string
  upd_resource_id :: string
  upd_relation :: string
  upd_subject_type :: string
  upd_subject_id :: string
  upd_subject_relation :: "string option"

record WriteRelationshipsRequest =
  wrr_updates :: "RelationshipUpdate list"

record RelationshipFilterRequest =
  rfr_resource_type :: "string option"
  rfr_resource_id :: "string option"
  rfr_relation :: "string option"
  rfr_subject_type :: "string option"
  rfr_subject_id :: "string option"

record ReadRelationshipsRequest =
  rrr_filter :: "RelationshipFilterRequest option"
  rrr_limit :: "nat option"
  rrr_consistency :: "ConsistencyRequest option"

record WriteSchemaRequest =
  wsr_schema :: string
  wsr_force :: bool

section \<open>JSON values\<close>

datatype Json =
    JNull
  | JBool bool
  | JString string
  | JArray "Json list"
  | JObject "(string \<times> Json) list"

type_synonym ApiResult = "nat \<times> Json"

text \<open>\<open>#[serde(skip_serializing_if = "Option::is_none")]\<close>, and an option in \<open>json!\<close>.\<close>

definition opt_field :: "string \<Rightarrow> string option \<Rightarrow> (string \<times> Json) list" where
  "opt_field name v = (case v of None \<Rightarrow> [] | Some s \<Rightarrow> [(name, JString s)])"

definition json_opt :: "string option \<Rightarrow> Json" where
  "json_opt v = (case v of None \<Rightarrow> JNull | Some s \<Rightarrow> JString s)"

definition CheckPermissionResponse_json :: "bool \<Rightarrow> string option \<Rightarrow> Json" where
  "CheckPermissionResponse_json a t = JObject ([(''allowed'', JBool a)] @ opt_field ''checked_at'' t)"

definition ExpandPermissionResponse_json :: "Json \<Rightarrow> string option \<Rightarrow> Json" where
  "ExpandPermissionResponse_json tree t = JObject ([(''tree'', tree)] @ opt_field ''expanded_at'' t)"

definition LookupResourcesResponse_json :: "string list \<Rightarrow> string option \<Rightarrow> Json" where
  "LookupResourcesResponse_json ids t =
     JObject ([(''resource_ids'', JArray (map JString ids))] @ opt_field ''looked_up_at'' t)"

definition SubjectResponse_json :: "SubjectRef \<Rightarrow> Json" where
  "SubjectResponse_json s = JObject ([(''subject_type'', JString (subject_type s)),
     (''subject_id'', JString (subject_id s))] @ opt_field ''subject_relation'' (subject_relation s))"

definition LookupSubjectsResponse_json :: "SubjectRef list \<Rightarrow> string option \<Rightarrow> Json" where
  "LookupSubjectsResponse_json ss t =
     JObject ([(''subjects'', JArray (map SubjectResponse_json ss))] @ opt_field ''looked_up_at'' t)"

definition WriteRelationshipsResponse_json :: "string \<Rightarrow> Json" where
  "WriteRelationshipsResponse_json t = JObject [(''written_at'', JString t)]"

definition RelationshipResponse_json :: "Tuple \<Rightarrow> Json" where
  "RelationshipResponse_json t = JObject ([(''resource_type'', JString (object_type (tup_object t))),
     (''resource_id'', JString (object_id (tup_object t))), (''relation'', JString (tup_relation t)),
     (''subject_type'', JString (subject_type (tup_subject t))),
     (''subject_id'', JString (subject_id (tup_subject t)))] @
     opt_field ''subject_relation'' (subject_relation (tup_subject t)))"

definition ReadRelationshipsResponse_json :: "Tuple list \<Rightarrow> string option \<Rightarrow> Json" where
  "ReadRelationshipsResponse_json ts t =
     JObject ([(''relationships'', JArray (map RelationshipResponse_json ts))] @ opt_field ''read_at'' t)"

definition WriteSchemaResponse_json :: "bool \<Rightarrow> Json" where
  "WriteSchemaResponse_json b = JObject [(''breaking_changes_overridden'', JBool b)]"

definition ReadSchemaResponse_json :: "string \<Rightarrow> Json" where
  "ReadSchemaResponse_json s = JObject [(''schema'', JString s)]"

fun expand_tree_to_json :: "ExpandTree \<Rightarrow> Json" where
  "expand_tree_to_json (TLeaf s) = JObject [(''type'', JString ''leaf''),
     (''subject'', JObject [(''subject_type'', JString (subject_type s)), (''subject_id'', JString (subject_id s)),
        (''subject_relation'', json_opt (subject_relation s))])]"
| "expand_tree_to_json (TThis r subjects) =
     JObject [(''type'', JString ''this''), (''children'', JArray (map expand_tree_to_json subjects))]"
| "expand_tree_to_json (TUnion children) =
     JObject [(''type'', JString ''union''), (''children'', JArray (map expand_tree_to_json children))]"
| "expand_tree_to_json (TIntersection children) =
     JObject [(''type'', JString ''intersection''), (''children'', JArray (map expand_tree_to_json children))]"
| "expand_tree_to_json (TExclusion base excluded) =
     JObject [(''type'', JString ''exclusion''), (''base'', expand_tree_to_json base),
       (''excluded'', expand_tree_to_json excluded)]"
| "expand_tree_to_json (TArrow ts cp children) =
     JObject [(''type'', JString ''arrow''), (''children'', JArray (map expand_tree_to_json children))]"

section \<open>Shared pieces of the handlers\<close>

definition MAX_BATCH_SIZE :: nat where "MAX_BATCH_SIZE = 1000"
definition MAX_IDENTIFIER_LENGTH :: nat where "MAX_IDENTIFIER_LENGTH = 256"
definition DEFAULT_READ_LIMIT :: nat where "DEFAULT_READ_LIMIT = 1000"

text \<open>Serializing these values cannot fail, so \<open>json_response\<close> keeps the status.\<close>

definition json_response :: "nat \<Rightarrow> Json \<Rightarrow> ApiResult" where
  "json_response status v = (status, v)"

definition error_response :: "nat \<Rightarrow> string \<Rightarrow> ApiResult" where
  "error_response status m = (status, JObject [(''error'', JString m)])"

definition validate_identifier :: "string \<Rightarrow> string \<Rightarrow> ApiResult + unit" where
  "validate_identifier field v =
     (if v = [] then Inl (error_response 400 (field @ '' must not be empty''))
      else if length v > MAX_IDENTIFIER_LENGTH
      then Inl (error_response 400 (field @ '' exceeds maximum length of '' @ show_nat MAX_IDENTIFIER_LENGTH))
      else Inr ())"

text \<open>The chain \<open>validate_identifier(..).and_then(|()| ..)\<close> over fields and values.\<close>

fun validate_all :: "(string \<times> string) list \<Rightarrow> ApiResult + unit" where
  "validate_all [] = Inr ()"
| "validate_all ((f, v) # rest) = and_then (validate_identifier f v) (\<lambda>_. validate_all rest)"

definition parse_token :: "string \<Rightarrow> ApiResult + SnapshotToken" where
  "parse_token token =
     (case parse_u64 token of
        None \<Rightarrow> Inl (error_response 400 ''invalid snapshot token format'')
      | Some v \<Rightarrow> Inr (SnapshotToken v))"

fun resolve_consistency :: "ConsistencyRequest option \<Rightarrow> ApiResult + Consistency" where
  "resolve_consistency (Some ReqFull) = Inr FullConsistency"
| "resolve_consistency (Some (ReqAtLeastAsFresh token)) =
     and_then (parse_token token) (\<lambda>t. Inr (AtLeastAsFresh t))"
| "resolve_consistency (Some (ReqAtExactSnapshot token)) =
     and_then (parse_token token) (\<lambda>t. Inr (AtExactSnapshot t))"
| "resolve_consistency _ = Inr MinimizeLatency"

fun api_error_to_response :: "ApiError \<Rightarrow> ApiResult" where
  "api_error_to_response (Check (TypeNotFound t)) = error_response 404 (ApiError_to_string (Check (TypeNotFound t)))"
| "api_error_to_response (Check (PermissionNotFound t p)) =
     error_response 404 (ApiError_to_string (Check (PermissionNotFound t p)))"
| "api_error_to_response (Check (RelationNotFound t r)) =
     error_response 404 (ApiError_to_string (Check (RelationNotFound t r)))"
| "api_error_to_response SchemaNotFound = error_response 404 (ApiError_to_string SchemaNotFound)"
| "api_error_to_response (Check (MaxDepthExceeded d)) =
     error_response 422 (ApiError_to_string (Check (MaxDepthExceeded d)))"
| "api_error_to_response (Parse e) = error_response 400 (ApiError_to_string (Parse e))"
| "api_error_to_response (Validation es) = error_response 400 (ApiError_to_string (Validation es))"
| "api_error_to_response (BreakingChanges cs) = error_response 412 (ApiError_to_string (BreakingChanges cs))"
| "api_error_to_response (Storage EmptyDeleteFilter) = error_response 400 (ApiError_to_string (Storage EmptyDeleteFilter))"
| "api_error_to_response (Storage (SnapshotAhead r c)) = error_response 400 (ApiError_to_string (Storage (SnapshotAhead r c)))"
| "api_error_to_response (Check (CheckStorageError m)) = error_response 500 ''internal server error''"
| "api_error_to_response (Storage (Internal m)) = error_response 500 ''internal server error''"

definition token_text :: "SnapshotToken option \<Rightarrow> string option" where
  "token_text snap = map_option SnapshotToken_to_string snap"

section \<open>Handlers\<close>

text \<open>
  A handler whose input is refused answers without calling the service: \<open>on_input\<close> runs the service
  only on an accepted input.
\<close>

definition on_input :: "ApiResult + 'i \<Rightarrow> ('i \<Rightarrow> 's \<Rightarrow> ApiResult \<times> 's) \<Rightarrow> 's \<Rightarrow> ApiResult \<times> 's" where
  "on_input input f svc = (case input of Inl resp \<Rightarrow> (resp, svc) | Inr i \<Rightarrow> f i svc)"

definition respond :: "('a \<Rightarrow> ApiResult) \<Rightarrow> (ApiError + 'a) \<times> 's \<Rightarrow> ApiResult \<times> 's" where
  "respond g r = (case r of (Inl e, svc) \<Rightarrow> (api_error_to_response e, svc) | (Inr a, svc) \<Rightarrow> (g a, svc))"

definition check_input :: "CheckPermissionRequest \<Rightarrow> ApiResult + CheckPermissionInput" where
  "check_input req =
     and_then (validate_all [(''resource_type'', cpr_resource_type req), (''resource_id'', cpr_resource_id req),
        (''permission'', cpr_permission req), (''subject_type'', cpr_subject_type req),
        (''subject_id'', cpr_subject_id req)]) (\<lambda>_.
     and_then (resolve_consistency (cpr_consistency req)) (\<lambda>c.
       Inr \<lparr>cpi_object_type = cpr_resource_type req, cpi_object_id = cpr_resource_id req,
         cpi_permission = cpr_permission req, cpi_subject_type = cpr_subject_type req,
         cpi_subject_id = cpr_subject_id req, cpi_consistency = c\<rparr>))"

definition h_check_permission ::
  "('f, 'sc, 'cc) Env \<Rightarrow> TenantId \<Rightarrow> CheckPermissionRequest \<Rightarrow> ('f, 'sc, 'cc) AuthzService \<Rightarrow>
     ApiResult \<times> ('f, 'sc, 'cc) AuthzService" where
  "h_check_permission env tenant req = on_input (check_input req) (\<lambda>input svc.
     respond (\<lambda>r. json_response 200 (CheckPermissionResponse_json (cpo_allowed r)
         (map_option (\<lambda>s. show_u64 (value_of s)) (cpo_snapshot r))))
       (check_permission env tenant input svc))"

definition expand_input :: "ExpandPermissionRequest \<Rightarrow> ApiResult + ExpandPermissionInput" where
  "expand_input req =
     and_then (validate_all [(''resource_type'', epr_resource_type req), (''resource_id'', epr_resource_id req),
        (''permission'', epr_permission req)]) (\<lambda>_.
     and_then (resolve_consistency (epr_consistency req)) (\<lambda>c.
       Inr \<lparr>epi_object_type = epr_resource_type req, epi_object_id = epr_resource_id req,
         epi_permission = epr_permission req, epi_consistency = c\<rparr>))"

definition h_expand_permission ::
  "('f, 'sc, 'cc) Env \<Rightarrow> TenantId \<Rightarrow> ExpandPermissionRequest \<Rightarrow> ('f, 'sc, 'cc) AuthzService \<Rightarrow>
     ApiResult \<times> ('f, 'sc, 'cc) AuthzService" where
  "h_expand_permission env tenant req = on_input (expand_input req) (\<lambda>input svc.
     respond (\<lambda>r. json_response 200 (ExpandPermissionResponse_json (expand_tree_to_json (epo_tree r))
         (token_text (epo_snapshot r))))
       (expand_permission_tree env tenant input svc))"

definition lookup_resources_input :: "LookupResourcesRequest \<Rightarrow> ApiResult + LookupResourcesInput" where
  "lookup_resources_input req =
     and_then (validate_all [(''resource_type'', lrr_resource_type req), (''permission'', lrr_permission req),
        (''subject_type'', lrr_subject_type req), (''subject_id'', lrr_subject_id req)]) (\<lambda>_.
     and_then (resolve_consistency (lrr_consistency req)) (\<lambda>c.
       Inr \<lparr>lri_resource_type = lrr_resource_type req, lri_permission = lrr_permission req,
         lri_subject_type = lrr_subject_type req, lri_subject_id = lrr_subject_id req,
         lri_consistency = c, lri_limit = map_option (\<lambda>l. min l 10000) (lrr_limit req)\<rparr>))"

definition h_lookup_resources ::
  "('f, 'sc, 'cc) Env \<Rightarrow> TenantId \<Rightarrow> LookupResourcesRequest \<Rightarrow> ('f, 'sc, 'cc) AuthzService \<Rightarrow>
     ApiResult \<times> ('f, 'sc, 'cc) AuthzService" where
  "h_lookup_resources env tenant req = on_input (lookup_resources_input req) (\<lambda>input svc.
     respond (\<lambda>r. json_response 200 (LookupResourcesResponse_json (lro_resource_ids r) (token_text (lro_snapshot r))))
       (lookup_resources env tenant input svc))"

definition lookup_subjects_input :: "LookupSubjectsRequest \<Rightarrow> ApiResult + LookupSubjectsInput" where
  "lookup_subjects_input req =
     and_then (validate_all [(''resource_type'', lsr_resource_type req), (''resource_id'', lsr_resource_id req),
        (''permission'', lsr_permission req), (''subject_type'', lsr_subject_type req)]) (\<lambda>_.
     and_then (resolve_consistency (lsr_consistency req)) (\<lambda>c.
       Inr \<lparr>lsi_object_type = lsr_resource_type req, lsi_object_id = lsr_resource_id req,
         lsi_permission = lsr_permission req, lsi_subject_type = lsr_subject_type req, lsi_consistency = c\<rparr>))"

definition h_lookup_subjects ::
  "('f, 'sc, 'cc) Env \<Rightarrow> TenantId \<Rightarrow> LookupSubjectsRequest \<Rightarrow> ('f, 'sc, 'cc) AuthzService \<Rightarrow>
     ApiResult \<times> ('f, 'sc, 'cc) AuthzService" where
  "h_lookup_subjects env tenant req = on_input (lookup_subjects_input req) (\<lambda>input svc.
     respond (\<lambda>r. json_response 200 (LookupSubjectsResponse_json (lso_subjects r) (token_text (lso_snapshot r))))
       (lookup_subjects env tenant input svc))"

text \<open>The filter a \<open>delete\<close> update builds: every field but the subject's relation.\<close>

definition delete_filter :: "RelationshipUpdate \<Rightarrow> TupleFilter" where
  "delete_filter u = \<lparr>f_object_type = Some (upd_resource_type u), f_object_id = Some (upd_resource_id u),
     f_relation = Some (upd_relation u), f_subject_type = Some (upd_subject_type u),
     f_subject_id = Some (upd_subject_id u), f_subject_relation = None\<rparr>"

definition update_subject :: "RelationshipUpdate \<Rightarrow> SubjectRef" where
  "update_subject u =
     (case upd_subject_relation u of
        Some rel \<Rightarrow> userset (upd_subject_type u) (upd_subject_id u) rel
      | None \<Rightarrow> direct (upd_subject_type u) (upd_subject_id u))"

fun collect_updates ::
  "TupleWrite list \<Rightarrow> TupleFilter list \<Rightarrow> RelationshipUpdate list \<Rightarrow> ApiResult + TupleWrite list \<times> TupleFilter list" where
  "collect_updates writes deletes [] = Inr (writes, deletes)"
| "collect_updates writes deletes (u # rest) =
     and_then (validate_all [(''resource_type'', upd_resource_type u), (''resource_id'', upd_resource_id u),
        (''relation'', upd_relation u), (''subject_type'', upd_subject_type u),
        (''subject_id'', upd_subject_id u)]) (\<lambda>_.
       if upd_operation u = ''touch'' then
         collect_updates (writes @ [TupleWrite_new (ObjectRef_new (upd_resource_type u) (upd_resource_id u))
            (upd_relation u) (update_subject u)]) deletes rest
       else if upd_operation u = ''delete'' then
         collect_updates writes (deletes @ [delete_filter u]) rest
       else Inl (error_response 400 (''unknown operation: '' @ upd_operation u)))"

definition write_input :: "WriteRelationshipsRequest \<Rightarrow> ApiResult + TupleWrite list \<times> TupleFilter list" where
  "write_input req =
     (if length (wrr_updates req) > MAX_BATCH_SIZE
      then Inl (error_response 400 (''batch size exceeds maximum of '' @ show_nat MAX_BATCH_SIZE))
      else collect_updates [] [] (wrr_updates req))"

definition h_write_relationships ::
  "('f, 'sc, 'cc) Env \<Rightarrow> TenantId \<Rightarrow> WriteRelationshipsRequest \<Rightarrow> ('f, 'sc, 'cc) AuthzService \<Rightarrow>
     ApiResult \<times> ('f, 'sc, 'cc) AuthzService" where
  "h_write_relationships env tenant req = on_input (write_input req) (\<lambda>(writes, deletes) svc.
     respond (\<lambda>token. json_response 200 (WriteRelationshipsResponse_json (show_u64 (value_of token))))
       (write_relationships env tenant writes deletes svc))"

definition read_filter :: "RelationshipFilterRequest option \<Rightarrow> TupleFilter" where
  "read_filter fr =
     (case fr of
        None \<Rightarrow> TupleFilter_default
      | Some f \<Rightarrow> \<lparr>f_object_type = rfr_resource_type f, f_object_id = rfr_resource_id f, f_relation = rfr_relation f,
          f_subject_type = rfr_subject_type f, f_subject_id = rfr_subject_id f, f_subject_relation = None\<rparr>)"

definition read_limit :: "nat option \<Rightarrow> nat" where
  "read_limit l = min (case l of Some n \<Rightarrow> n | None \<Rightarrow> DEFAULT_READ_LIMIT) 10000"

definition h_read_relationships ::
  "('f, 'sc, 'cc) Env \<Rightarrow> TenantId \<Rightarrow> ReadRelationshipsRequest \<Rightarrow> ('f, 'sc, 'cc) AuthzService \<Rightarrow>
     ApiResult \<times> ('f, 'sc, 'cc) AuthzService" where
  "h_read_relationships env tenant req = on_input (resolve_consistency (rrr_consistency req)) (\<lambda>c svc.
     respond (\<lambda>r. json_response 200 (ReadRelationshipsResponse_json (rro_tuples r)
         (map_option (\<lambda>s. show_u64 (value_of s)) (rro_snapshot r))))
       (read_relationships env tenant (read_filter (rrr_filter req)) c (Some (read_limit (rrr_limit req))) svc))"

definition h_write_schema ::
  "('f, 'sc, 'cc) Env \<Rightarrow> TenantId \<Rightarrow> WriteSchemaRequest \<Rightarrow> ('f, 'sc, 'cc) AuthzService \<Rightarrow>
     ApiResult \<times> ('f, 'sc, 'cc) AuthzService" where
  "h_write_schema env tenant req svc =
     respond (\<lambda>r. json_response 200 (WriteSchemaResponse_json (breaking_changes_overridden r)))
       (write_schema env tenant (wsr_schema req) (wsr_force req) svc)"

definition h_read_schema ::
  "('f, 'sc, 'cc) Env \<Rightarrow> TenantId \<Rightarrow> ('f, 'sc, 'cc) AuthzService \<Rightarrow> ApiResult \<times> ('f, 'sc, 'cc) AuthzService" where
  "h_read_schema env tenant svc =
     respond (\<lambda>r. case r of
          Some schema \<Rightarrow> json_response 200 (ReadSchemaResponse_json schema)
        | None \<Rightarrow> error_response 404 ''no schema has been written'')
       (read_schema env tenant svc)"

definition h_watch :: ApiResult where
  "h_watch = error_response 501 ''watch is not yet implemented''"

definition h_healthz :: ApiResult where
  "h_healthz = (200, JObject [(''status'', JString ''ok'')])"

end
