(* ===== verification/Service_Correct.thy ===== *)
theory Service_Correct
  imports Service
begin

text \<open>
  The caches of the service are transparent. What the service relies on of the cache library is
  \<open>cache_laws\<close>: a get returns the last value inserted under the key or nothing, whatever was evicted
  or expired meanwhile. Coherence of both caches with the stores is an invariant of every method,
  and in a coherent state each method answers as the same method without caches.
\<close>

section \<open>The contract of a cache\<close>

definition cache_laws :: "('k, 'v, 'c) Cache \<Rightarrow> ('c \<Rightarrow> 'k \<rightharpoonup> 'v) \<Rightarrow> bool" where
  "cache_laws C contents \<longleftrightarrow>
     (\<forall>n m. contents (cache_build C n m) = Map.empty) \<and>
     (\<forall>c k. fst (cache_get C c k) = None \<or> fst (cache_get C c k) = contents c k) \<and>
     (\<forall>c k. contents (snd (cache_get C c k)) \<subseteq>\<^sub>m contents c) \<and>
     (\<forall>c k v. contents (cache_insert C c k v) \<subseteq>\<^sub>m (contents c)(k \<mapsto> v)) \<and>
     (\<forall>c k. contents (cache_invalidate C c k) \<subseteq>\<^sub>m (contents c)(k := None)) \<and>
     (\<forall>c. contents (cache_invalidate_all C c) = Map.empty)"

lemma cache_lawsD:
  assumes "cache_laws C contents"
  shows "contents (cache_build C n m) = Map.empty"
    and "cache_get C c k = (Some v, c') \<Longrightarrow> contents c k = Some v"
    and "cache_get C c k = (r, c') \<Longrightarrow> contents c' j = Some w \<Longrightarrow> contents c j = Some w"
    and "contents (cache_insert C c k v) j = Some w \<Longrightarrow> j = k \<and> w = v \<or> contents c j = Some w"
    and "contents (cache_invalidate C c k) j = Some w \<Longrightarrow> j \<noteq> k \<and> contents c j = Some w"
    and "contents (cache_invalidate_all C c) = Map.empty"
proof -
  show "contents (cache_build C n m) = Map.empty" "contents (cache_invalidate_all C c) = Map.empty"
    using assms by (simp_all add: cache_laws_def)
  show "contents c k = Some v" if "cache_get C c k = (Some v, c')"
    using assms that unfolding cache_laws_def by (metis fst_conv option.distinct(1))
  show "contents c j = Some w" if "cache_get C c k = (r, c')" "contents c' j = Some w"
    using assms that unfolding cache_laws_def by (metis map_le_def domI snd_conv)
  show "j = k \<and> w = v \<or> contents c j = Some w" if "contents (cache_insert C c k v) j = Some w"
  proof -
    have "contents (cache_insert C c k v) \<subseteq>\<^sub>m (contents c)(k \<mapsto> v)" using assms by (simp add: cache_laws_def)
    with that have "((contents c)(k \<mapsto> v)) j = Some w" by (metis map_le_def domI)
    then show ?thesis by (simp split: if_splits)
  qed
  show "j \<noteq> k \<and> contents c j = Some w" if "contents (cache_invalidate C c k) j = Some w"
  proof -
    have "contents (cache_invalidate C c k) \<subseteq>\<^sub>m (contents c)(k := None)" using assms by (simp add: cache_laws_def)
    with that have "((contents c)(k := None)) j = Some w" by (metis map_le_def domI)
    then show ?thesis by (simp split: if_splits)
  qed
qed

section \<open>The methods without caches\<close>

definition engine_at :: "'f Store \<Rightarrow> 'f \<Rightarrow> EngineConfig \<Rightarrow> Schema \<Rightarrow> CheckEngine" where
  "engine_at store f cfg S = CheckEngine_new (StoreTupleReader store f) S cfg"

definition check_uncached ::
  "('f, 'sc, 'cc) Env \<Rightarrow> 'f Store \<Rightarrow> 'f \<Rightarrow> EngineConfig \<Rightarrow> CheckPermissionInput \<Rightarrow> ApiError + CheckPermissionOutput" where
  "check_uncached env store f cfg input =
     and_then (resolve_snapshot store f (cpi_consistency input)) (\<lambda>snapshot.
     and_then (load_schema env store f) (\<lambda>S.
     and_then (map_err Check (check (engine_at store f cfg S) (check_request_of input snapshot))) (\<lambda>r.
       Inr \<lparr>cpo_allowed = allowed r, cpo_snapshot = snapshot\<rparr>)))"

definition expand_uncached ::
  "('f, 'sc, 'cc) Env \<Rightarrow> 'f Store \<Rightarrow> 'f \<Rightarrow> EngineConfig \<Rightarrow> ExpandPermissionInput \<Rightarrow> ApiError + ExpandPermissionOutput" where
  "expand_uncached env store f cfg input =
     and_then (resolve_snapshot store f (epi_consistency input)) (\<lambda>snapshot.
     and_then (load_schema env store f) (\<lambda>S.
     and_then (map_err Check (expand (expand_engine_of (engine_at store f cfg S))
        \<lparr>er_object_type = epi_object_type input, er_object_id = epi_object_id input,
         er_permission = epi_permission input, er_snapshot = snapshot\<rparr>)) (\<lambda>tree.
       Inr \<lparr>epo_tree = tree, epo_snapshot = snapshot\<rparr>)))"

definition lookup_resources_uncached ::
  "('f, 'sc, 'cc) Env \<Rightarrow> 'f Store \<Rightarrow> 'f \<Rightarrow> EngineConfig \<Rightarrow> LookupResourcesInput \<Rightarrow> ApiError + LookupResourcesOutput" where
  "lookup_resources_uncached env store f cfg input =
     and_then (resolve_snapshot store f (lri_consistency input)) (\<lambda>snapshot.
     and_then (map_err Storage (store_list_object_ids store f (lri_resource_type input) snapshot None)) (\<lambda>ids.
     and_then (load_schema env store f) (\<lambda>S.
     and_then (map_err Check (lookup_loop (engine_at store f cfg S) input snapshot
        (case lri_limit input of Some n \<Rightarrow> n | None \<Rightarrow> 1000) [] ids)) (\<lambda>results.
       Inr \<lparr>lro_resource_ids = results, lro_snapshot = snapshot\<rparr>))))"

text \<open>What a schema write decides, given the text stored before.\<close>

definition schema_decision ::
  "(string \<Rightarrow> string) \<Rightarrow> SchemaLimits \<Rightarrow> string option \<Rightarrow> string \<Rightarrow> bool \<Rightarrow> ApiError + bool" where
  "schema_decision pe limits existing new_text force =
     and_then (map_err Parse (parse_schema pe new_text)) (\<lambda>new.
     and_then (map_err Validation (validate_schema_limits new limits)) (\<lambda>_.
     case existing of
       None \<Rightarrow> Inr False
     | Some old_text \<Rightarrow>
         and_then (map_err Parse (parse_schema pe old_text)) (\<lambda>old.
           if detect_breaking_changes old new \<noteq> [] \<and> \<not> force
           then Inl (BreakingChanges (detect_breaking_changes old new))
           else Inr (detect_breaking_changes old new \<noteq> []))))"

section \<open>Coherence\<close>

definition key_request :: "CheckCacheKey \<Rightarrow> CheckRequest" where
  "key_request k =
     \<lparr>cr_object_type = cck_object_type k, cr_object_id = cck_object_id k, cr_permission = cck_permission k,
      cr_subject_type = cck_subject_type k, cr_subject_id = cck_subject_id k,
      cr_snapshot = Some (cck_snapshot k)\<rparr>"

text \<open>
  A cached schema is the tenant's stored schema, parsed; a cached decision is what the engine
  decides now, on the tenant's current schema and store.
\<close>

definition coherent ::
  "('f, 'sc, 'cc) Env \<Rightarrow> (TenantId \<Rightarrow> 'f Store) \<Rightarrow> ('sc \<Rightarrow> TenantId \<rightharpoonup> Schema) \<Rightarrow> ('cc \<Rightarrow> CheckCacheKey \<rightharpoonup> bool) \<Rightarrow>
     ('f, 'sc, 'cc) AuthzService \<Rightarrow> bool" where
  "coherent env handle K C svc \<longleftrightarrow>
     (\<forall>t S. K (schema_cache svc) t = Some S \<longrightarrow> load_schema env (handle t) (factory svc) = Inr S) \<and>
     (\<forall>k b. C (check_cache svc) k = Some b \<longrightarrow>
        (\<exists>S. load_schema env (handle (cck_tenant_id k)) (factory svc) = Inr S \<and>
           check (engine_at (handle (cck_tenant_id k)) (factory svc) (engine_config svc) S) (key_request k)
             = Inr \<lparr>allowed = b\<rparr>))"

lemma coherent_schema:
  "coherent env handle K C svc \<Longrightarrow> K (schema_cache svc) t = Some S \<Longrightarrow>
     load_schema env (handle t) (factory svc) = Inr S"
  by (simp add: coherent_def)

lemma coherent_check:
  assumes "coherent env handle K C svc" "C (check_cache svc) k = Some b"
  obtains S where "load_schema env (handle (cck_tenant_id k)) (factory svc) = Inr S"
    "check (engine_at (handle (cck_tenant_id k)) (factory svc) (engine_config svc) S) (key_request k)
       = Inr \<lparr>allowed = b\<rparr>"
  using assms unfolding coherent_def by blast

text \<open>Fewer cached entries, and bookkeeping, keep coherence.\<close>

lemma coherent_mono:
  assumes "coherent env handle K C svc"
    and "factory svc' = factory svc" "engine_config svc' = engine_config svc"
    and "\<And>t S. K (schema_cache svc') t = Some S \<Longrightarrow> K (schema_cache svc) t = Some S"
    and "\<And>k b. C (check_cache svc') k = Some b \<Longrightarrow> C (check_cache svc) k = Some b"
  shows "coherent env handle K C svc'"
  using assms unfolding coherent_def by metis

lemma on_metrics_sel [simp]:
  "factory (on_metrics g svc) = factory svc" "engine_config (on_metrics g svc) = engine_config svc"
  "schema_cache (on_metrics g svc) = schema_cache svc" "check_cache (on_metrics g svc) = check_cache svc"
  "schema_limits (on_metrics g svc) = schema_limits svc" "audit_log (on_metrics g svc) = audit_log svc"
  by (simp_all add: on_metrics_def)

lemma emit_sel [simp]:
  "factory (emit ev svc) = factory svc" "engine_config (emit ev svc) = engine_config svc"
  "schema_cache (emit ev svc) = schema_cache svc" "check_cache (emit ev svc) = check_cache svc"
  "schema_limits (emit ev svc) = schema_limits svc" "audit_log (emit ev svc) = audit_log svc @ [ev]"
  by (simp_all add: emit_def)

lemma key_request_of [simp]:
  "key_request (cache_key_of t input snap) = check_request_of input (Some snap)"
  "cck_tenant_id (cache_key_of t input snap) = t"
  by (simp_all add: key_request_def cache_key_of_def check_request_of_def)

text \<open>
  Loading the schema through the cache gives the stored schema, and touches only the schema cache
  and the metrics.
\<close>

lemma load_schema_cached_ok:
  assumes co: "coherent env handle K C svc" and K: "cache_laws (env_schema_cache env) K"
    and l: "load_schema_cached env t (handle t) svc = (r, svc')"
  shows "r = load_schema env (handle t) (factory svc)" "factory svc' = factory svc"
    "engine_config svc' = engine_config svc" "check_cache svc' = check_cache svc"
    "coherent env handle K C svc'"
proof -
  obtain o' c where g: "cache_get (env_schema_cache env) (schema_cache svc) t = (o', c)" by fastforce
  have old: "load_schema env (handle u) (factory svc) = Inr S" if "K c u = Some S" for u S
    using coherent_schema [OF co cache_lawsD(3) [OF K g that]] .
  have "r = load_schema env (handle t) (factory svc) \<and> factory svc' = factory svc \<and>
    engine_config svc' = engine_config svc \<and> check_cache svc' = check_cache svc \<and>
    (\<forall>u S. K (schema_cache svc') u = Some S \<longrightarrow> load_schema env (handle u) (factory svc) = Inr S)"
  proof (cases o')
    case (Some S)
    with g cache_lawsD(2) [OF K] have "load_schema env (handle t) (factory svc) = Inr S"
      by (intro coherent_schema [OF co]) simp
    with l g Some show ?thesis
      by (auto simp: load_schema_cached_def intro: old)
  next
    case None
    show ?thesis
    proof (cases "load_schema env (handle t) (factory svc)")
      case (Inl e)
      with l g None show ?thesis
        by (auto simp: load_schema_cached_def Let_def intro: old)
    next
      case (Inr S)
      with l g None show ?thesis
        by (auto simp: load_schema_cached_def Let_def intro: old dest!: cache_lawsD(4) [OF K])
    qed
  qed
  then show "r = load_schema env (handle t) (factory svc)" "factory svc' = factory svc"
    "engine_config svc' = engine_config svc" "check_cache svc' = check_cache svc"
    "coherent env handle K C svc'"
    using co by (auto simp: coherent_def)
qed

section \<open>The methods over a factory\<close>

context tenant_stores
begin

definition obs_same :: "'f \<Rightarrow> 'f \<Rightarrow> bool" where
  "obs_same f f' \<longleftrightarrow> (\<forall>u. current u f' = current u f \<and> view u f' = view u f \<and> schema_text u f' = schema_text u f)"

lemma obs_same_refl [simp]: "obs_same f f"
  by (simp add: obs_same_def)

lemma reader_same:
  assumes "current u f' = current u f" "view u f' = view u f"
  shows "StoreTupleReader (handle u) f' = StoreTupleReader (handle u) f"
  using assms by (simp add: StoreTupleReader_def fun_eq_iff st.read_cases)

lemma load_same:
  "schema_text u f' = schema_text u f \<Longrightarrow> load_schema env (handle u) f' = load_schema env (handle u) f"
  by (simp add: load_schema_def st.schema_read)

lemma resolve_same:
  "current u f' = current u f \<Longrightarrow> resolve_snapshot (handle u) f' c = resolve_snapshot (handle u) f c"
  by (cases c) (simp_all add: st.snapshot_current)

lemma ids_same:
  assumes "current u f' = current u f" "view u f' = view u f"
  shows "store_list_object_ids (handle u) f' ot snap lim = store_list_object_ids (handle u) f ot snap lim"
  using assms st.ids_view [of u f' snap ot lim] st.ids_ahead [of u f' snap ot lim]
    st.ids_view [of u f snap ot lim] st.ids_ahead [of u f snap ot lim]
  by (cases "snapshot_value (current u f) snap \<le> current u f") auto

lemma obs_same_methods:
  assumes "obs_same f f'"
  shows "check_uncached env (handle t) f' cfg = check_uncached env (handle t) f cfg"
    "expand_uncached env (handle t) f' cfg = expand_uncached env (handle t) f cfg"
    "lookup_resources_uncached env (handle t) f' cfg = lookup_resources_uncached env (handle t) f cfg"
proof -
  from assms have e: "StoreTupleReader (handle t) f' = StoreTupleReader (handle t) f"
      "load_schema env (handle t) f' = load_schema env (handle t) f"
      "\<And>c. resolve_snapshot (handle t) f' c = resolve_snapshot (handle t) f c"
      "\<And>ot snap lim. store_list_object_ids (handle t) f' ot snap lim = store_list_object_ids (handle t) f ot snap lim"
    by (auto simp: obs_same_def intro: reader_same load_same resolve_same ids_same)
  show "check_uncached env (handle t) f' cfg = check_uncached env (handle t) f cfg"
    "expand_uncached env (handle t) f' cfg = expand_uncached env (handle t) f cfg"
    "lookup_resources_uncached env (handle t) f' cfg = lookup_resources_uncached env (handle t) f cfg"
    by (simp_all add: fun_eq_iff check_uncached_def expand_uncached_def lookup_resources_uncached_def engine_at_def e)
qed

lemma coherent_same:
  assumes co: "coherent env handle K C svc" and o: "obs_same (factory svc) (factory svc')"
    and "engine_config svc' = engine_config svc"
    and "\<And>t S. K (schema_cache svc') t = Some S \<Longrightarrow> K (schema_cache svc) t = Some S"
    and "\<And>k b. C (check_cache svc') k = Some b \<Longrightarrow> C (check_cache svc) k = Some b"
  shows "coherent env handle K C svc'"
proof -
  from o have r: "StoreTupleReader (handle u) (factory svc') = StoreTupleReader (handle u) (factory svc)"
    and l: "load_schema env (handle u) (factory svc') = load_schema env (handle u) (factory svc)" for u
    by (auto simp: obs_same_def intro: reader_same load_same)
  from assms show ?thesis unfolding coherent_def engine_at_def r l by metis
qed

lemma open_store_ok:
  assumes F: "env_factory env = F" and i: "inv (factory svc)" and co: "coherent env handle K C svc"
  obtains svc1 where "open_store env t svc = (handle t, svc1)" "\<exists>f. svc1 = svc\<lparr>factory := f\<rparr>"
    "inv (factory svc1)" "ready t (factory svc1)" "obs_same (factory svc) (factory svc1)"
    "coherent env handle K C svc1"
proof -
  let ?s = "svc\<lparr>factory := snd (for_tenant F (factory svc) t)\<rparr>"
  have o: "obs_same (factory svc) (factory ?s)" by (simp add: obs_same_def for_tenant_same)
  show thesis
  proof (rule that [of ?s])
    show "open_store env t svc = (handle t, ?s)"
      using for_tenant_handle [of "factory svc" t]
      by (cases "for_tenant F (factory svc) t") (simp add: open_store_def F)
    show "coherent env handle K C ?s" by (rule coherent_same [OF co o]) simp_all
  qed (use for_tenant_ready [OF i] o in auto)
qed

definition svc_inv :: "('f, 'sc, 'cc) Env \<Rightarrow> ('sc \<Rightarrow> TenantId \<rightharpoonup> Schema) \<Rightarrow> ('cc \<Rightarrow> CheckCacheKey \<rightharpoonup> bool) \<Rightarrow>
    ('f, 'sc, 'cc) AuthzService \<Rightarrow> bool" where
  "svc_inv env K C svc \<longleftrightarrow> env_factory env = F \<and> cache_laws (env_schema_cache env) K \<and>
     cache_laws (env_check_cache env) C \<and> inv (factory svc) \<and> coherent env handle K C svc"

text \<open>What a method that only reads leaves behind.\<close>

definition read_only :: "('f, 'sc, 'cc) Env \<Rightarrow> ('sc \<Rightarrow> TenantId \<rightharpoonup> Schema) \<Rightarrow> ('cc \<Rightarrow> CheckCacheKey \<rightharpoonup> bool) \<Rightarrow>
    ('f, 'sc, 'cc) AuthzService \<Rightarrow> ('f, 'sc, 'cc) AuthzService \<Rightarrow> bool" where
  "read_only env K C svc svc' \<longleftrightarrow> svc_inv env K C svc' \<and> engine_config svc' = engine_config svc \<and>
     obs_same (factory svc) (factory svc')"

lemma svc_open:
  assumes "svc_inv env K C svc"
  obtains svc1 where "open_store env t svc = (handle t, svc1)" "read_only env K C svc svc1"
    "ready t (factory svc1)" "\<exists>f. svc1 = svc\<lparr>factory := f\<rparr>"
proof -
  from assms have F: "env_factory env = F" and i: "inv (factory svc)" and co: "coherent env handle K C svc"
    by (simp_all add: svc_inv_def)
  obtain svc1 where o: "open_store env t svc = (handle t, svc1)" and e: "\<exists>f. svc1 = svc\<lparr>factory := f\<rparr>"
    and "inv (factory svc1)" "ready t (factory svc1)" "obs_same (factory svc) (factory svc1)"
      "coherent env handle K C svc1"
    by (rule open_store_ok [OF F i co])
  moreover from e have "engine_config svc1 = engine_config svc" by auto
  ultimately show thesis using that [OF o] assms by (simp add: svc_inv_def read_only_def)
qed

lemma svc_load:
  assumes "svc_inv env K C svc" "load_schema_cached env t (handle t) svc = (r, svc')"
  shows "r = load_schema env (handle t) (factory svc)" "svc_inv env K C svc'" "factory svc' = factory svc"
    "engine_config svc' = engine_config svc" "check_cache svc' = check_cache svc"
  using assms load_schema_cached_ok [of env handle K C svc t r svc'] by (auto simp: svc_inv_def)

lemma svc_inv_insert:
  assumes i: "svc_inv env K C svc" and S: "load_schema env (handle t) (factory svc) = Inr S"
    and c: "check (engine_at (handle t) (factory svc) (engine_config svc) S) (check_request_of input (Some snap)) = Inr r"
  shows "svc_inv env K C (svc\<lparr>check_cache :=
    cache_insert (env_check_cache env) (check_cache svc) (cache_key_of t input snap) (allowed r)\<rparr>)"
proof -
  from i have C: "cache_laws (env_check_cache env) C" by (simp add: svc_inv_def)
  have "\<lparr>allowed = allowed r\<rparr> = r" by simp
  with i S c show ?thesis
    by (auto simp: svc_inv_def coherent_def dest!: cache_lawsD(4) [OF C])
qed

lemma svc_inv_get:
  assumes "svc_inv env K C svc" "cache_get (env_check_cache env) (check_cache svc) k = (r, c)"
  shows "svc_inv env K C (svc\<lparr>check_cache := c\<rparr>)" "svc_inv env K C (on_metrics g (svc\<lparr>check_cache := c\<rparr>))"
  using assms cache_lawsD(3) [of "env_check_cache env" C "check_cache svc" k r c]
  by (auto simp: svc_inv_def intro!: coherent_mono [of env handle K C svc])

lemma check_permission_ok:
  assumes i: "svc_inv env K C svc" and c: "check_permission env t input svc = (r, svc')"
  shows "r = check_uncached env (handle t) (factory svc) (engine_config svc) input \<and> read_only env K C svc svc'"
proof -
  obtain svc1 where o: "open_store env t svc = (handle t, svc1)" and ro: "read_only env K C svc svc1"
    by (rule svc_open [OF i])
  from ro have i1: "svc_inv env K C svc1" and e1: "engine_config svc1 = engine_config svc"
    and s1: "obs_same (factory svc) (factory svc1)"
    by (simp_all add: read_only_def)
  have "r = check_uncached env (handle t) (factory svc1) (engine_config svc1) input \<and>
    svc_inv env K C svc' \<and> engine_config svc' = engine_config svc1 \<and> factory svc' = factory svc1"
  proof (cases "resolve_snapshot (handle t) (factory svc1) (cpi_consistency input)")
    case (Inl e)
    with c o i1 show ?thesis by (auto simp: check_permission_def check_uncached_def)
  next
    case res: (Inr so)
    show ?thesis
    proof (cases so)
      case None
      obtain l svc2 where l: "load_schema_cached env t (handle t) svc1 = (l, svc2)" by fastforce
      note sl = svc_load [OF i1 l]
      from c o res None l sl show ?thesis
        by (auto simp: check_permission_def check_uncached_def Let_def engine_at_def result_simps
            split: sum.splits)
    next
      case (Some snap)
      obtain g c1 where g: "cache_get (env_check_cache env) (check_cache svc1) (cache_key_of t input snap) = (g, c1)"
        by fastforce
      show ?thesis
      proof (cases g)
        case hit: (Some b)
        from i1 g hit have "C (check_cache svc1) (cache_key_of t input snap) = Some b"
          by (auto simp: svc_inv_def intro: cache_lawsD(2))
        with i1 obtain S where "load_schema env (handle t) (factory svc1) = Inr S"
          "check (engine_at (handle t) (factory svc1) (engine_config svc1) S) (check_request_of input (Some snap)) = Inr \<lparr>allowed = b\<rparr>"
          by (auto simp: svc_inv_def elim: coherent_check)
        with c o res Some g hit svc_inv_get(2) [OF i1 g] show ?thesis
          by (auto simp: check_permission_def check_uncached_def Let_def)
      next
        case None
        let ?s = "on_metrics record_check_cache_miss (svc1\<lparr>check_cache := c1\<rparr>)"
        obtain l svc2 where l: "load_schema_cached env t (handle t) ?s = (l, svc2)" by fastforce
        note sl = svc_load [OF svc_inv_get(2) [OF i1 g] l]
        from c o res Some g None l sl show ?thesis
          by (auto simp: check_permission_def check_uncached_def Let_def engine_at_def result_simps
              intro: svc_inv_insert [unfolded engine_at_def] split: sum.splits)
      qed
    qed
  qed
  with ro e1 s1 show ?thesis by (simp add: read_only_def obs_same_methods [OF s1])
qed

lemma expand_engine_at:
  "ExpandEngine_new (StoreTupleReader store f) S cfg = expand_engine_of (engine_at store f cfg S)"
  by (simp add: expand_engine_of_def engine_at_def CheckEngine_new_def)

lemma expand_permission_tree_ok:
  assumes i: "svc_inv env K C svc" and c: "expand_permission_tree env t input svc = (r, svc')"
  shows "r = expand_uncached env (handle t) (factory svc) (engine_config svc) input \<and> read_only env K C svc svc'"
proof -
  obtain svc1 where o: "open_store env t svc = (handle t, svc1)" and ro: "read_only env K C svc svc1"
    by (rule svc_open [OF i])
  from ro have i1: "svc_inv env K C svc1" and s1: "obs_same (factory svc) (factory svc1)"
    by (simp_all add: read_only_def)
  obtain l svc2 where l: "load_schema_cached env t (handle t) svc1 = (l, svc2)" by fastforce
  note sl = svc_load [OF i1 l]
  from c o l sl i1 have "r = expand_uncached env (handle t) (factory svc1) (engine_config svc1) input \<and>
    svc_inv env K C svc' \<and> engine_config svc' = engine_config svc1 \<and> factory svc' = factory svc1"
    by (auto simp: expand_permission_tree_def expand_uncached_def Let_def expand_engine_at split: sum.splits)
  with ro s1 show ?thesis by (simp add: read_only_def obs_same_methods [OF s1])
qed

lemma lookup_resources_ok:
  assumes i: "svc_inv env K C svc" and c: "lookup_resources env t input svc = (r, svc')"
  shows "r = lookup_resources_uncached env (handle t) (factory svc) (engine_config svc) input \<and>
    read_only env K C svc svc'"
proof -
  obtain svc1 where o: "open_store env t svc = (handle t, svc1)" and ro: "read_only env K C svc svc1"
    by (rule svc_open [OF i])
  from ro have i1: "svc_inv env K C svc1" and s1: "obs_same (factory svc) (factory svc1)"
    by (simp_all add: read_only_def)
  obtain l svc2 where l: "load_schema_cached env t (handle t) svc1 = (l, svc2)" by fastforce
  note sl = svc_load [OF i1 l]
  from c o l sl i1 have "r = lookup_resources_uncached env (handle t) (factory svc1) (engine_config svc1) input \<and>
    svc_inv env K C svc' \<and> engine_config svc' = engine_config svc1 \<and> factory svc' = factory svc1"
    by (auto simp: lookup_resources_def lookup_resources_uncached_def Let_def engine_at_def split: sum.splits)
  with ro s1 show ?thesis by (simp add: read_only_def obs_same_methods [OF s1])
qed

lemma lookup_subjects_ok:
  assumes "svc_inv env K C svc" "lookup_subjects env t input svc = (r, svc')"
  shows "read_only env K C svc svc'"
  using assms by (auto simp: lookup_subjects_def Let_def split: prod.splits sum.splits
      dest: expand_permission_tree_ok)

lemma read_relationships_ok:
  assumes i: "svc_inv env K C svc" and c: "read_relationships env t f cons lim svc = (r, svc')"
  shows "r = and_then (resolve_snapshot (handle t) (factory svc) cons) (\<lambda>snapshot.
      and_then (map_err Storage (store_read (handle t) (factory svc) f snapshot lim)) (\<lambda>tuples.
        Inr \<lparr>rro_tuples = tuples, rro_snapshot = snapshot\<rparr>)) \<and> read_only env K C svc svc'"
proof -
  obtain svc1 where o: "open_store env t svc = (handle t, svc1)" and ro: "read_only env K C svc svc1"
    by (rule svc_open [OF i])
  then have s1: "current t (factory svc1) = current t (factory svc)" "view t (factory svc1) = view t (factory svc)"
    by (simp_all add: read_only_def obs_same_def)
  have rd: "store_read (handle t) (factory svc1) f snap lim = store_read (handle t) (factory svc) f snap lim" for snap
    by (simp add: st.read_cases s1)
  from c o ro show ?thesis
    by (auto simp: read_relationships_def rd resolve_same [OF s1(1)])
qed

lemma read_schema_ok:
  assumes i: "svc_inv env K C svc" and c: "read_schema env t svc = (r, svc')"
  shows "r = Inr (schema_text t (factory svc)) \<and> read_only env K C svc svc'"
proof -
  obtain svc1 where o: "open_store env t svc = (handle t, svc1)" and ro: "read_only env K C svc svc1"
    by (rule svc_open [OF i])
  with c show ?thesis by (auto simp: read_schema_def st.schema_read read_only_def obs_same_def)
qed

lemma write_relationships_cases:
  assumes i: "svc_inv env K C svc" and room: "tx_room (current t (factory svc))"
    and c: "write_relationships env t ws ds svc = (r, svc')"
  obtains (rejected) "list_ex (\<lambda>f. \<not> has_any_field f) ds" "r = Inl (Storage EmptyDeleteFilter)"
      "read_only env K C svc svc'" "audit_log svc' = audit_log svc"
    | (accepted) "list_all has_any_field ds" "r = Inr (SnapshotToken (current t (factory svc) + 1))"
      "svc_inv env K C svc'" "engine_config svc' = engine_config svc"
      "current t (factory svc') = current t (factory svc) + 1"
      "view t (factory svc') (current t (factory svc) + 1) = apply_write ws ds (view t (factory svc) (current t (factory svc)))"
      "\<And>v. v \<le> current t (factory svc) \<Longrightarrow> view t (factory svc') v = view t (factory svc) v"
      "\<And>u. schema_text u (factory svc') = schema_text u (factory svc)"
      "\<And>u. u \<noteq> t \<Longrightarrow> current u (factory svc') = current u (factory svc) \<and> view u (factory svc') = view u (factory svc)"
      "audit_log svc' = audit_log svc @ [RelationshipWrite t (length ws) (length ds) (current t (factory svc) + 1)]"
proof -
  obtain svc1 f1 where o: "open_store env t svc = (handle t, svc1)" and ro: "read_only env K C svc svc1"
    and rd: "ready t (factory svc1)" and eq: "svc1 = svc\<lparr>factory := f1\<rparr>"
    by (rule svc_open [OF i]) blast
  from ro have i1: "svc_inv env K C svc1" and s1: "\<And>u. current u f1 = current u (factory svc)"
      "\<And>u. view u f1 = view u (factory svc)" "\<And>u. schema_text u f1 = schema_text u (factory svc)"
    by (simp_all add: read_only_def obs_same_def eq)
  from i1 have C: "cache_laws (env_check_cache env) C" and inv1: "inv f1 \<and> ready t f1" using rd
    by (simp_all add: svc_inv_def eq)
  from room s1 have room1: "tx_room (current t f1)" by simp
  from inv1 room1 show thesis
  proof (cases rule: st.write_cases [where ws = ws and ds = ds])
    case rejected
    with c o have "r = Inl (Storage EmptyDeleteFilter)" "svc' = svc1"
      by (simp_all add: write_relationships_def eq)
    with rejected ro that(1) show thesis by (simp add: eq)
  next
    case (accepted f2)
    note others = write_others [OF accepted(2)]
    let ?s = "emit (RelationshipWrite t (length ws) (length ds) (current t f1 + 1))
      (svc\<lparr>factory := f2, check_cache := cache_invalidate_all (env_check_cache env) (check_cache svc)\<rparr>)"
    from c o accepted have r: "r = Inr (SnapshotToken (current t f1 + 1))" and s': "svc' = ?s"
      by (simp_all add: write_relationships_def eq audit_relationship_write_def)
    have st: "schema_text u f2 = schema_text u f1" for u
      using others [of u] accepted(5) by (cases "u = t") auto
    have "coherent env handle K C ?s"
      using i1 load_same [OF st, where env = env] cache_lawsD(6) [OF C] by (simp add: svc_inv_def coherent_def eq)
    with i1 accepted(3) have "svc_inv env K C ?s" by (simp add: svc_inv_def eq)
    then show thesis using accepted others st
      by (intro that(2)) (auto simp: r s' s1 [symmetric])
  qed
qed

lemma write_schema_cases:
  assumes i: "svc_inv env K C svc" and c: "write_schema env t new_text force svc = (r, svc')"
  obtains (rejected) e where
      "schema_decision (env_pest_error env) (schema_limits svc) (schema_text t (factory svc)) new_text force = Inl e"
      "r = Inl e" "read_only env K C svc svc'" "audit_log svc' = audit_log svc"
    | (accepted) b where
      "schema_decision (env_pest_error env) (schema_limits svc) (schema_text t (factory svc)) new_text force = Inr b"
      "r = Inr \<lparr>breaking_changes_overridden = b\<rparr>" "svc_inv env K C svc'" "engine_config svc' = engine_config svc"
      "schema_text t (factory svc') = Some new_text"
      "\<And>u. current u (factory svc') = current u (factory svc) \<and> view u (factory svc') = view u (factory svc)"
      "\<And>u. u \<noteq> t \<Longrightarrow> schema_text u (factory svc') = schema_text u (factory svc)"
      "audit_log svc' = audit_log svc @ [SchemaWrite t force b []]"
proof -
  obtain svc1 f1 where o: "open_store env t svc = (handle t, svc1)" and ro: "read_only env K C svc svc1"
    and rd: "ready t (factory svc1)" and eq: "svc1 = svc\<lparr>factory := f1\<rparr>"
    by (rule svc_open [OF i]) blast
  from ro have i1: "svc_inv env K C svc1" and s1: "\<And>u. current u f1 = current u (factory svc)"
      "\<And>u. view u f1 = view u (factory svc)" "\<And>u. schema_text u f1 = schema_text u (factory svc)"
    by (simp_all add: read_only_def obs_same_def eq)
  from i1 have KC: "cache_laws (env_schema_cache env) K" "cache_laws (env_check_cache env) C"
    and inv1: "inv f1 \<and> ready t f1" using rd
    by (simp_all add: svc_inv_def eq)
  obtain f2 where w: "store_write_schema (handle t) f1 new_text = (Inr (), f2)" and inv2: "inv f2"
    and f2: "schema_text t f2 = Some new_text" "current t f2 = current t f1" "view t f2 = view t f1"
    using st.schema_written [OF inv1, of new_text] by auto
  note others = write_schema_others [OF w]
  let ?d = "schema_decision (env_pest_error env) (schema_limits svc) (schema_text t (factory svc)) new_text force"
  have ro0: "read_only env K C svc svc" using i by (simp add: read_only_def)
  show thesis
  proof (cases ?d)
    case (Inl e)
    with c o have "r = Inl e \<and> (svc' = svc \<or> svc' = svc1)"
      by (auto simp: write_schema_def schema_decision_def eq Let_def st.schema_read s1
          split: sum.splits option.splits if_splits)
    with ro ro0 that(1) [OF Inl] show thesis by (auto simp: eq)
  next
    case (Inr b)
    let ?s = "emit (SchemaWrite t force b []) (svc\<lparr>factory := f2,
       schema_cache := cache_invalidate (env_schema_cache env) (schema_cache svc) t,
       check_cache := cache_invalidate_all (env_check_cache env) (check_cache svc)\<rparr>)"
    from Inr c o w have rs: "r = Inr \<lparr>breaking_changes_overridden = b\<rparr> \<and> svc' = ?s"
      by (auto simp: write_schema_def schema_decision_def eq Let_def st.schema_read s1 audit_schema_write_def
          split: sum.splits option.splits if_splits)
    have "load_schema env (handle u) f2 = Inr S"
      if "K (cache_invalidate (env_schema_cache env) (schema_cache svc) t) u = Some S" for u S
      using cache_lawsD(5) [OF KC(1) that] others [of u] coherent_schema [of env handle K C svc u S] i
        load_same [of u f2 "factory svc" env] s1(3) [of u] by (auto simp: svc_inv_def)
    then have "coherent env handle K C ?s" by (simp add: coherent_def cache_lawsD(6) [OF KC(2)])
    with i1 inv2 have "svc_inv env K C ?s" by (simp add: svc_inv_def eq)
    moreover have "current u f2 = current u f1 \<and> view u f2 = view u f1" for u
      using f2 others [of u] by (cases "u = t") auto
    ultimately show thesis using rs f2 others
      by (intro that(2) [OF Inr]) (auto simp: s1)
  qed
qed

end

end
