(* ===== verification/Service_Machine.thy ===== *)
theory Service_Machine
  imports Service_Correct
begin

text \<open>
  The service as a state machine: a request is one call of a method, the reachable states are those
  after any sequence of requests, and coherence of the caches holds in all of them. Requests run one
  after the other here; \<open>Interleaving\<close> has checks and writes that overlap.
\<close>

datatype Request =
    CheckPermission TenantId CheckPermissionInput
  | ExpandPermissionTree TenantId ExpandPermissionInput
  | WriteRelationships TenantId "TupleWrite list" "TupleFilter list"
  | ReadRelationships TenantId TupleFilter Consistency "nat option"
  | WriteSchema TenantId string bool
  | ReadSchema TenantId
  | LookupSubjects TenantId LookupSubjectsInput
  | LookupResources TenantId LookupResourcesInput

fun svc_step :: "('f, 'sc, 'cc) Env \<Rightarrow> Request \<Rightarrow> ('f, 'sc, 'cc) AuthzService \<Rightarrow> ('f, 'sc, 'cc) AuthzService" where
  "svc_step env (CheckPermission t input) svc = snd (check_permission env t input svc)"
| "svc_step env (ExpandPermissionTree t input) svc = snd (expand_permission_tree env t input svc)"
| "svc_step env (WriteRelationships t ws ds) svc = snd (write_relationships env t ws ds svc)"
| "svc_step env (ReadRelationships t f c l) svc = snd (read_relationships env t f c l svc)"
| "svc_step env (WriteSchema t d force) svc = snd (write_schema env t d force svc)"
| "svc_step env (ReadSchema t) svc = snd (read_schema env t svc)"
| "svc_step env (LookupSubjects t input) svc = snd (lookup_subjects env t input svc)"
| "svc_step env (LookupResources t input) svc = snd (lookup_resources env t input svc)"

text \<open>A write is a step while the tenant's transaction counter is below the sentinel.\<close>

fun has_room :: "(TenantId \<Rightarrow> 'f \<Rightarrow> u64) \<Rightarrow> Request \<Rightarrow> 'f \<Rightarrow> bool" where
  "has_room current (WriteRelationships t ws ds) f = tx_room (current t f)"
| "has_room current req f = True"

inductive svc_reachable ::
  "('f, 'sc, 'cc) Env \<Rightarrow> (TenantId \<Rightarrow> 'f \<Rightarrow> u64) \<Rightarrow> ('f, 'sc, 'cc) AuthzService \<Rightarrow> ('f, 'sc, 'cc) AuthzService \<Rightarrow> bool"
  for env current svc0 where
  start: "svc_reachable env current svc0 svc0"
| request: "svc_reachable env current svc0 svc \<Longrightarrow> has_room current req (factory svc) \<Longrightarrow>
     svc_reachable env current svc0 (svc_step env req svc)"

inductive_cases svc_reachableE: "svc_reachable env current svc0 svc"

context tenant_stores
begin

lemma svc_step_inv:
  assumes i: "svc_inv env K C svc" and room: "has_room current req (factory svc)"
  shows "svc_inv env K C (svc_step env req svc) \<and> engine_config (svc_step env req svc) = engine_config svc"
proof (cases req)
  case (WriteRelationships t ws ds)
  obtain r svc' where w: "write_relationships env t ws ds svc = (r, svc')" by fastforce
  from room WriteRelationships have "tx_room (current t (factory svc))" by simp
  from write_relationships_cases [OF i this w] show ?thesis
    by cases (simp_all add: WriteRelationships w read_only_def)
next
  case (WriteSchema t d force)
  obtain r svc' where w: "write_schema env t d force svc = (r, svc')" by fastforce
  from write_schema_cases [OF i w] show ?thesis
    by cases (simp_all add: WriteSchema w read_only_def)
next
  case (CheckPermission t input)
  then show ?thesis
    using check_permission_ok [OF i, of t input] by (cases "check_permission env t input svc") (simp add: read_only_def)
next
  case (ExpandPermissionTree t input)
  then show ?thesis
    using expand_permission_tree_ok [OF i, of t input]
    by (cases "expand_permission_tree env t input svc") (simp add: read_only_def)
next
  case (ReadRelationships t f c l)
  then show ?thesis
    using read_relationships_ok [OF i, of t f c l]
    by (cases "read_relationships env t f c l svc") (simp add: read_only_def)
next
  case (ReadSchema t)
  then show ?thesis
    using read_schema_ok [OF i, of t] by (cases "read_schema env t svc") (simp add: read_only_def)
next
  case (LookupSubjects t input)
  then show ?thesis
    using lookup_subjects_ok [OF i, of t input] by (cases "lookup_subjects env t input svc") (simp add: read_only_def)
next
  case (LookupResources t input)
  then show ?thesis
    using lookup_resources_ok [OF i, of t input] by (cases "lookup_resources env t input svc") (simp add: read_only_def)
qed

lemma svc_reachable_inv:
  "svc_reachable env current svc0 svc \<Longrightarrow> svc_inv env K C svc0 \<Longrightarrow>
     svc_inv env K C svc \<and> engine_config svc = engine_config svc0"
  by (induction rule: svc_reachable.induct) (auto dest: svc_step_inv)

lemma svc_inv_start:
  assumes "env_factory env = F" "cache_laws (env_schema_cache env) K" "cache_laws (env_check_cache env) C" "inv f"
  shows "svc_inv env K C (with_cache_config env f ec sl cc)"
  using assms by (simp add: svc_inv_def coherent_def with_cache_config_def cache_lawsD(1))

end

section \<open>Lookups\<close>

lemma lookup_loop_Inr:
  assumes "lookup_loop e input snap limit results ids = Inr out" "length results \<le> limit"
  shows "out = results @ take (limit - length results) (filter (\<lambda>oi. check e
      \<lparr>cr_object_type = lri_resource_type input, cr_object_id = oi, cr_permission = lri_permission input,
       cr_subject_type = lri_subject_type input, cr_subject_id = lri_subject_id input, cr_snapshot = snap\<rparr>
      = Inr \<lparr>allowed = True\<rparr>) ids)"
  using assms
proof (induction e input snap limit results ids rule: lookup_loop.induct)
  case (2 e input snap limit results oi rest)
  let ?c = "check e
      \<lparr>cr_object_type = lri_resource_type input, cr_object_id = oi, cr_permission = lri_permission input,
       cr_subject_type = lri_subject_type input, cr_subject_id = lri_subject_id input, cr_snapshot = snap\<rparr>"
  show ?case
  proof (cases "length results \<ge> limit")
    case True
    with "2.prems" show ?thesis by simp
  next
    case False
    with "2.prems" obtain b where b: "?c = Inr \<lparr>allowed = b\<rparr>"
      and l: "lookup_loop e input snap limit (if b then results @ [oi] else results) rest = Inr out"
      by (auto simp: result_simps) (metis CheckResult.cases CheckResult.select_convs(1))
    from False have n: "limit - length results = Suc (limit - Suc (length results))" by simp
    from b l "2.IH" [OF False b] False show ?thesis by (auto simp: n split: if_splits)
  qed
qed simp

section \<open>A check without caches decides the permission\<close>

lemma load_schema_tenant:
  "load_schema env (tenant_handle t) stores = Inr S \<longleftrightarrow>
     (\<exists>txt. schema_of (tenant_state stores t) = Some txt \<and> parse_schema (env_pest_error env) txt = Inr S)"
  by (auto simp: load_schema_def tenant.schema_read result_simps)

lemma engine_at_sel [simp]:
  "ce_reader (engine_at store f cfg S) = StoreTupleReader store f" "ce_schema (engine_at store f cfg S) = S"
  "ce_config (engine_at store f cfg S) = cfg"
  by (simp_all add: engine_at_def CheckEngine_new_def)

lemma uncached_check_granted:
  assumes "check_uncached env (tenant_handle t) stores cfg input = Inr out"
  shows "\<exists>txt S r. schema_of (tenant_state stores t) = Some txt \<and> parse_schema (env_pest_error env) txt = Inr S \<and>
    permission_rule S (cpi_object_type input) (cpi_permission input) = Some r \<and>
    (plain_exclusions S \<longrightarrow>
       (cpo_allowed out \<longleftrightarrow> granted S
          (set (mem_view (tenant_state stores t) (snapshot_value (current_tx (tenant_state stores t)) (cpo_snapshot out))))
          (cpi_subject_type input) (cpi_subject_id input) r (cpi_object_type input) (cpi_object_id input)))"
proof -
  from assms obtain S res where S: "load_schema env (tenant_handle t) stores = Inr S"
    and c: "check (engine_at (tenant_handle t) stores cfg S) (check_request_of input (cpo_snapshot out)) = Inr res"
    and a: "cpo_allowed out = allowed res"
    by (auto simp: check_uncached_def result_simps)
  from c obtain r where r: "permission_rule S (cpi_object_type input) (cpi_permission input) = Some r"
    by (auto simp: check_def permission_rule_def result_simps check_request_of_def)
  have "plain_exclusions S \<longrightarrow> (cpo_allowed out \<longleftrightarrow> granted S
          (set (mem_view (tenant_state stores t) (snapshot_value (current_tx (tenant_state stores t)) (cpo_snapshot out))))
          (cpi_subject_type input) (cpi_subject_id input) r (cpi_object_type input) (cpi_object_id input))"
  proof
    assume "plain_exclusions S"
    then have "plain_exclusions (ce_schema (engine_at (tenant_handle t) stores cfg S))" by simp
    then obtain r' where "permission_rule S (cpi_object_type input) (cpi_permission input) = Some r'"
      "allowed res \<longleftrightarrow> granted S
          (set (mem_view (tenant_state stores t) (snapshot_value (current_tx (tenant_state stores t)) (cpo_snapshot out))))
          (cpi_subject_type input) (cpi_subject_id input) r' (cpi_object_type input) (cpi_object_id input)"
      by (rule tenant.reader.source.check_granted [OF engine_at_sel(1) _ c]) (simp add: check_request_of_def)
    with r a show "cpo_allowed out \<longleftrightarrow> granted S
          (set (mem_view (tenant_state stores t) (snapshot_value (current_tx (tenant_state stores t)) (cpo_snapshot out))))
          (cpi_subject_type input) (cpi_subject_id input) r (cpi_object_type input) (cpi_object_id input)"
      by simp
  qed
  with S r show ?thesis by (auto simp: load_schema_tenant)
qed

section \<open>A running service\<close>

abbreviation mem_current :: "TenantId \<Rightarrow> InMemoryStores \<Rightarrow> u64" where
  "mem_current t stores \<equiv> current_tx (tenant_state stores t)"

text \<open>
  A service over the in-memory factory in a state some sequence of requests leads to, with caches that
  keep the contract for the contents \<open>K\<close> and \<open>C\<close>.
\<close>

definition running ::
  "(InMemoryStores, 'sc, 'cc) Env \<Rightarrow> ('sc \<Rightarrow> TenantId \<rightharpoonup> Schema) \<Rightarrow> ('cc \<Rightarrow> CheckCacheKey \<rightharpoonup> bool) \<Rightarrow>
     EngineConfig \<Rightarrow> (InMemoryStores, 'sc, 'cc) AuthzService \<Rightarrow> bool" where
  "running env K C ec svc \<longleftrightarrow> env_factory env = InMemoryStoreFactory \<and>
     cache_laws (env_schema_cache env) K \<and> cache_laws (env_check_cache env) C \<and>
     (\<exists>sl cc. svc_reachable env mem_current (with_cache_config env InMemoryStoreFactory_new ec sl cc) svc)"

lemma running_inv:
  assumes "running env K C ec svc"
  shows "mem_factory.svc_inv env K C svc" "engine_config svc = ec"
proof -
  from assms obtain sl cc where F: "env_factory env = InMemoryStoreFactory"
    and L: "cache_laws (env_schema_cache env) K" "cache_laws (env_check_cache env) C"
    and r: "svc_reachable env mem_current (with_cache_config env InMemoryStoreFactory_new ec sl cc) svc"
    by (auto simp: running_def)
  from mem_factory.svc_reachable_inv [OF r mem_factory.svc_inv_start [OF F L stores_inv_new]]
  show "mem_factory.svc_inv env K C svc" "engine_config svc = ec"
    by (simp_all add: with_cache_config_def)
qed

lemma running_step:
  assumes "running env K C ec svc" "has_room mem_current req (factory svc)"
  shows "running env K C ec (svc_step env req svc)"
  using assms by (auto simp: running_def intro: svc_reachable.request)

text \<open>The tenant a request is made for.\<close>

fun request_tenant :: "Request \<Rightarrow> TenantId" where
  "request_tenant (CheckPermission t input) = t"
| "request_tenant (ExpandPermissionTree t input) = t"
| "request_tenant (WriteRelationships t ws ds) = t"
| "request_tenant (ReadRelationships t f c l) = t"
| "request_tenant (WriteSchema t d force) = t"
| "request_tenant (ReadSchema t) = t"
| "request_tenant (LookupSubjects t input) = t"
| "request_tenant (LookupResources t input) = t"

context tenant_stores
begin

lemma svc_step_others:
  assumes i: "svc_inv env K C svc" and room: "has_room current req (factory svc)" and u: "u \<noteq> request_tenant req"
  shows "current u (factory (svc_step env req svc)) = current u (factory svc) \<and>
    view u (factory (svc_step env req svc)) = view u (factory svc) \<and>
    schema_text u (factory (svc_step env req svc)) = schema_text u (factory svc)"
proof (cases req)
  case (WriteRelationships t ws ds)
  obtain r svc' where w: "write_relationships env t ws ds svc = (r, svc')" by fastforce
  from room WriteRelationships have "tx_room (current t (factory svc))" by simp
  from write_relationships_cases [OF i this w] u show ?thesis
    by cases (simp_all add: WriteRelationships w read_only_def obs_same_def)
next
  case (WriteSchema t d force)
  obtain r svc' where w: "write_schema env t d force svc = (r, svc')" by fastforce
  from write_schema_cases [OF i w] u show ?thesis
    by cases (simp_all add: WriteSchema w read_only_def obs_same_def)
next
  case (CheckPermission t input)
  then show ?thesis
    using check_permission_ok [OF i, of t input]
    by (cases "check_permission env t input svc") (simp add: read_only_def obs_same_def)
next
  case (ExpandPermissionTree t input)
  then show ?thesis
    using expand_permission_tree_ok [OF i, of t input]
    by (cases "expand_permission_tree env t input svc") (simp add: read_only_def obs_same_def)
next
  case (ReadRelationships t f c l)
  then show ?thesis
    using read_relationships_ok [OF i, of t f c l]
    by (cases "read_relationships env t f c l svc") (simp add: read_only_def obs_same_def)
next
  case (ReadSchema t)
  then show ?thesis
    using read_schema_ok [OF i, of t] by (cases "read_schema env t svc") (simp add: read_only_def obs_same_def)
next
  case (LookupSubjects t input)
  then show ?thesis
    using lookup_subjects_ok [OF i, of t input]
    by (cases "lookup_subjects env t input svc") (simp add: read_only_def obs_same_def)
next
  case (LookupResources t input)
  then show ?thesis
    using lookup_resources_ok [OF i, of t input]
    by (cases "lookup_resources env t input svc") (simp add: read_only_def obs_same_def)
qed

lemma uncached_same:
  assumes "current u f' = current u f" "view u f' = view u f" "schema_text u f' = schema_text u f"
  shows "check_uncached env (handle u) f' cfg input = check_uncached env (handle u) f cfg input"
  by (simp add: check_uncached_def engine_at_def reader_same [OF assms(1,2)] load_same [OF assms(3)]
      resolve_same [OF assms(1)])

end

end
