(* ===== verification/Lookups.thy ===== *)
theory Lookups
  imports Service_Machine
begin

text \<open>
  What \<open>lookup_subjects\<close> and \<open>lookup_resources\<close> return, in terms of the check: \<open>lookup_resources\<close> lists
  exactly the allowed objects, \<open>lookup_subjects\<close> lists every allowed subject, and only those for
  permissions without intersection and exclusion.
\<close>

section \<open>An induction principle for expanded trees\<close>

definition all_rules :: "(RewriteRule \<Rightarrow> bool) \<Rightarrow> Schema \<Rightarrow> bool" where
  "all_rules R S = list_all (\<lambda>td. list_all (\<lambda>p. R (perm_rule p)) (permissions td)) (types S)"

lemma all_rulesD:
  "all_rules R S \<Longrightarrow> get_type S ot = Some td \<Longrightarrow> get_permission td n = Some pd \<Longrightarrow> R (perm_rule pd)"
  by (auto simp: all_rules_def list_all_iff dest!: get_type_Some get_permission_Some)

lemma try_map_list_all:
  assumes "try_map f xs = Inr ys" "\<And>x y. x \<in> set xs \<Longrightarrow> f x = Inr y \<Longrightarrow> Q y"
  shows "list_all Q ys \<and> length ys = length xs"
  using try_map_Inr [OF assms(1)] assms(2)
  by (induction rule: list_all2_induct) auto

lemma try_concat_map_list_all:
  "try_concat_map f xs = Inr ys \<Longrightarrow> (\<And>x zs. x \<in> set xs \<Longrightarrow> f x = Inr zs \<Longrightarrow> list_all Q zs) \<Longrightarrow> list_all Q ys"
  by (erule try_concat_map_Inr) (fastforce simp: list_all_iff list_all2_conv_all_nth in_set_conv_nth)

lemma expand_tree_induct:
  assumes leaf: "\<And>s. Q (TLeaf s)"
    and this_node: "\<And>n ts. list_all Q ts \<Longrightarrow> Q (TThis n ts)"
    and arrow: "\<And>a b ts. list_all Q ts \<Longrightarrow> Q (TArrow a b ts)"
    and union: "\<And>cs ts. R (RUnion cs) \<Longrightarrow> length ts = length cs \<Longrightarrow> list_all Q ts \<Longrightarrow> Q (TUnion ts)"
    and inter: "\<And>cs ts. R (RIntersection cs) \<Longrightarrow> length ts = length cs \<Longrightarrow> list_all Q ts \<Longrightarrow> Q (TIntersection ts)"
    and excl: "\<And>a b ta tb. R (RExclusion a b) \<Longrightarrow> Q ta \<Longrightarrow> Q tb \<Longrightarrow> Q (TExclusion ta tb)"
    and sub: "\<And>cs c. R (RUnion cs) \<Longrightarrow> c \<in> set cs \<Longrightarrow> R c" "\<And>cs c. R (RIntersection cs) \<Longrightarrow> c \<in> set cs \<Longrightarrow> R c"
      "\<And>a b. R (RExclusion a b) \<Longrightarrow> R a \<and> R b"
  shows "all_rules R (ee_schema e) \<Longrightarrow> R rule \<Longrightarrow> expand_rule e rule ot oi ctx = Inr t \<Longrightarrow> Q t"
    "all_rules R (ee_schema e) \<Longrightarrow> expand_this e name ot oi ctx = Inr t \<Longrightarrow> Q t"
    "all_rules R (ee_schema e) \<Longrightarrow> expand_arrow e ts cp ot oi ctx = Inr t \<Longrightarrow> Q t"
proof (induction e rule ot oi ctx and e name ot oi ctx and e ts cp ot oi ctx
    arbitrary: t and t and t rule: expand_rule_expand_this_expand_arrow.induct)
  case (1 e rule ot oi ctx)
  have d: "\<not> ec_depth ctx > max_depth (ee_config e)"
    using "1.prems"(3) by (auto simp: expand_rule.simps)
  show ?case
  proof (cases rule)
    case (RThis name)
    with "1.IH"(1) [OF d RThis "1.prems"(1)] "1.prems"(3) d show ?thesis by (simp add: expand_rule.simps)
  next
    case (RUnion cs)
    with "1.prems"(3) d obtain ts where t: "t = TUnion ts" and ts: "try_map (\<lambda>c. expand_rule e c ot oi ctx) cs = Inr ts"
      by (auto simp: expand_rule.simps [of _ "RUnion cs"] result_simps)
    from try_map_list_all [OF ts "1.IH"(2) [OF d RUnion _ "1.prems"(1)]] sub(1) "1.prems"(2) RUnion
    show ?thesis unfolding t by (intro union) auto
  next
    case (RIntersection cs)
    with "1.prems"(3) d obtain ts where t: "t = TIntersection ts" and ts: "try_map (\<lambda>c. expand_rule e c ot oi ctx) cs = Inr ts"
      by (auto simp: expand_rule.simps [of _ "RIntersection cs"] result_simps)
    from try_map_list_all [OF ts "1.IH"(3) [OF d RIntersection _ "1.prems"(1)]] sub(2) "1.prems"(2) RIntersection
    show ?thesis unfolding t by (intro inter) auto
  next
    case (RExclusion a b)
    with "1.prems"(3) d obtain ta tb where t: "t = TExclusion ta tb"
      and a: "expand_rule e a ot oi ctx = Inr ta" and b: "expand_rule e b ot oi ctx = Inr tb"
      by (auto simp: expand_rule.simps [of _ "RExclusion a b"] result_simps)
    from sub(3) "1.prems"(2) RExclusion have "R a" "R b" by blast+
    with "1.IH"(4) [OF d RExclusion "1.prems"(1) _ a] "1.IH"(5) [OF d RExclusion a "1.prems"(1) _ b]
      "1.prems"(2) RExclusion show ?thesis unfolding t by (intro excl) auto
  next
    case (RArrow ts cp)
    with "1.IH"(6) [OF d RArrow "1.prems"(1)] "1.prems"(3) d show ?thesis by (simp add: expand_rule.simps)
  qed
next
  case (2 e name ot oi ctx)
  from "2.prems"(2) obtain td where td: "get_type (ee_schema e) ot = Some td"
    by (auto simp: expand_this.simps split: option.splits)
  show ?case
  proof (cases "get_permission td name")
    case (Some pd)
    with "2.IH" [OF td Some "2.prems"(1) all_rulesD [OF "2.prems"(1) td Some]] "2.prems"(2) td
    show ?thesis by (simp add: expand_this.simps)
  next
    case None
    have "list_all Q zs" if "tuple_leaves e ctx x = Inr zs" for x zs
      using that leaf by (auto simp: tuple_leaves_def result_simps list_all_iff split: option.splits)
    with None td "2.prems"(2) show ?thesis
      by (auto simp: expand_this.simps result_simps split: if_splits intro!: this_node elim: try_concat_map_list_all)
  qed
next
  case (3 e ts cp ot oi ctx)
  from "3.prems"(2) obtain tuples us where r: "ee_reader e (object_filter ot oi ts) (ec_snapshot ctx) = Inr tuples"
    and us: "try_concat_map (expand_target e cp ctx) tuples = Inr us" and t: "t = TArrow ts cp us"
    by (auto simp: expand_arrow_targets result_simps)
  show ?case unfolding t
  proof (rule arrow, rule try_concat_map_list_all [OF us])
    fix x zs assume x: "x \<in> set tuples" "expand_target e cp ctx x = Inr zs"
    show "list_all Q zs"
    proof (cases "(subject_type (tup_subject x), subject_id (tup_subject x), cp) \<in> ec_visited ctx")
      case False
      with x(2) obtain td pd tr where td: "get_type (ee_schema e) (subject_type (tup_subject x)) = Some td"
        and pd: "get_permission td cp = Some pd" and z: "zs = [tr]"
        and tr: "expand_rule e (perm_rule pd) (subject_type (tup_subject x)) (subject_id (tup_subject x))
          \<lparr>ec_snapshot = ec_snapshot ctx, ec_depth = ec_depth ctx + 1, ec_visited =
             insert (subject_type (tup_subject x), subject_id (tup_subject x), cp) (ec_visited ctx)\<rparr> = Inr tr"
        by (auto simp: expand_target_def Let_def result_simps split: option.splits)
      from "3.IH" [OF r x(1) refl refl refl False td pd "3.prems"(1) all_rulesD [OF "3.prems"(1) td pd] tr] z
      show ?thesis by simp
    qed (use x(2) in \<open>simp add: expand_target_def\<close>)
  qed
qed

section \<open>Trees of parsed schemas\<close>

fun nonempty_rule :: "RewriteRule \<Rightarrow> bool" where
  "nonempty_rule (RUnion cs) = list_all nonempty_rule cs"
| "nonempty_rule (RIntersection cs) = (cs \<noteq> [] \<and> list_all nonempty_rule cs)"
| "nonempty_rule (RExclusion a b) = (nonempty_rule a \<and> nonempty_rule b)"
| "nonempty_rule r = True"

fun monotone_rule :: "RewriteRule \<Rightarrow> bool" where
  "monotone_rule (RUnion cs) = list_all monotone_rule cs"
| "monotone_rule (RIntersection cs) = False"
| "monotone_rule (RExclusion a b) = False"
| "monotone_rule r = True"

lemma wf_term_nonempty: "wf_term r \<Longrightarrow> nonempty_rule r"
  by (cases r) auto

lemma wf_rule_nonempty: "wf_rule r \<Longrightarrow> nonempty_rule r"
  by (cases r) (auto simp: list_all_iff wf_term_nonempty)

lemma wf_schema_nonempty: "wf_schema S \<Longrightarrow> all_rules nonempty_rule S"
  by (auto simp: wf_schema_def wf_type_def wf_permission_def all_rules_def list_all_iff wf_rule_nonempty)

lemma expand_inhabited:
  assumes "all_rules nonempty_rule (ee_schema e)" "expand e req = Inr t"
  shows "inhabited t"
proof -
  from assms(2) obtain td pd where td: "get_type (ee_schema e) (er_object_type req) = Some td"
      "get_permission td (er_permission req) = Some pd"
    and t: "expand_rule e (perm_rule pd) (er_object_type req) (er_object_id req)
      \<lparr>ec_snapshot = er_snapshot req, ec_depth = 0, ec_visited = {}\<rparr> = Inr t"
    by (auto simp: expand_def result_simps)
  show ?thesis
    by (rule expand_tree_induct(1) [where R = nonempty_rule, OF _ _ _ _ _ _ _ _ _ assms(1) all_rulesD [OF assms(1) td] t])
      (auto simp: list_all_iff)
qed

lemma expand_monotone:
  assumes "all_rules monotone_rule (ee_schema e)" "expand e req = Inr t"
  shows "monotone_tree t"
proof -
  from assms(2) obtain td pd where td: "get_type (ee_schema e) (er_object_type req) = Some td"
      "get_permission td (er_permission req) = Some pd"
    and t: "expand_rule e (perm_rule pd) (er_object_type req) (er_object_id req)
      \<lparr>ec_snapshot = er_snapshot req, ec_depth = 0, ec_visited = {}\<rparr> = Inr t"
    by (auto simp: expand_def result_simps)
  show ?thesis
    by (rule expand_tree_induct(1) [where R = monotone_rule, OF _ _ _ _ _ _ _ _ _ assms(1) all_rulesD [OF assms(1) td] t])
      (auto simp: list_all_iff)
qed

section \<open>Lookups and checks at the same version\<close>

definition at_version :: "SnapshotToken option \<Rightarrow> Consistency" where
  "at_version snap = (case snap of None \<Rightarrow> MinimizeLatency | Some tok \<Rightarrow> AtExactSnapshot tok)"

lemma resolve_at_version [simp]: "resolve_snapshot store f (at_version snap) = Inr snap"
  by (cases snap) (simp_all add: at_version_def)

definition resource_check :: "LookupResourcesInput \<Rightarrow> SnapshotToken option \<Rightarrow> string \<Rightarrow> CheckPermissionInput" where
  "resource_check input snap oi =
     \<lparr>cpi_object_type = lri_resource_type input, cpi_object_id = oi, cpi_permission = lri_permission input,
      cpi_subject_type = lri_subject_type input, cpi_subject_id = lri_subject_id input,
      cpi_consistency = at_version snap\<rparr>"

definition subject_check :: "LookupSubjectsInput \<Rightarrow> SnapshotToken option \<Rightarrow> string \<Rightarrow> CheckPermissionInput" where
  "subject_check input snap si =
     \<lparr>cpi_object_type = lsi_object_type input, cpi_object_id = lsi_object_id input,
      cpi_permission = lsi_permission input, cpi_subject_type = lsi_subject_type input, cpi_subject_id = si,
      cpi_consistency = at_version snap\<rparr>"

abbreviation says_allowed :: "ApiError + CheckPermissionOutput \<Rightarrow> bool" where
  "says_allowed r \<equiv> (case r of Inr out \<Rightarrow> cpo_allowed out | Inl e \<Rightarrow> False)"

lemma says_allowed_uncached:
  assumes "load_schema env store f = Inr S" "resolve_snapshot store f (cpi_consistency input) = Inr snap"
  shows "says_allowed (check_uncached env store f cfg input) \<longleftrightarrow>
    check (engine_at store f cfg S) (check_request_of input snap) = Inr \<lparr>allowed = True\<rparr>"
  using assms
  by (cases "check (engine_at store f cfg S) (check_request_of input snap)") (auto simp: check_uncached_def)

lemma lookup_resources_uncached_exact:
  assumes "lookup_resources_uncached env store f cfg input = Inr out"
  obtains ids where "store_list_object_ids store f (lri_resource_type input) (lro_snapshot out) None = Inr ids"
    "lro_resource_ids out = take (case lri_limit input of Some n \<Rightarrow> n | None \<Rightarrow> 1000)
       (filter (\<lambda>oi. says_allowed (check_uncached env store f cfg (resource_check input (lro_snapshot out) oi))) ids)"
proof -
  from assms obtain snap ids S rs where i: "store_list_object_ids store f (lri_resource_type input) snap None = Inr ids"
    and S: "load_schema env store f = Inr S"
    and l: "lookup_loop (engine_at store f cfg S) input snap (case lri_limit input of Some n \<Rightarrow> n | None \<Rightarrow> 1000) [] ids = Inr rs"
    and o: "out = \<lparr>lro_resource_ids = rs, lro_snapshot = snap\<rparr>"
    by (auto simp: lookup_resources_uncached_def result_simps)
  have "says_allowed (check_uncached env store f cfg (resource_check input snap oi)) \<longleftrightarrow>
      check (engine_at store f cfg S) \<lparr>cr_object_type = lri_resource_type input, cr_object_id = oi,
       cr_permission = lri_permission input, cr_subject_type = lri_subject_type input,
       cr_subject_id = lri_subject_id input, cr_snapshot = snap\<rparr> = Inr \<lparr>allowed = True\<rparr>" for oi
    by (subst says_allowed_uncached [OF S, of _ snap]) (simp_all add: resource_check_def check_request_of_def)
  with lookup_loop_Inr [OF l] show thesis by (intro that [of ids]) (simp_all add: o i)
qed

text \<open>The tree a lookup reads grants exactly the subjects whose check allows them.\<close>

lemma expand_uncached_checks:
  fixes t :: TenantId
  assumes "expand_uncached env (tenant_handle t) stores cfg
      \<lparr>epi_object_type = lsi_object_type input, epi_object_id = lsi_object_id input,
       epi_permission = lsi_permission input, epi_consistency = lsi_consistency input\<rparr> = Inr out"
  obtains S where "load_schema env (tenant_handle t) stores = Inr S" "inhabited (epo_tree out)"
    "all_rules monotone_rule S \<Longrightarrow> monotone_tree (epo_tree out)"
    "\<And>si. says_allowed (check_uncached env (tenant_handle t) stores cfg (subject_check input (epo_snapshot out) si)) \<longleftrightarrow>
       tree_grants (epo_tree out) (lsi_subject_type input) si"
proof -
  let ?h = "tenant_handle t"
  from assms obtain snap S tr where S: "load_schema env ?h stores = Inr S"
    and x: "expand (expand_engine_of (engine_at ?h stores cfg S)) \<lparr>er_object_type = lsi_object_type input,
       er_object_id = lsi_object_id input, er_permission = lsi_permission input, er_snapshot = snap\<rparr> = Inr tr"
    and o: "out = \<lparr>epo_tree = tr, epo_snapshot = snap\<rparr>"
    by (auto simp: expand_uncached_def result_simps)
  from S have "wf_schema S" by (auto simp: load_schema_tenant parsed_schema_wf)
  then have inh: "inhabited tr" using expand_inhabited [OF _ x] by (simp add: wf_schema_nonempty)
  have mono: "monotone_tree tr" if "all_rules monotone_rule S" using expand_monotone [OF _ x] that by simp
  have "says_allowed (check_uncached env ?h stores cfg (subject_check input snap si)) \<longleftrightarrow>
      tree_grants tr (lsi_subject_type input) si" for si
    using tenant.reader.check_of_expand [OF engine_at_sel(1), of t stores cfg S
        "check_request_of (subject_check input snap si) snap" tr] x
      says_allowed_uncached [OF S, of "subject_check input snap si" snap cfg]
    by (simp add: check_request_of_def subject_check_def)
  with S inh mono o that show thesis by simp
qed

lemma running_lookup_subjects:
  assumes "running env K C ec svc" "fst (lookup_subjects env t input svc) = Inr out"
  obtains x where "expand_uncached env (tenant_handle t) (factory svc) ec
      \<lparr>epi_object_type = lsi_object_type input, epi_object_id = lsi_object_id input,
       epi_permission = lsi_permission input, epi_consistency = lsi_consistency input\<rparr> = Inr x"
    "lso_snapshot out = epo_snapshot x"
    "set (lso_subjects out) = set (collect_subjects (epo_tree x) (lsi_subject_type input))"
proof -
  note i = running_inv [OF assms(1)]
  let ?in = "\<lparr>epi_object_type = lsi_object_type input, epi_object_id = lsi_object_id input,
       epi_permission = lsi_permission input, epi_consistency = lsi_consistency input\<rparr>"
  obtain r svc' where e: "expand_permission_tree env t ?in svc = (r, svc')" by fastforce
  from mem_factory.expand_permission_tree_ok [OF i(1) e] i(2)
  have r: "expand_uncached env (tenant_handle t) (factory svc) ec ?in = r" by simp
  show thesis
  proof (cases r)
    case (Inl e')
    with assms(2) e show thesis by (simp add: lookup_subjects_def)
  next
    case (Inr x)
    with r have "expand_uncached env (tenant_handle t) (factory svc) ec ?in = Inr x" by simp
    moreover from assms(2) e Inr have "lso_snapshot out = epo_snapshot x"
      "set (lso_subjects out) = set (collect_subjects (epo_tree x) (lsi_subject_type input))"
      by (auto simp: lookup_subjects_def Let_def)
    ultimately show thesis by (rule that)
  qed
qed

end
