(* ===== verification/Rest_Router.thy ===== *)
theory Rest_Router
  imports Rest Lookups
begin

text \<open>
  \<open>kraalzibar-server/src/rest/mod.rs\<close>: the routes and the layers around them, outermost first: metrics,
  authentication, handler; and what a request does to the invariant of the service.
\<close>

section \<open>Requests\<close>

datatype HttpMethod = GET | HEAD | POST | OtherMethod

record HttpRequest =
  hr_method :: HttpMethod
  hr_path :: string
  hr_authorization :: "string option"
  hr_body :: string

text \<open>
  What axum provides: the \<open>Json\<close> extractor per request type, which reads the request within the body
  limit and answers itself when it is no such value, the answer for a route or method that is not
  registered, and the answer when a handler asks for a tenant that no layer inserted. A \<open>get\<close> route
  also serves \<open>HEAD\<close>; the model keeps the value of the response whose body is then dropped.
\<close>

record Axum =
  dec_check :: "HttpRequest \<Rightarrow> ApiResult + CheckPermissionRequest"
  dec_expand :: "HttpRequest \<Rightarrow> ApiResult + ExpandPermissionRequest"
  dec_resources :: "HttpRequest \<Rightarrow> ApiResult + LookupResourcesRequest"
  dec_subjects :: "HttpRequest \<Rightarrow> ApiResult + LookupSubjectsRequest"
  dec_write :: "HttpRequest \<Rightarrow> ApiResult + WriteRelationshipsRequest"
  dec_read :: "HttpRequest \<Rightarrow> ApiResult + ReadRelationshipsRequest"
  dec_schema :: "HttpRequest \<Rightarrow> ApiResult + WriteSchemaRequest"
  unmatched :: "HttpMethod \<Rightarrow> string \<Rightarrow> ApiResult"
  missing_extension :: ApiResult

fun method_name_from_path :: "string \<Rightarrow> string option" where
  "method_name_from_path path =
     (if path = ''/v1/permissions/check'' then Some ''check''
      else if path = ''/v1/permissions/expand'' then Some ''expand''
      else if path = ''/v1/permissions/resources'' then Some ''lookup_resources''
      else if path = ''/v1/permissions/subjects'' then Some ''lookup_subjects''
      else if path = ''/v1/relationships/write'' then Some ''write_relationships''
      else if path = ''/v1/relationships/read'' then Some ''read_relationships''
      else None)"

definition metrics_method :: "HttpMethod \<Rightarrow> string \<Rightarrow> string option" where
  "metrics_method m path =
     (if path = ''/v1/schema'' then
        (case m of POST \<Rightarrow> Some ''write_schema'' | GET \<Rightarrow> Some ''read_schema'' | _ \<Rightarrow> None)
      else method_name_from_path path)"

definition is_success :: "ApiResult \<Rightarrow> bool" where
  "is_success r \<longleftrightarrow> 200 \<le> fst r \<and> fst r < 300"

definition metrics_middleware ::
  "'x F64 \<Rightarrow> 'x \<Rightarrow> HttpMethod \<Rightarrow> string \<Rightarrow>
     (('f, 'sc, 'cc) AuthzService \<Rightarrow> ApiResult \<times> ('f, 'sc, 'cc) AuthzService) \<Rightarrow>
     ('f, 'sc, 'cc) AuthzService \<Rightarrow> ApiResult \<times> ('f, 'sc, 'cc) AuthzService" where
  "metrics_middleware F elapsed m path next_layer svc =
     (case next_layer (on_metrics record_request svc) of (resp, svc) \<Rightarrow>
        (let svc = on_metrics (if is_success resp then record_success else record_error) svc
         in case metrics_method m path of
              Some name \<Rightarrow> (resp, on_metrics (record_method_request F name elapsed) svc)
            | None \<Rightarrow> (resp, svc)))"

section \<open>Routes\<close>

definition routes ::
  "Axum \<Rightarrow> ('f, 'sc, 'cc) Env \<Rightarrow> HttpRequest \<Rightarrow> TenantId option \<Rightarrow> ('f, 'sc, 'cc) AuthzService \<Rightarrow>
     ApiResult \<times> ('f, 'sc, 'cc) AuthzService" where
  "routes ax env req tenant svc =
     (let path = hr_path req; m = hr_method req; reads = (m = GET \<or> m = HEAD) in
      if path = ''/healthz'' \<and> reads then (h_healthz, svc)
      else if path = ''/v1/watch'' \<and> reads then (h_watch, svc)
      else if path \<in> {''/v1/permissions/check'', ''/v1/permissions/expand'', ''/v1/permissions/resources'',
          ''/v1/permissions/subjects'', ''/v1/relationships/write'', ''/v1/relationships/read'', ''/v1/schema''} \<and>
          (m = POST \<or> reads \<and> path = ''/v1/schema'') then
        (case tenant of
           None \<Rightarrow> (missing_extension ax, svc)
         | Some t \<Rightarrow>
             if path = ''/v1/permissions/check'' then on_input (dec_check ax req) (h_check_permission env t) svc
             else if path = ''/v1/permissions/expand'' then on_input (dec_expand ax req) (h_expand_permission env t) svc
             else if path = ''/v1/permissions/resources'' then on_input (dec_resources ax req) (h_lookup_resources env t) svc
             else if path = ''/v1/permissions/subjects'' then on_input (dec_subjects ax req) (h_lookup_subjects env t) svc
             else if path = ''/v1/relationships/write'' then on_input (dec_write ax req) (h_write_relationships env t) svc
             else if path = ''/v1/relationships/read'' then on_input (dec_read ax req) (h_read_relationships env t) svc
             else if m = POST then on_input (dec_schema ax req) (h_write_schema env t) svc
             else h_read_schema env t svc)
      else (unmatched ax m path, svc))"

definition error_json :: "nat \<Rightarrow> string \<Rightarrow> ApiResult" where
  "error_json status m = (status, JObject [(''error'', JString m)])"

definition auth_layer ::
  "'h Argon2 \<Rightarrow> KeyQuery AuthState \<Rightarrow> HttpRequest \<Rightarrow>
     (TenantId option \<Rightarrow> ('f, 'sc, 'cc) AuthzService \<Rightarrow> ApiResult \<times> ('f, 'sc, 'cc) AuthzService) \<Rightarrow>
     ('f, 'sc, 'cc) AuthzService \<Rightarrow> ApiResult \<times> ('f, 'sc, 'cc) AuthzService" where
  "auth_layer A st req handler svc =
     (case rest_auth_middleware A st (hr_path req) (hr_authorization req) of
        (RunHandler t, evs) \<Rightarrow> handler t (fold emit evs svc)
      | (AuthReject status m, evs) \<Rightarrow> (error_json status m, fold emit evs svc))"

text \<open>\<open>create_router\<close>, applied to a request that took \<open>elapsed\<close>.\<close>

definition create_router ::
  "Axum \<Rightarrow> 'h Argon2 \<Rightarrow> 'x F64 \<Rightarrow> ('f, 'sc, 'cc) Env \<Rightarrow> KeyQuery AuthState \<Rightarrow> 'x \<Rightarrow> HttpRequest \<Rightarrow>
     ('f, 'sc, 'cc) AuthzService \<Rightarrow> ApiResult \<times> ('f, 'sc, 'cc) AuthzService" where
  "create_router ax A F env st elapsed req svc =
     metrics_middleware F elapsed (hr_method req) (hr_path req) (auth_layer A st req (routes ax env req)) svc"

section \<open>The handlers as requests to the service\<close>

text \<open>A handler either leaves the service alone or makes one request of the state machine.\<close>

definition one_request ::
  "('f, 'sc, 'cc) Env \<Rightarrow> TenantId \<Rightarrow> ('f, 'sc, 'cc) AuthzService \<Rightarrow> ('f, 'sc, 'cc) AuthzService \<Rightarrow> bool" where
  "one_request env t svc svc' \<longleftrightarrow> svc' = svc \<or> (\<exists>req. request_tenant req = t \<and> svc' = svc_step env req svc)"

lemma snd_respond [simp]: "snd (respond g r) = snd r"
  by (auto simp: respond_def split: prod.splits sum.splits)

lemma one_requestI: "request_tenant req = t \<Longrightarrow> svc' = svc_step env req svc \<Longrightarrow> one_request env t svc svc'"
  by (auto simp: one_request_def)

lemma one_request_refl [simp]: "one_request env t svc svc"
  by (simp add: one_request_def)

lemma on_input_one_request:
  "(\<And>i. one_request env t svc (snd (f i svc))) \<Longrightarrow> one_request env t svc (snd (on_input inp f svc))"
  by (auto simp: on_input_def split: sum.splits)

lemma on_request:
  assumes "request_tenant (req i) = t" "snd (g i svc) = svc_step env (req i) svc"
  shows "one_request env t svc (snd (g i svc))"
  using assms by (intro one_requestI [of "req i"])

lemma handlers_one_request:
  "one_request env t svc (snd (h_check_permission env t r1 svc))"
  "one_request env t svc (snd (h_expand_permission env t r2 svc))"
  "one_request env t svc (snd (h_lookup_resources env t r3 svc))"
  "one_request env t svc (snd (h_lookup_subjects env t r4 svc))"
  "one_request env t svc (snd (h_write_relationships env t r5 svc))"
  "one_request env t svc (snd (h_read_relationships env t r6 svc))"
  "one_request env t svc (snd (h_write_schema env t r7 svc))"
  "one_request env t svc (snd (h_read_schema env t svc))"
proof -
  show "one_request env t svc (snd (h_check_permission env t r1 svc))"
    unfolding h_check_permission_def
    by (intro on_input_one_request on_request [of "CheckPermission t"]) simp_all
  show "one_request env t svc (snd (h_expand_permission env t r2 svc))"
    unfolding h_expand_permission_def
    by (intro on_input_one_request on_request [of "ExpandPermissionTree t"]) simp_all
  show "one_request env t svc (snd (h_lookup_resources env t r3 svc))"
    unfolding h_lookup_resources_def
    by (intro on_input_one_request on_request [of "LookupResources t"]) simp_all
  show "one_request env t svc (snd (h_lookup_subjects env t r4 svc))"
    unfolding h_lookup_subjects_def
    by (intro on_input_one_request on_request [of "LookupSubjects t"]) simp_all
  show "one_request env t svc (snd (h_write_relationships env t r5 svc))"
    unfolding h_write_relationships_def
    by (intro on_input_one_request on_request [of "\<lambda>(ws, ds). WriteRelationships t ws ds"]) (simp_all split: prod.splits)
  show "one_request env t svc (snd (h_read_relationships env t r6 svc))"
    unfolding h_read_relationships_def
    by (intro on_input_one_request
        on_request [of "\<lambda>c. ReadRelationships t (read_filter (rrr_filter r6)) c (Some (read_limit (rrr_limit r6)))"])
      simp_all
  show "one_request env t svc (snd (h_write_schema env t r7 svc))"
    by (rule one_requestI [of "WriteSchema t (wsr_schema r7) (wsr_force r7)"]) (simp_all add: h_write_schema_def)
  show "one_request env t svc (snd (h_read_schema env t svc))"
    by (rule one_requestI [of "ReadSchema t"]) (simp_all add: h_read_schema_def)
qed

lemma routes_one_request:
  "(case tenant of Some t \<Rightarrow> one_request env t svc (snd (routes ax env req tenant svc))
    | None \<Rightarrow> snd (routes ax env req tenant svc) = svc)"
  by (cases tenant) (auto simp: routes_def Let_def handlers_one_request intro!: on_input_one_request)

section \<open>A request and the invariant of the service\<close>

lemma fold_emit_sel [simp]:
  "factory (fold emit evs svc) = factory svc" "engine_config (fold emit evs svc) = engine_config svc"
  "schema_cache (fold emit evs svc) = schema_cache svc" "check_cache (fold emit evs svc) = check_cache svc"
  by (induction evs arbitrary: svc) simp_all

context tenant_stores
begin

lemma svc_inv_bookkeeping:
  "svc_inv env K C (on_metrics g svc) \<longleftrightarrow> svc_inv env K C svc"
  "svc_inv env K C (fold emit evs svc) \<longleftrightarrow> svc_inv env K C svc"
  by (simp_all add: svc_inv_def coherent_def)

lemma one_request_inv:
  assumes "svc_inv env K C svc" "\<forall>t. tx_room (current t (factory svc))" "one_request env t svc svc'"
  shows "svc_inv env K C svc' \<and> engine_config svc' = engine_config svc"
proof -
  have "has_room current req (factory svc)" for req using assms(2) by (cases req) simp_all
  with assms(1,3) svc_step_inv show ?thesis unfolding one_request_def by blast
qed

lemma create_router_inv:
  assumes i: "svc_inv env K C svc" and room: "\<forall>t. tx_room (current t (factory svc))"
  shows "svc_inv env K C (snd (create_router ax A Fl env st elapsed req svc)) \<and>
    engine_config (snd (create_router ax A Fl env st elapsed req svc)) = engine_config svc"
proof -
  obtain d evs where d: "rest_auth_middleware A st (hr_path req) (hr_authorization req) = (d, evs)" by fastforce
  let ?s = "fold emit evs (on_metrics record_request svc)"
  have s: "svc_inv env K C ?s" "engine_config ?s = engine_config svc" "factory ?s = factory svc"
    using i by (simp_all add: svc_inv_bookkeeping)
  have r: "svc_inv env K C (snd (routes ax env req t ?s)) \<and> engine_config (snd (routes ax env req t ?s)) = engine_config svc" for t
    using routes_one_request [where tenant = t and env = env and svc = ?s and ax = ax and req = req] s room one_request_inv [OF s(1)]
    by (cases t) auto
  have "svc_inv env K C (snd (auth_layer A st req (routes ax env req) (on_metrics record_request svc))) \<and>
    engine_config (snd (auth_layer A st req (routes ax env req) (on_metrics record_request svc))) = engine_config svc"
    using s r by (cases d) (simp_all add: auth_layer_def d)
  then show ?thesis
    by (auto simp: create_router_def metrics_middleware_def Let_def svc_inv_bookkeeping split: prod.splits option.splits)
qed

text \<open>A request acts on the stores of the tenant its layer inserted and on no other.\<close>

lemma create_router_others:
  assumes i: "svc_inv env K C svc" and room: "\<forall>t. tx_room (current t (factory svc))"
    and u: "fst (rest_auth_middleware A st (hr_path req) (hr_authorization req)) \<noteq> RunHandler (Some u)"
  shows "current u (factory (snd (create_router ax A Fl env st elapsed req svc))) = current u (factory svc) \<and>
    view u (factory (snd (create_router ax A Fl env st elapsed req svc))) = view u (factory svc) \<and>
    schema_text u (factory (snd (create_router ax A Fl env st elapsed req svc))) = schema_text u (factory svc)"
proof -
  obtain d evs where d: "rest_auth_middleware A st (hr_path req) (hr_authorization req) = (d, evs)" by fastforce
  let ?s = "fold emit evs (on_metrics record_request svc)"
  let ?same = "\<lambda>s'. current u (factory s') = current u (factory svc) \<and> view u (factory s') = view u (factory svc) \<and>
    schema_text u (factory s') = schema_text u (factory svc)"
  have s: "svc_inv env K C ?s" using i by (simp add: svc_inv_bookkeeping)
  have rm: "has_room current r (factory ?s)" for r using room by (cases r) simp_all
  have "?same (snd (routes ax env req t ?s))" if "t \<noteq> Some u" for t
  proof (cases t)
    case None
    then show ?thesis using routes_one_request [where tenant = t and env = env and svc = ?s and ax = ax and req = req] by simp
  next
    case (Some t')
    with that have u: "u \<noteq> t'" by simp
    from Some routes_one_request [where tenant = t and env = env and svc = ?s and ax = ax and req = req]
    have "one_request env t' ?s (snd (routes ax env req t ?s))" by simp
    then show ?thesis using svc_step_others [OF s rm] u by (auto simp: one_request_def)
  qed
  with u d have "?same (snd (auth_layer A st req (routes ax env req) (on_metrics record_request svc)))"
    by (cases d) (auto simp: auth_layer_def)
  then show ?thesis
    by (auto simp: create_router_def metrics_middleware_def Let_def split: prod.splits option.splits)
qed

end

text \<open>The answer of the router is that of the layers below the metrics.\<close>

lemma fst_create_router:
  "fst (create_router ax A F env st elapsed req svc) =
     fst (auth_layer A st req (routes ax env req) (on_metrics record_request svc))"
  by (auto simp: create_router_def metrics_middleware_def Let_def split: prod.splits option.splits)

lemma factory_create_router:
  assumes "rest_auth_middleware A st (hr_path req) (hr_authorization req) = (RunHandler t, evs)"
  shows "factory (snd (create_router ax A F env st elapsed req svc)) =
    factory (snd (routes ax env req t (fold emit evs (on_metrics record_request svc))))"
  using assms by (auto simp: create_router_def metrics_middleware_def auth_layer_def Let_def split: prod.splits option.splits)

end
