(* ===== verification/Grpc.thy ===== *)
theory Grpc
  imports Rest_Router
begin

text \<open>
  \<open>kraalzibar-server/src/grpc\<close>: the messages of the protobuf files, their conversions, the three
  services and the interceptor in front of them. A message is a record with an option for every
  message-typed or optional field, an enum is its number; a response stream is the list of the
  messages sent. As in \<open>main.rs\<close>, the services and the REST layer share the metrics of the service.
\<close>

section \<open>Messages\<close>

record ObjectReference =
  po_object_type :: string
  po_object_id :: string

record SubjectReference =
  ps_subject_type :: string
  ps_subject_id :: string
  ps_subject_relation :: "string option"

record Relationship =
  pr_object :: "ObjectReference option"
  pr_relation :: string
  pr_subject :: "SubjectReference option"

record ProtoUpdate =
  pu_operation :: int
  pu_relationship :: "Relationship option"

record ZedToken =
  zt_token :: string

datatype Requirement =
    RequireFull bool
  | RequireMinimizeLatency bool
  | RequireAtLeastAsFresh ZedToken
  | RequireAtExactSnapshot ZedToken

record ProtoConsistency =
  requirement :: "Requirement option"

record RelationshipFilter =
  pf_object_type :: "string option"
  pf_object_id :: "string option"
  pf_relation :: "string option"
  pf_subject_type :: "string option"
  pf_subject_id :: "string option"

datatype PermissionExpansionTree = PermissionExpansionTree (node: "ExpansionNode option")
  and ExpansionNode =
    LeafNode "SubjectReference option"
  | IntermediateNode int "PermissionExpansionTree list"

record ProtoCheckRequest =
  pc_consistency :: "ProtoConsistency option"
  pc_resource :: "ObjectReference option"
  pc_permission :: string
  pc_subject :: "SubjectReference option"

record ProtoCheckResponse =
  pc_checked_at :: "ZedToken option"
  pc_permissionship :: int

record ProtoExpandRequest =
  pe_consistency :: "ProtoConsistency option"
  pe_resource :: "ObjectReference option"
  pe_permission :: string

record ProtoExpandResponse =
  pe_expanded_at :: "ZedToken option"
  pe_tree :: "PermissionExpansionTree option"

record ProtoResourcesRequest =
  plr_consistency :: "ProtoConsistency option"
  plr_resource_type :: string
  plr_permission :: string
  plr_subject :: "SubjectReference option"
  plr_optional_limit :: "32 word"

record ProtoResourcesResponse =
  plr_looked_up_at :: "ZedToken option"
  plr_resource_id :: string

record ProtoSubjectsRequest =
  pls_consistency :: "ProtoConsistency option"
  pls_resource :: "ObjectReference option"
  pls_permission :: string
  pls_subject_type :: string

record ProtoSubjectsResponse =
  pls_looked_up_at :: "ZedToken option"
  pls_subject :: "SubjectReference option"

record ProtoReadRequest =
  prr_consistency :: "ProtoConsistency option"
  prr_filter :: "RelationshipFilter option"
  prr_optional_limit :: "32 word"

record ProtoReadResponse =
  prr_read_at :: "ZedToken option"
  prr_relationships :: "Relationship list"

record ProtoWriteSchemaRequest =
  pws_schema :: string
  pws_force :: bool

record ProtoWriteSchemaResponse =
  pws_written_at :: "ZedToken option"
  pws_breaking_changes_overridden :: bool

type_synonym Status = "TonicCode \<times> string"

section \<open>Conversions\<close>

definition proto_object_to_domain :: "ObjectReference \<Rightarrow> ObjectRef" where
  "proto_object_to_domain obj = ObjectRef_new (po_object_type obj) (po_object_id obj)"

definition domain_object_to_proto :: "ObjectRef \<Rightarrow> ObjectReference" where
  "domain_object_to_proto obj = \<lparr>po_object_type = object_type obj, po_object_id = object_id obj\<rparr>"

definition proto_subject_to_domain :: "SubjectReference \<Rightarrow> SubjectRef" where
  "proto_subject_to_domain subj =
     (case ps_subject_relation subj of
        Some rel \<Rightarrow> userset (ps_subject_type subj) (ps_subject_id subj) rel
      | None \<Rightarrow> direct (ps_subject_type subj) (ps_subject_id subj))"

definition domain_subject_to_proto :: "SubjectRef \<Rightarrow> SubjectReference" where
  "domain_subject_to_proto subj = \<lparr>ps_subject_type = subject_type subj, ps_subject_id = subject_id subj,
     ps_subject_relation = subject_relation subj\<rparr>"

definition domain_tuple_to_proto :: "Tuple \<Rightarrow> Relationship" where
  "domain_tuple_to_proto t = \<lparr>pr_object = Some (domain_object_to_proto (tup_object t)), pr_relation = tup_relation t,
     pr_subject = Some (domain_subject_to_proto (tup_subject t))\<rparr>"

definition proto_relationship_to_write :: "Relationship \<Rightarrow> Status + TupleWrite" where
  "proto_relationship_to_write r =
     and_then (ok_or (map_option proto_object_to_domain (pr_object r)) (InvalidArgument, ''relationship object is required'')) (\<lambda>object.
     and_then (ok_or (map_option proto_subject_to_domain (pr_subject r)) (InvalidArgument, ''relationship subject is required'')) (\<lambda>subject.
       Inr (TupleWrite_new object (pr_relation r) subject)))"

definition proto_filter_to_domain :: "RelationshipFilter \<Rightarrow> TupleFilter" where
  "proto_filter_to_domain f = \<lparr>f_object_type = pf_object_type f, f_object_id = pf_object_id f,
     f_relation = pf_relation f, f_subject_type = pf_subject_type f, f_subject_id = pf_subject_id f,
     f_subject_relation = None\<rparr>"

definition zed_token_to_snapshot :: "ZedToken \<Rightarrow> Status + SnapshotToken" where
  "zed_token_to_snapshot token =
     (case parse_u64 (zt_token token) of
        None \<Rightarrow> Inl (InvalidArgument, ''invalid snapshot token format'')
      | Some v \<Rightarrow> Inr (SnapshotToken v))"

definition proto_consistency_to_domain :: "ProtoConsistency option \<Rightarrow> Status + Consistency" where
  "proto_consistency_to_domain c =
     (case Option.bind c requirement of
        Some (RequireFull _) \<Rightarrow> Inr FullConsistency
      | Some (RequireAtLeastAsFresh token) \<Rightarrow> and_then (zed_token_to_snapshot token) (\<lambda>t. Inr (AtLeastAsFresh t))
      | Some (RequireAtExactSnapshot token) \<Rightarrow> and_then (zed_token_to_snapshot token) (\<lambda>t. Inr (AtExactSnapshot t))
      | _ \<Rightarrow> Inr MinimizeLatency)"

definition snapshot_to_zed_token :: "SnapshotToken option \<Rightarrow> ZedToken option" where
  "snapshot_to_zed_token snapshot = map_option (\<lambda>s. \<lparr>zt_token = show_u64 (value_of s)\<rparr>) snapshot"

definition OPERATION_UNION :: int where "OPERATION_UNION = 1"
definition OPERATION_INTERSECTION :: int where "OPERATION_INTERSECTION = 2"
definition OPERATION_EXCLUSION :: int where "OPERATION_EXCLUSION = 3"

fun domain_expand_tree_to_proto :: "ExpandTree \<Rightarrow> PermissionExpansionTree" where
  "domain_expand_tree_to_proto (TLeaf s) = PermissionExpansionTree (Some (LeafNode (Some (domain_subject_to_proto s))))"
| "domain_expand_tree_to_proto (TThis r subjects) =
     PermissionExpansionTree (Some (IntermediateNode OPERATION_UNION (map domain_expand_tree_to_proto subjects)))"
| "domain_expand_tree_to_proto (TUnion children) =
     PermissionExpansionTree (Some (IntermediateNode OPERATION_UNION (map domain_expand_tree_to_proto children)))"
| "domain_expand_tree_to_proto (TIntersection children) =
     PermissionExpansionTree (Some (IntermediateNode OPERATION_INTERSECTION (map domain_expand_tree_to_proto children)))"
| "domain_expand_tree_to_proto (TExclusion base excluded) =
     PermissionExpansionTree (Some (IntermediateNode OPERATION_EXCLUSION
       [domain_expand_tree_to_proto base, domain_expand_tree_to_proto excluded]))"
| "domain_expand_tree_to_proto (TArrow ts cp children) =
     PermissionExpansionTree (Some (IntermediateNode OPERATION_UNION (map domain_expand_tree_to_proto children)))"

section \<open>Shared pieces of the services\<close>

definition extract_tenant_id :: "TenantId option \<Rightarrow> Status + TenantId" where
  "extract_tenant_id ext = ok_or ext (Unauthenticated, ''missing tenant context'')"

fun api_error_to_status :: "ApiError \<Rightarrow> Status" where
  "api_error_to_status (Check (TypeNotFound t)) = (NotFound, ApiError_to_string (Check (TypeNotFound t)))"
| "api_error_to_status (Check (PermissionNotFound t p)) = (NotFound, ApiError_to_string (Check (PermissionNotFound t p)))"
| "api_error_to_status (Check (RelationNotFound t r)) = (NotFound, ApiError_to_string (Check (RelationNotFound t r)))"
| "api_error_to_status (Check (MaxDepthExceeded d)) = (ResourceExhausted, ApiError_to_string (Check (MaxDepthExceeded d)))"
| "api_error_to_status (Storage EmptyDeleteFilter) = (InvalidArgument, ApiError_to_string (Storage EmptyDeleteFilter))"
| "api_error_to_status (Storage (SnapshotAhead r c)) = (InvalidArgument, ApiError_to_string (Storage (SnapshotAhead r c)))"
| "api_error_to_status (Check (CheckStorageError m)) = (TonicInternal, ''internal server error'')"
| "api_error_to_status (Storage (Internal m)) = (TonicInternal, ''internal server error'')"
| "api_error_to_status (Parse e) = (InvalidArgument, ApiError_to_string (Parse e))"
| "api_error_to_status (Validation es) = (InvalidArgument, ApiError_to_string (Validation es))"
| "api_error_to_status (BreakingChanges cs) = (FailedPrecondition, ApiError_to_string (BreakingChanges cs))"
| "api_error_to_status SchemaNotFound = (NotFound, ApiError_to_string SchemaNotFound)"

text \<open>
  A method refuses its message before the service is called, or calls the service, turns an error
  into a status, and records the method and its duration only when the service succeeded.
\<close>

definition grpc_call ::
  "'x F64 \<Rightarrow> 'x \<Rightarrow> string \<Rightarrow> Status + 'i \<Rightarrow>
     ('i \<Rightarrow> ('f, 'sc, 'cc) AuthzService \<Rightarrow> (ApiError + 'a) \<times> ('f, 'sc, 'cc) AuthzService) \<Rightarrow>
     ('a \<Rightarrow> Status + 'b) \<Rightarrow> ('f, 'sc, 'cc) AuthzService \<Rightarrow> (Status + 'b) \<times> ('f, 'sc, 'cc) AuthzService" where
  "grpc_call F elapsed method input call answer svc =
     (case input of
        Inl status \<Rightarrow> (Inl status, svc)
      | Inr i \<Rightarrow>
          (case call i svc of
             (Inl e, svc) \<Rightarrow> (Inl (api_error_to_status e), svc)
           | (Inr a, svc) \<Rightarrow> (answer a, on_metrics (record_method_request F method elapsed) svc)))"

section \<open>PermissionService\<close>

definition PERMISSIONSHIP_NO_PERMISSION :: int where "PERMISSIONSHIP_NO_PERMISSION = 1"
definition PERMISSIONSHIP_HAS_PERMISSION :: int where "PERMISSIONSHIP_HAS_PERMISSION = 2"

definition grpc_check_input :: "TenantId option \<Rightarrow> ProtoCheckRequest \<Rightarrow> Status + TenantId \<times> CheckPermissionInput" where
  "grpc_check_input ext req =
     and_then (extract_tenant_id ext) (\<lambda>tenant_id.
     and_then (ok_or (pc_resource req) (InvalidArgument, ''resource is required'')) (\<lambda>resource.
     and_then (ok_or (pc_subject req) (InvalidArgument, ''subject is required'')) (\<lambda>subject.
     and_then (proto_consistency_to_domain (pc_consistency req)) (\<lambda>c.
       Inr (tenant_id, \<lparr>cpi_object_type = po_object_type resource, cpi_object_id = po_object_id resource,
         cpi_permission = pc_permission req, cpi_subject_type = ps_subject_type subject,
         cpi_subject_id = ps_subject_id subject, cpi_consistency = c\<rparr>)))))"

definition grpc_check_permission ::
  "'x F64 \<Rightarrow> 'x \<Rightarrow> ('f, 'sc, 'cc) Env \<Rightarrow> TenantId option \<Rightarrow> ProtoCheckRequest \<Rightarrow> ('f, 'sc, 'cc) AuthzService \<Rightarrow>
     (Status + ProtoCheckResponse) \<times> ('f, 'sc, 'cc) AuthzService" where
  "grpc_check_permission F elapsed env ext req =
     grpc_call F elapsed ''check'' (grpc_check_input ext req) (\<lambda>(t, input). check_permission env t input) (\<lambda>r.
       Inr \<lparr>pc_checked_at = snapshot_to_zed_token (cpo_snapshot r),
            pc_permissionship = (if cpo_allowed r then PERMISSIONSHIP_HAS_PERMISSION else PERMISSIONSHIP_NO_PERMISSION)\<rparr>)"

definition grpc_expand_input :: "TenantId option \<Rightarrow> ProtoExpandRequest \<Rightarrow> Status + TenantId \<times> ExpandPermissionInput" where
  "grpc_expand_input ext req =
     and_then (extract_tenant_id ext) (\<lambda>tenant_id.
     and_then (ok_or (pe_resource req) (InvalidArgument, ''resource is required'')) (\<lambda>resource.
     and_then (proto_consistency_to_domain (pe_consistency req)) (\<lambda>c.
       Inr (tenant_id, \<lparr>epi_object_type = po_object_type resource, epi_object_id = po_object_id resource,
         epi_permission = pe_permission req, epi_consistency = c\<rparr>))))"

definition grpc_expand_permission_tree ::
  "'x F64 \<Rightarrow> 'x \<Rightarrow> ('f, 'sc, 'cc) Env \<Rightarrow> TenantId option \<Rightarrow> ProtoExpandRequest \<Rightarrow> ('f, 'sc, 'cc) AuthzService \<Rightarrow>
     (Status + ProtoExpandResponse) \<times> ('f, 'sc, 'cc) AuthzService" where
  "grpc_expand_permission_tree F elapsed env ext req =
     grpc_call F elapsed ''expand'' (grpc_expand_input ext req) (\<lambda>(t, input). expand_permission_tree env t input) (\<lambda>out.
       Inr \<lparr>pe_expanded_at = snapshot_to_zed_token (epo_snapshot out),
            pe_tree = Some (domain_expand_tree_to_proto (epo_tree out))\<rparr>)"

text \<open>An \<open>optional_limit\<close> of a message: zero stands for none.\<close>

definition limit_of :: "32 word \<Rightarrow> nat option" where
  "limit_of l = (if l > 0 then Some (min (unat l) 10000) else None)"

definition grpc_resources_input :: "TenantId option \<Rightarrow> ProtoResourcesRequest \<Rightarrow> Status + TenantId \<times> LookupResourcesInput" where
  "grpc_resources_input ext req =
     and_then (extract_tenant_id ext) (\<lambda>tenant_id.
     and_then (ok_or (plr_subject req) (InvalidArgument, ''subject is required'')) (\<lambda>subject.
     and_then (proto_consistency_to_domain (plr_consistency req)) (\<lambda>c.
       Inr (tenant_id, \<lparr>lri_resource_type = plr_resource_type req, lri_permission = plr_permission req,
         lri_subject_type = ps_subject_type subject, lri_subject_id = ps_subject_id subject, lri_consistency = c,
         lri_limit = limit_of (plr_optional_limit req)\<rparr>))))"

text \<open>The channel has room for every response, so all are sent in order.\<close>

definition grpc_lookup_resources ::
  "'x F64 \<Rightarrow> 'x \<Rightarrow> ('f, 'sc, 'cc) Env \<Rightarrow> TenantId option \<Rightarrow> ProtoResourcesRequest \<Rightarrow> ('f, 'sc, 'cc) AuthzService \<Rightarrow>
     (Status + ProtoResourcesResponse list) \<times> ('f, 'sc, 'cc) AuthzService" where
  "grpc_lookup_resources F elapsed env ext req =
     grpc_call F elapsed ''lookup_resources'' (grpc_resources_input ext req) (\<lambda>(t, input). lookup_resources env t input) (\<lambda>out.
       let looked_up_at = snapshot_to_zed_token (lro_snapshot out)
       in Inr (map (\<lambda>rid. \<lparr>plr_looked_up_at = looked_up_at, plr_resource_id = rid\<rparr>) (lro_resource_ids out)))"

definition grpc_subjects_input :: "TenantId option \<Rightarrow> ProtoSubjectsRequest \<Rightarrow> Status + TenantId \<times> LookupSubjectsInput" where
  "grpc_subjects_input ext req =
     and_then (extract_tenant_id ext) (\<lambda>tenant_id.
     and_then (ok_or (pls_resource req) (InvalidArgument, ''resource is required'')) (\<lambda>resource.
     and_then (proto_consistency_to_domain (pls_consistency req)) (\<lambda>c.
       Inr (tenant_id, \<lparr>lsi_object_type = po_object_type resource, lsi_object_id = po_object_id resource,
         lsi_permission = pls_permission req, lsi_subject_type = pls_subject_type req, lsi_consistency = c\<rparr>))))"

definition grpc_lookup_subjects ::
  "'x F64 \<Rightarrow> 'x \<Rightarrow> ('f, 'sc, 'cc) Env \<Rightarrow> TenantId option \<Rightarrow> ProtoSubjectsRequest \<Rightarrow> ('f, 'sc, 'cc) AuthzService \<Rightarrow>
     (Status + ProtoSubjectsResponse list) \<times> ('f, 'sc, 'cc) AuthzService" where
  "grpc_lookup_subjects F elapsed env ext req =
     grpc_call F elapsed ''lookup_subjects'' (grpc_subjects_input ext req) (\<lambda>(t, input). lookup_subjects env t input) (\<lambda>out.
       let looked_up_at = snapshot_to_zed_token (lso_snapshot out)
       in Inr (map (\<lambda>s. \<lparr>pls_looked_up_at = looked_up_at, pls_subject = Some (domain_subject_to_proto s)\<rparr>) (lso_subjects out)))"

section \<open>RelationshipService\<close>

definition OPERATION_TOUCH :: int where "OPERATION_TOUCH = 1"
definition OPERATION_DELETE :: int where "OPERATION_DELETE = 2"

text \<open>The filter of a delete: what the update's relationship names, without the subject's relation.\<close>

definition grpc_delete_filter :: "Relationship \<Rightarrow> TupleFilter" where
  "grpc_delete_filter r = proto_filter_to_domain
     \<lparr>pf_object_type = map_option po_object_type (pr_object r), pf_object_id = map_option po_object_id (pr_object r),
      pf_relation = Some (pr_relation r), pf_subject_type = map_option ps_subject_type (pr_subject r),
      pf_subject_id = map_option ps_subject_id (pr_subject r)\<rparr>"

fun grpc_collect_updates ::
  "TupleWrite list \<Rightarrow> TupleFilter list \<Rightarrow> ProtoUpdate list \<Rightarrow> Status + TupleWrite list \<times> TupleFilter list" where
  "grpc_collect_updates writes deletes [] = Inr (writes, deletes)"
| "grpc_collect_updates writes deletes (u # rest) =
     and_then (ok_or (pu_relationship u) (InvalidArgument, ''relationship is required in update'')) (\<lambda>r.
       if pu_operation u = OPERATION_TOUCH then
         and_then (proto_relationship_to_write r) (\<lambda>w. grpc_collect_updates (writes @ [w]) deletes rest)
       else if pu_operation u = OPERATION_DELETE then
         grpc_collect_updates writes (deletes @ [grpc_delete_filter r]) rest
       else Inl (InvalidArgument, ''operation must be specified''))"

definition grpc_write_input ::
  "TenantId option \<Rightarrow> ProtoUpdate list \<Rightarrow> Status + TenantId \<times> TupleWrite list \<times> TupleFilter list" where
  "grpc_write_input ext updates =
     and_then (extract_tenant_id ext) (\<lambda>tenant_id.
     and_then (grpc_collect_updates [] [] updates) (\<lambda>(writes, deletes). Inr (tenant_id, writes, deletes)))"

definition grpc_write_relationships ::
  "'x F64 \<Rightarrow> 'x \<Rightarrow> ('f, 'sc, 'cc) Env \<Rightarrow> TenantId option \<Rightarrow> ProtoUpdate list \<Rightarrow> ('f, 'sc, 'cc) AuthzService \<Rightarrow>
     (Status + ZedToken option) \<times> ('f, 'sc, 'cc) AuthzService" where
  "grpc_write_relationships F elapsed env ext updates =
     grpc_call F elapsed ''write_relationships'' (grpc_write_input ext updates)
       (\<lambda>(t, writes, deletes). write_relationships env t writes deletes)
       (\<lambda>token. Inr (snapshot_to_zed_token (Some token)))"

definition grpc_read_input ::
  "TenantId option \<Rightarrow> ProtoReadRequest \<Rightarrow> Status + TenantId \<times> TupleFilter \<times> Consistency \<times> nat option" where
  "grpc_read_input ext req =
     and_then (extract_tenant_id ext) (\<lambda>tenant_id.
     let f = (case prr_filter req of Some f \<Rightarrow> proto_filter_to_domain f | None \<Rightarrow> TupleFilter_default)
     in and_then (proto_consistency_to_domain (prr_consistency req)) (\<lambda>c.
       Inr (tenant_id, f, c, case limit_of (prr_optional_limit req) of Some l \<Rightarrow> Some l | None \<Rightarrow> Some 1000)))"

definition grpc_read_relationships ::
  "'x F64 \<Rightarrow> 'x \<Rightarrow> ('f, 'sc, 'cc) Env \<Rightarrow> TenantId option \<Rightarrow> ProtoReadRequest \<Rightarrow> ('f, 'sc, 'cc) AuthzService \<Rightarrow>
     (Status + ProtoReadResponse) \<times> ('f, 'sc, 'cc) AuthzService" where
  "grpc_read_relationships F elapsed env ext req =
     grpc_call F elapsed ''read_relationships'' (grpc_read_input ext req)
       (\<lambda>(t, f, c, limit). read_relationships env t f c limit) (\<lambda>out.
       Inr \<lparr>prr_read_at = snapshot_to_zed_token (rro_snapshot out),
            prr_relationships = map domain_tuple_to_proto (rro_tuples out)\<rparr>)"

definition grpc_watch :: "Status + unit" where
  "grpc_watch = Inl (Unimplemented, ''Watch is not yet implemented'')"

section \<open>SchemaService\<close>

definition grpc_write_schema ::
  "'x F64 \<Rightarrow> 'x \<Rightarrow> ('f, 'sc, 'cc) Env \<Rightarrow> TenantId option \<Rightarrow> ProtoWriteSchemaRequest \<Rightarrow> ('f, 'sc, 'cc) AuthzService \<Rightarrow>
     (Status + ProtoWriteSchemaResponse) \<times> ('f, 'sc, 'cc) AuthzService" where
  "grpc_write_schema F elapsed env ext req =
     grpc_call F elapsed ''write_schema'' (extract_tenant_id ext)
       (\<lambda>t. write_schema env t (pws_schema req) (pws_force req)) (\<lambda>r.
       Inr \<lparr>pws_written_at = None, pws_breaking_changes_overridden = breaking_changes_overridden r\<rparr>)"

definition grpc_read_schema ::
  "'x F64 \<Rightarrow> 'x \<Rightarrow> ('f, 'sc, 'cc) Env \<Rightarrow> TenantId option \<Rightarrow> ('f, 'sc, 'cc) AuthzService \<Rightarrow>
     (Status + string) \<times> ('f, 'sc, 'cc) AuthzService" where
  "grpc_read_schema F elapsed env ext =
     grpc_call F elapsed ''read_schema'' (extract_tenant_id ext) (\<lambda>t. read_schema env t) (\<lambda>schema.
       case schema of Some text_out \<Rightarrow> Inr text_out | None \<Rightarrow> Inl (NotFound, ''no schema has been written''))"

section \<open>The services behind their interceptor\<close>

text \<open>A call to one of the services, and its answer.\<close>

datatype GrpcRequest =
    GCheckPermission ProtoCheckRequest
  | GExpandPermissionTree ProtoExpandRequest
  | GLookupResources ProtoResourcesRequest
  | GLookupSubjects ProtoSubjectsRequest
  | GWriteRelationships "ProtoUpdate list"
  | GReadRelationships ProtoReadRequest
  | GWatch
  | GWriteSchema ProtoWriteSchemaRequest
  | GReadSchema

datatype GrpcResponse =
    GChecked ProtoCheckResponse
  | GExpanded ProtoExpandResponse
  | GResources "ProtoResourcesResponse list"
  | GSubjects "ProtoSubjectsResponse list"
  | GWritten "ZedToken option"
  | GRead ProtoReadResponse
  | GSchemaWritten ProtoWriteSchemaResponse
  | GSchema string

definition as_response :: "('a \<Rightarrow> GrpcResponse) \<Rightarrow> (Status + 'a) \<times> 's \<Rightarrow> (Status + GrpcResponse) \<times> 's" where
  "as_response K r = (case r of (Inl e, s) \<Rightarrow> (Inl e, s) | (Inr a, s) \<Rightarrow> (Inr (K a), s))"

fun grpc_method ::
  "'x F64 \<Rightarrow> 'x \<Rightarrow> ('f, 'sc, 'cc) Env \<Rightarrow> TenantId option \<Rightarrow> GrpcRequest \<Rightarrow> ('f, 'sc, 'cc) AuthzService \<Rightarrow>
     (Status + GrpcResponse) \<times> ('f, 'sc, 'cc) AuthzService" where
  "grpc_method F el env ext (GCheckPermission req) svc = as_response GChecked (grpc_check_permission F el env ext req svc)"
| "grpc_method F el env ext (GExpandPermissionTree req) svc =
     as_response GExpanded (grpc_expand_permission_tree F el env ext req svc)"
| "grpc_method F el env ext (GLookupResources req) svc = as_response GResources (grpc_lookup_resources F el env ext req svc)"
| "grpc_method F el env ext (GLookupSubjects req) svc = as_response GSubjects (grpc_lookup_subjects F el env ext req svc)"
| "grpc_method F el env ext (GWriteRelationships us) svc = as_response GWritten (grpc_write_relationships F el env ext us svc)"
| "grpc_method F el env ext (GReadRelationships req) svc = as_response GRead (grpc_read_relationships F el env ext req svc)"
| "grpc_method F el env ext GWatch svc = as_response (\<lambda>_. GSchema []) (grpc_watch, svc)"
| "grpc_method F el env ext (GWriteSchema req) svc = as_response GSchemaWritten (grpc_write_schema F el env ext req svc)"
| "grpc_method F el env ext GReadSchema svc = as_response GSchema (grpc_read_schema F el env ext svc)"

text \<open>\<open>InterceptedService\<close>: the interceptor's status, or the method with the tenant it inserted.\<close>

definition intercepted ::
  "'h Argon2 \<Rightarrow> KeyQuery AuthState \<Rightarrow> string option \<Rightarrow>
     (TenantId option \<Rightarrow> ('f, 'sc, 'cc) AuthzService \<Rightarrow> (Status + 'b) \<times> ('f, 'sc, 'cc) AuthzService) \<Rightarrow>
     ('f, 'sc, 'cc) AuthzService \<Rightarrow> (Status + 'b) \<times> ('f, 'sc, 'cc) AuthzService" where
  "intercepted A st authorization method svc =
     (case grpc_auth_interceptor A st authorization of
        (Inl status, evs) \<Rightarrow> (Inl status, fold emit evs svc)
      | (Inr t, evs) \<Rightarrow> method (Some t) (fold emit evs svc))"

definition grpc_server ::
  "'h Argon2 \<Rightarrow> 'x F64 \<Rightarrow> ('f, 'sc, 'cc) Env \<Rightarrow> KeyQuery AuthState \<Rightarrow> 'x \<Rightarrow> string option \<Rightarrow> GrpcRequest \<Rightarrow>
     ('f, 'sc, 'cc) AuthzService \<Rightarrow> (Status + GrpcResponse) \<times> ('f, 'sc, 'cc) AuthzService" where
  "grpc_server A F env st elapsed authorization req =
     intercepted A st authorization (\<lambda>ext. grpc_method F elapsed env ext req)"

section \<open>A call as a request to the service\<close>

text \<open>A call leaves the service alone, or makes one request for its tenant and may then count it.\<close>

definition one_call ::
  "'x F64 \<Rightarrow> ('f, 'sc, 'cc) Env \<Rightarrow> TenantId \<Rightarrow> ('f, 'sc, 'cc) AuthzService \<Rightarrow> ('f, 'sc, 'cc) AuthzService \<Rightarrow> bool" where
  "one_call F env t svc svc' \<longleftrightarrow>
     (\<exists>svc1. one_request env t svc svc1 \<and> (svc' = svc1 \<or> (\<exists>n e. svc' = on_metrics (record_method_request F n e) svc1)))"

lemma snd_as_response [simp]: "snd (as_response K r) = snd r"
  by (auto simp: as_response_def split: prod.splits sum.splits)

lemma one_call_refl [simp]: "one_call F env t svc svc"
  unfolding one_call_def by (rule exI [of _ svc]) simp

lemma grpc_call_one_call:
  assumes "\<And>i. input = Inr i \<Longrightarrow> request_tenant (req i) = t \<and> snd (call i svc) = svc_step env (req i) svc"
  shows "one_call F env t svc (snd (grpc_call F elapsed method input call answer svc))"
proof (cases input)
  case (Inl a)
  then show ?thesis by (simp add: grpc_call_def)
next
  case (Inr i)
  obtain r svc1 where c: "call i svc = (r, svc1)" by fastforce
  with assms [OF Inr] have "one_request env t svc svc1" by (auto intro: one_requestI)
  with Inr c show ?thesis by (cases r) (auto simp: grpc_call_def one_call_def)
qed

lemma inputs_tenant:
  "grpc_check_input (Some t) m1 = Inr (u, i1) \<Longrightarrow> u = t"
  "grpc_expand_input (Some t) m2 = Inr (u, i2) \<Longrightarrow> u = t"
  "grpc_resources_input (Some t) m3 = Inr (u, i3) \<Longrightarrow> u = t"
  "grpc_subjects_input (Some t) m4 = Inr (u, i4) \<Longrightarrow> u = t"
  "grpc_write_input (Some t) m5 = Inr (u, i5) \<Longrightarrow> u = t"
  "grpc_read_input (Some t) m6 = Inr (u, i6) \<Longrightarrow> u = t"
  by (auto simp: grpc_check_input_def grpc_expand_input_def grpc_resources_input_def grpc_subjects_input_def
      grpc_write_input_def grpc_read_input_def extract_tenant_id_def result_simps Let_def)

lemma extract_tenant_id_Some [simp]: "extract_tenant_id (Some t) = Inr t"
  by (simp add: extract_tenant_id_def)

lemma grpc_method_one_call: "one_call F env t svc (snd (grpc_method F el env (Some t) req svc))"
proof (cases req)
  case (GCheckPermission m)
  then show ?thesis unfolding grpc_method.simps grpc_check_permission_def snd_as_response GCheckPermission
    by (intro grpc_call_one_call [where req = "\<lambda>(u, i). CheckPermission t i"]) (auto dest: inputs_tenant)
next
  case (GExpandPermissionTree m)
  then show ?thesis unfolding grpc_method.simps grpc_expand_permission_tree_def snd_as_response GExpandPermissionTree
    by (intro grpc_call_one_call [where req = "\<lambda>(u, i). ExpandPermissionTree t i"]) (auto dest: inputs_tenant)
next
  case (GLookupResources m)
  then show ?thesis unfolding grpc_method.simps grpc_lookup_resources_def snd_as_response GLookupResources
    by (intro grpc_call_one_call [where req = "\<lambda>(u, i). LookupResources t i"]) (auto dest: inputs_tenant)
next
  case (GLookupSubjects m)
  then show ?thesis unfolding grpc_method.simps grpc_lookup_subjects_def snd_as_response GLookupSubjects
    by (intro grpc_call_one_call [where req = "\<lambda>(u, i). LookupSubjects t i"]) (auto dest: inputs_tenant)
next
  case (GWriteRelationships m)
  then show ?thesis unfolding grpc_method.simps grpc_write_relationships_def snd_as_response GWriteRelationships
    by (intro grpc_call_one_call [where req = "\<lambda>(u, w, d). WriteRelationships t w d"]) (auto dest: inputs_tenant)
next
  case (GReadRelationships m)
  then show ?thesis unfolding grpc_method.simps grpc_read_relationships_def snd_as_response GReadRelationships
    by (intro grpc_call_one_call [where req = "\<lambda>(u, f, c, l). ReadRelationships t f c l"]) (auto dest: inputs_tenant)
next
  case GWatch
  then show ?thesis by simp
next
  case (GWriteSchema m)
  then show ?thesis unfolding grpc_method.simps grpc_write_schema_def snd_as_response GWriteSchema
    by (intro grpc_call_one_call [where req = "\<lambda>u. WriteSchema t (pws_schema m) (pws_force m)"]) auto
next
  case GReadSchema
  then show ?thesis unfolding grpc_method.simps grpc_read_schema_def snd_as_response GReadSchema
    by (intro grpc_call_one_call [where req = "\<lambda>u. ReadSchema t"]) auto
qed

end
