(* ===== verification/Config.thy ===== *)
theory Config
  imports Service
begin

text \<open>
  \<open>kraalzibar-server/src/config.rs\<close>: the configuration of the server, its defaults, the environment
  variables that override the file, and the validation. Reading the file, decoding TOML and parsing
  a floating-point number are parameters. \<open>CacheConfig\<close> is in \<open>Service\<close>, which uses it.
\<close>

section \<open>Configuration values\<close>

type_synonym u16 = "16 word"
type_synonym u32 = "32 word"

record TlsConfig =
  cert_path :: string
  key_path :: string

definition TlsConfig_default :: TlsConfig where
  "TlsConfig_default = \<lparr>cert_path = [], key_path = []\<rparr>"

definition is_enabled :: "TlsConfig \<Rightarrow> bool" where
  "is_enabled tls \<longleftrightarrow> cert_path tls \<noteq> [] \<and> key_path tls \<noteq> []"

record 'x TracingConfig =
  tracing_enabled :: bool
  otlp_endpoint :: string
  service_name :: string
  sample_rate :: 'x

definition TracingConfig_default :: "'x F64 \<Rightarrow> 'x TracingConfig" where
  "TracingConfig_default F = \<lparr>tracing_enabled = False, otlp_endpoint = ''http://localhost:4317'',
     service_name = ''kraalzibar'', sample_rate = f64_lit F 1 1\<rparr>"

record GrpcConfig =
  grpc_host :: string
  grpc_port :: u16

definition GrpcConfig_default :: GrpcConfig where
  "GrpcConfig_default = \<lparr>grpc_host = ''0.0.0.0'', grpc_port = 50051\<rparr>"

record RestConfig =
  rest_host :: string
  rest_port :: u16

definition RestConfig_default :: RestConfig where
  "RestConfig_default = \<lparr>rest_host = ''0.0.0.0'', rest_port = 8080\<rparr>"

record DatabaseConfig =
  url :: string
  max_connections :: u32
  min_connections :: u32
  acquire_timeout_seconds :: u64
  idle_timeout_seconds :: u64
  max_lifetime_seconds :: u64

definition DatabaseConfig_default :: DatabaseConfig where
  "DatabaseConfig_default = \<lparr>url = [], max_connections = 10, min_connections = 0, acquire_timeout_seconds = 30,
     idle_timeout_seconds = 600, max_lifetime_seconds = 1800\<rparr>"

text \<open>The text of \<open>debug_struct\<close>: the fields in order, the URL replaced.\<close>

definition debug_struct :: "string \<Rightarrow> (string \<times> string) list \<Rightarrow> string" where
  "debug_struct name flds =
     name @ '' { '' @ concat (map (\<lambda>(i, n, v). (if i = 0 then [] else '', '') @ n @ '': '' @ v) (enumerate 0 flds)) @ '' }''"

definition DatabaseConfig_fmt :: "DatabaseConfig \<Rightarrow> string" where
  "DatabaseConfig_fmt d = debug_struct ''DatabaseConfig''
     [(''url'', [CHR 0x22] @ ''[REDACTED]'' @ [CHR 0x22]), (''max_connections'', show_nat (unat (max_connections d))),
      (''min_connections'', show_nat (unat (min_connections d))),
      (''acquire_timeout_seconds'', show_u64 (acquire_timeout_seconds d)),
      (''idle_timeout_seconds'', show_u64 (idle_timeout_seconds d)),
      (''max_lifetime_seconds'', show_u64 (max_lifetime_seconds d))]"

record EngineConfigValues =
  ecv_max_depth :: nat
  ecv_max_concurrent_branches :: nat

definition EngineConfigValues_default :: EngineConfigValues where
  "EngineConfigValues_default = \<lparr>ecv_max_depth = 6, ecv_max_concurrent_branches = 10\<rparr>"

record SchemaLimitsConfig =
  slc_max_types :: nat
  slc_max_relations_per_type :: nat
  slc_max_permissions_per_type :: nat

definition SchemaLimitsConfig_default :: SchemaLimitsConfig where
  "SchemaLimitsConfig_default =
     \<lparr>slc_max_types = 50, slc_max_relations_per_type = 30, slc_max_permissions_per_type = 30\<rparr>"

datatype LogFormat = JsonFormat | PrettyFormat

record LogConfig =
  log_format :: LogFormat
  log_level :: string

definition LogConfig_default :: LogConfig where
  "LogConfig_default = \<lparr>log_format = JsonFormat, log_level = ''info''\<rparr>"

record 'x AppConfig =
  cfg_grpc :: GrpcConfig
  cfg_rest :: RestConfig
  cfg_database :: DatabaseConfig
  cfg_engine :: EngineConfigValues
  cfg_schema_limits :: SchemaLimitsConfig
  cfg_log :: LogConfig
  cfg_cache :: CacheConfig
  cfg_tracing :: "'x TracingConfig"
  cfg_tls :: TlsConfig

definition AppConfig_default :: "'x F64 \<Rightarrow> 'x AppConfig" where
  "AppConfig_default F = \<lparr>cfg_grpc = GrpcConfig_default, cfg_rest = RestConfig_default,
     cfg_database = DatabaseConfig_default, cfg_engine = EngineConfigValues_default,
     cfg_schema_limits = SchemaLimitsConfig_default, cfg_log = LogConfig_default, cfg_cache = CacheConfig_default,
     cfg_tracing = TracingConfig_default F, cfg_tls = TlsConfig_default\<rparr>"

datatype ConfigError =
    ReadFile string string
  | ParseToml string
  | ConfigValidation string

fun ConfigError_to_string :: "ConfigError \<Rightarrow> string" where
  "ConfigError_to_string (ReadFile p e) = ''failed to read config file '' @ quoted p @ '': '' @ e"
| "ConfigError_to_string (ParseToml e) = ''failed to parse TOML config: '' @ e"
| "ConfigError_to_string (ConfigValidation m) = ''config validation failed: '' @ m"

definition is_configured :: "DatabaseConfig \<Rightarrow> bool" where
  "is_configured d \<longleftrightarrow> url d \<noteq> []"

definition require_configured :: "DatabaseConfig \<Rightarrow> ConfigError + unit" where
  "require_configured d =
     (if url d = [] then Inl (ConfigValidation (''database URL is required for this command '' @
        ''(set [database].url in config or KRAALZIBAR_DATABASE_URL env var)''))
      else Inr ())"

section \<open>Environment variables\<close>

text \<open>\<open>if let Some(v) = env(key)\<close>, and the same with \<open>let Ok(n) = v.parse()\<close>.\<close>

definition set_var :: "(string \<Rightarrow> string option) \<Rightarrow> string \<Rightarrow> (string \<Rightarrow> 'c \<Rightarrow> 'c) \<Rightarrow> 'c \<Rightarrow> 'c" where
  "set_var env key upd c = (case env key of Some v \<Rightarrow> upd v c | None \<Rightarrow> c)"

definition set_parsed ::
  "(string \<Rightarrow> string option) \<Rightarrow> string \<Rightarrow> (string \<Rightarrow> 'v option) \<Rightarrow> ('v \<Rightarrow> 'c \<Rightarrow> 'c) \<Rightarrow> 'c \<Rightarrow> 'c" where
  "set_parsed env key parse upd c =
     (case env key of Some v \<Rightarrow> (case parse v of Some n \<Rightarrow> upd n c | None \<Rightarrow> c) | None \<Rightarrow> c)"

definition parse_u16 :: "string \<Rightarrow> u16 option" where
  "parse_u16 s = map_option of_nat (parse_uint 16 s)"

definition parse_u32 :: "string \<Rightarrow> u32 option" where
  "parse_u32 s = map_option of_nat (parse_uint 32 s)"

definition parse_usize :: "string \<Rightarrow> nat option" where
  "parse_usize s = parse_uint 64 s"

fun parse_log_format :: "string \<Rightarrow> LogFormat option" where
  "parse_log_format v =
     (if v = ''json'' then Some JsonFormat else if v = ''pretty'' then Some PrettyFormat else None)"

definition parse_flag :: "string \<Rightarrow> bool" where
  "parse_flag v \<longleftrightarrow> v = ''true'' \<or> v = ''1''"

abbreviation on_grpc :: "(GrpcConfig \<Rightarrow> GrpcConfig) \<Rightarrow> 'x AppConfig \<Rightarrow> 'x AppConfig" where
  "on_grpc \<equiv> cfg_grpc_update"
abbreviation on_database :: "(DatabaseConfig \<Rightarrow> DatabaseConfig) \<Rightarrow> 'x AppConfig \<Rightarrow> 'x AppConfig" where
  "on_database \<equiv> cfg_database_update"
abbreviation on_cache :: "(CacheConfig \<Rightarrow> CacheConfig) \<Rightarrow> 'x AppConfig \<Rightarrow> 'x AppConfig" where
  "on_cache \<equiv> cfg_cache_update"
abbreviation on_tracing :: "('x TracingConfig \<Rightarrow> 'x TracingConfig) \<Rightarrow> 'x AppConfig \<Rightarrow> 'x AppConfig" where
  "on_tracing \<equiv> cfg_tracing_update"

definition apply_env_overrides_with ::
  "(string \<Rightarrow> 'x option) \<Rightarrow> (string \<Rightarrow> string option) \<Rightarrow> 'x AppConfig \<Rightarrow> 'x AppConfig" where
  "apply_env_overrides_with parse_f64 env c =
    (let c = set_var env ''KRAALZIBAR_GRPC_HOST'' (\<lambda>v. on_grpc (\<lambda>g. g\<lparr>grpc_host := v\<rparr>)) c;
         c = set_parsed env ''KRAALZIBAR_GRPC_PORT'' parse_u16 (\<lambda>p. on_grpc (\<lambda>g. g\<lparr>grpc_port := p\<rparr>)) c;
         c = set_var env ''KRAALZIBAR_REST_HOST'' (\<lambda>v. cfg_rest_update (\<lambda>r. r\<lparr>rest_host := v\<rparr>)) c;
         c = set_parsed env ''KRAALZIBAR_REST_PORT'' parse_u16 (\<lambda>p. cfg_rest_update (\<lambda>r. r\<lparr>rest_port := p\<rparr>)) c;
         c = set_var env ''KRAALZIBAR_DATABASE_URL'' (\<lambda>v. on_database (\<lambda>d. d\<lparr>url := v\<rparr>)) c;
         c = set_parsed env ''KRAALZIBAR_DATABASE_MAX_CONNECTIONS'' parse_u32 (\<lambda>n. on_database (\<lambda>d. d\<lparr>max_connections := n\<rparr>)) c;
         c = set_parsed env ''KRAALZIBAR_DATABASE_MIN_CONNECTIONS'' parse_u32 (\<lambda>n. on_database (\<lambda>d. d\<lparr>min_connections := n\<rparr>)) c;
         c = set_parsed env ''KRAALZIBAR_DATABASE_ACQUIRE_TIMEOUT'' parse_u64 (\<lambda>n. on_database (\<lambda>d. d\<lparr>acquire_timeout_seconds := n\<rparr>)) c;
         c = set_parsed env ''KRAALZIBAR_DATABASE_IDLE_TIMEOUT'' parse_u64 (\<lambda>n. on_database (\<lambda>d. d\<lparr>idle_timeout_seconds := n\<rparr>)) c;
         c = set_parsed env ''KRAALZIBAR_DATABASE_MAX_LIFETIME'' parse_u64 (\<lambda>n. on_database (\<lambda>d. d\<lparr>max_lifetime_seconds := n\<rparr>)) c;
         c = set_parsed env ''KRAALZIBAR_ENGINE_MAX_DEPTH'' parse_usize (\<lambda>n. cfg_engine_update (\<lambda>e. e\<lparr>ecv_max_depth := n\<rparr>)) c;
         c = set_parsed env ''KRAALZIBAR_CACHE_SCHEMA_CAPACITY'' parse_u64 (\<lambda>n. on_cache (\<lambda>k. k\<lparr>schema_cache_capacity := n\<rparr>)) c;
         c = set_parsed env ''KRAALZIBAR_CACHE_SCHEMA_TTL'' parse_u64 (\<lambda>n. on_cache (\<lambda>k. k\<lparr>schema_cache_ttl_seconds := n\<rparr>)) c;
         c = set_parsed env ''KRAALZIBAR_CACHE_CHECK_CAPACITY'' parse_u64 (\<lambda>n. on_cache (\<lambda>k. k\<lparr>check_cache_capacity := n\<rparr>)) c;
         c = set_parsed env ''KRAALZIBAR_CACHE_CHECK_TTL'' parse_u64 (\<lambda>n. on_cache (\<lambda>k. k\<lparr>check_cache_ttl_seconds := n\<rparr>)) c;
         c = set_var env ''KRAALZIBAR_LOG_LEVEL'' (\<lambda>v. cfg_log_update (\<lambda>l. l\<lparr>log_level := v\<rparr>)) c;
         c = set_parsed env ''KRAALZIBAR_LOG_FORMAT'' parse_log_format (\<lambda>f. cfg_log_update (\<lambda>l. l\<lparr>log_format := f\<rparr>)) c;
         c = set_var env ''KRAALZIBAR_TRACING_ENABLED'' (\<lambda>v. on_tracing (\<lambda>t. t\<lparr>tracing_enabled := parse_flag v\<rparr>)) c;
         c = set_var env ''KRAALZIBAR_TRACING_OTLP_ENDPOINT'' (\<lambda>v. on_tracing (\<lambda>t. t\<lparr>otlp_endpoint := v\<rparr>)) c;
         c = set_var env ''KRAALZIBAR_TRACING_SERVICE_NAME'' (\<lambda>v. on_tracing (\<lambda>t. t\<lparr>service_name := v\<rparr>)) c;
         c = set_parsed env ''KRAALZIBAR_TRACING_SAMPLE_RATE'' parse_f64 (\<lambda>r. on_tracing (\<lambda>t. t\<lparr>sample_rate := r\<rparr>)) c;
         c = set_var env ''KRAALZIBAR_TLS_CERT_PATH'' (\<lambda>v. cfg_tls_update (\<lambda>t. t\<lparr>cert_path := v\<rparr>)) c
     in set_var env ''KRAALZIBAR_TLS_KEY_PATH'' (\<lambda>v. cfg_tls_update (\<lambda>t. t\<lparr>key_path := v\<rparr>)) c)"

section \<open>Validation\<close>

text \<open>An early return with a validation error.\<close>

definition refuse_if :: "bool \<Rightarrow> string \<Rightarrow> ConfigError + unit \<Rightarrow> ConfigError + unit" where
  "refuse_if b m rest = (if b then Inl (ConfigValidation m) else rest)"

definition validate_database :: "DatabaseConfig \<Rightarrow> ConfigError + unit \<Rightarrow> ConfigError + unit" where
  "validate_database d rest =
     (if is_configured d then
        refuse_if (max_connections d = 0) ''database.max_connections must be non-zero''
        (refuse_if (min_connections d > max_connections d) ''database.min_connections must be <= max_connections''
        (refuse_if (acquire_timeout_seconds d = 0) ''database.acquire_timeout_seconds must be non-zero''
        (refuse_if (idle_timeout_seconds d = 0) ''database.idle_timeout_seconds must be non-zero''
        (refuse_if (max_lifetime_seconds d = 0) ''database.max_lifetime_seconds must be non-zero'' rest))))
      else rest)"

definition validate :: "'x F64 \<Rightarrow> 'x AppConfig \<Rightarrow> ConfigError + unit" where
  "validate F c =
     refuse_if (grpc_port (cfg_grpc c) = 0) ''grpc.port must be non-zero''
     (refuse_if (rest_port (cfg_rest c) = 0) ''rest.port must be non-zero''
     (refuse_if (ecv_max_depth (cfg_engine c) = 0) ''engine.max_depth must be non-zero''
     (validate_database (cfg_database c)
     (refuse_if (ecv_max_concurrent_branches (cfg_engine c) = 0) ''engine.max_concurrent_branches must be non-zero''
     (refuse_if (slc_max_types (cfg_schema_limits c) = 0) ''schema_limits.max_types must be non-zero''
     (refuse_if (slc_max_relations_per_type (cfg_schema_limits c) = 0) ''schema_limits.max_relations_per_type must be non-zero''
     (refuse_if (slc_max_permissions_per_type (cfg_schema_limits c) = 0) ''schema_limits.max_permissions_per_type must be non-zero''
     (refuse_if (schema_cache_capacity (cfg_cache c) = 0) ''cache.schema_cache_capacity must be non-zero''
     (refuse_if (schema_cache_ttl_seconds (cfg_cache c) = 0) ''cache.schema_cache_ttl_seconds must be non-zero''
     (refuse_if (check_cache_capacity (cfg_cache c) = 0) ''cache.check_cache_capacity must be non-zero''
     (refuse_if (check_cache_ttl_seconds (cfg_cache c) = 0) ''cache.check_cache_ttl_seconds must be non-zero''
     (refuse_if (\<not> (f64_le F (f64_lit F 0 1) (sample_rate (cfg_tracing c)) \<and>
                   f64_le F (sample_rate (cfg_tracing c)) (f64_lit F 1 1)))
        ''tracing.sample_rate must be between 0.0 and 1.0''
     (refuse_if (tracing_enabled (cfg_tracing c) \<and> otlp_endpoint (cfg_tracing c) = [])
        ''tracing.otlp_endpoint must not be empty when tracing is enabled''
     (refuse_if ((cert_path (cfg_tls c) \<noteq> []) \<noteq> (key_path (cfg_tls c) \<noteq> []))
        ''tls.cert_path and tls.key_path must both be set or both be empty''
        (Inr ())))))))))))))))"

text \<open>What the process sees: files, the TOML decoder, the parser of floats and the environment.\<close>

record 'x ConfigWorld =
  read_to_string :: "string \<Rightarrow> string + string"
  toml_from_str :: "string \<Rightarrow> string + 'x AppConfig"
  f64_parse :: "string \<Rightarrow> 'x option"
  env_var :: "string \<Rightarrow> string option"

definition load :: "'x F64 \<Rightarrow> 'x ConfigWorld \<Rightarrow> string option \<Rightarrow> ConfigError + 'x AppConfig" where
  "load F w config_path =
     and_then (case config_path of
         Some path \<Rightarrow>
           and_then (map_err (ReadFile path) (read_to_string w path)) (\<lambda>contents.
             map_err ParseToml (toml_from_str w contents))
       | None \<Rightarrow> Inr (AppConfig_default F)) (\<lambda>config.
     let config = apply_env_overrides_with (f64_parse w) (env_var w) config
     in and_then (validate F config) (\<lambda>_. Inr config))"

definition to_engine_config :: "'x AppConfig \<Rightarrow> EngineConfig" where
  "to_engine_config c = \<lparr>max_depth = ecv_max_depth (cfg_engine c),
     max_concurrent_branches = ecv_max_concurrent_branches (cfg_engine c)\<rparr>"

definition to_schema_limits :: "'x AppConfig \<Rightarrow> SchemaLimits" where
  "to_schema_limits c = \<lparr>max_types = slc_max_types (cfg_schema_limits c),
     max_relations_per_type = slc_max_relations_per_type (cfg_schema_limits c),
     max_permissions_per_type = slc_max_permissions_per_type (cfg_schema_limits c)\<rparr>"

definition grpc_addr :: "'x AppConfig \<Rightarrow> string" where
  "grpc_addr c = grpc_host (cfg_grpc c) @ '':'' @ show_nat (unat (grpc_port (cfg_grpc c)))"

definition rest_addr :: "'x AppConfig \<Rightarrow> string" where
  "rest_addr c = rest_host (cfg_rest c) @ '':'' @ show_nat (unat (rest_port (cfg_rest c)))"

section \<open>Lemmas\<close>

lemma set_var_keeps: "(\<And>v c. f (upd v c) = f c) \<Longrightarrow> f (set_var env k upd c) = f c"
  by (simp add: set_var_def split: option.splits)

lemma set_parsed_keeps: "(\<And>v c. f (upd v c) = f c) \<Longrightarrow> f (set_parsed env k p upd c) = f c"
  by (simp add: set_parsed_def split: option.splits)

lemmas sections_keep [simp] =
  set_var_keeps [where f = cfg_grpc] set_parsed_keeps [where f = cfg_grpc]
  set_var_keeps [where f = cfg_rest] set_parsed_keeps [where f = cfg_rest]
  set_var_keeps [where f = cfg_database] set_parsed_keeps [where f = cfg_database]
  set_var_keeps [where f = cfg_engine] set_parsed_keeps [where f = cfg_engine]
  set_var_keeps [where f = cfg_schema_limits] set_parsed_keeps [where f = cfg_schema_limits]
  set_var_keeps [where f = cfg_log] set_parsed_keeps [where f = cfg_log]
  set_var_keeps [where f = cfg_cache] set_parsed_keeps [where f = cfg_cache]
  set_var_keeps [where f = cfg_tracing] set_parsed_keeps [where f = cfg_tracing]
  set_var_keeps [where f = cfg_tls] set_parsed_keeps [where f = cfg_tls]

text \<open>The value of one variable: the environment where it is set and parses, the file otherwise.\<close>

definition var_or :: "(string \<Rightarrow> string option) \<Rightarrow> string \<Rightarrow> string \<Rightarrow> string" where
  "var_or env key file = (case env key of Some v \<Rightarrow> v | None \<Rightarrow> file)"

definition parsed_or :: "(string \<Rightarrow> string option) \<Rightarrow> string \<Rightarrow> (string \<Rightarrow> 'v option) \<Rightarrow> 'v \<Rightarrow> 'v" where
  "parsed_or env key parse file =
     (case env key of Some v \<Rightarrow> (case parse v of Some n \<Rightarrow> n | None \<Rightarrow> file) | None \<Rightarrow> file)"

definition effective_config ::
  "(string \<Rightarrow> 'x option) \<Rightarrow> (string \<Rightarrow> string option) \<Rightarrow> 'x AppConfig \<Rightarrow> 'x AppConfig" where
  "effective_config parse_f64 env c = \<lparr>
     cfg_grpc = \<lparr>grpc_host = var_or env ''KRAALZIBAR_GRPC_HOST'' (grpc_host (cfg_grpc c)),
       grpc_port = parsed_or env ''KRAALZIBAR_GRPC_PORT'' parse_u16 (grpc_port (cfg_grpc c))\<rparr>,
     cfg_rest = \<lparr>rest_host = var_or env ''KRAALZIBAR_REST_HOST'' (rest_host (cfg_rest c)),
       rest_port = parsed_or env ''KRAALZIBAR_REST_PORT'' parse_u16 (rest_port (cfg_rest c))\<rparr>,
     cfg_database = \<lparr>url = var_or env ''KRAALZIBAR_DATABASE_URL'' (url (cfg_database c)),
       max_connections = parsed_or env ''KRAALZIBAR_DATABASE_MAX_CONNECTIONS'' parse_u32 (max_connections (cfg_database c)),
       min_connections = parsed_or env ''KRAALZIBAR_DATABASE_MIN_CONNECTIONS'' parse_u32 (min_connections (cfg_database c)),
       acquire_timeout_seconds =
         parsed_or env ''KRAALZIBAR_DATABASE_ACQUIRE_TIMEOUT'' parse_u64 (acquire_timeout_seconds (cfg_database c)),
       idle_timeout_seconds =
         parsed_or env ''KRAALZIBAR_DATABASE_IDLE_TIMEOUT'' parse_u64 (idle_timeout_seconds (cfg_database c)),
       max_lifetime_seconds =
         parsed_or env ''KRAALZIBAR_DATABASE_MAX_LIFETIME'' parse_u64 (max_lifetime_seconds (cfg_database c))\<rparr>,
     cfg_engine = (cfg_engine c)\<lparr>ecv_max_depth :=
         parsed_or env ''KRAALZIBAR_ENGINE_MAX_DEPTH'' parse_usize (ecv_max_depth (cfg_engine c))\<rparr>,
     cfg_schema_limits = cfg_schema_limits c,
     cfg_log = \<lparr>log_format = parsed_or env ''KRAALZIBAR_LOG_FORMAT'' parse_log_format (log_format (cfg_log c)),
       log_level = var_or env ''KRAALZIBAR_LOG_LEVEL'' (log_level (cfg_log c))\<rparr>,
     cfg_cache = \<lparr>
       schema_cache_capacity = parsed_or env ''KRAALZIBAR_CACHE_SCHEMA_CAPACITY'' parse_u64 (schema_cache_capacity (cfg_cache c)),
       schema_cache_ttl_seconds = parsed_or env ''KRAALZIBAR_CACHE_SCHEMA_TTL'' parse_u64 (schema_cache_ttl_seconds (cfg_cache c)),
       check_cache_capacity = parsed_or env ''KRAALZIBAR_CACHE_CHECK_CAPACITY'' parse_u64 (check_cache_capacity (cfg_cache c)),
       check_cache_ttl_seconds = parsed_or env ''KRAALZIBAR_CACHE_CHECK_TTL'' parse_u64 (check_cache_ttl_seconds (cfg_cache c))\<rparr>,
     cfg_tracing = \<lparr>
       tracing_enabled = (case env ''KRAALZIBAR_TRACING_ENABLED'' of Some v \<Rightarrow> parse_flag v
          | None \<Rightarrow> tracing_enabled (cfg_tracing c)),
       otlp_endpoint = var_or env ''KRAALZIBAR_TRACING_OTLP_ENDPOINT'' (otlp_endpoint (cfg_tracing c)),
       service_name = var_or env ''KRAALZIBAR_TRACING_SERVICE_NAME'' (service_name (cfg_tracing c)),
       sample_rate = parsed_or env ''KRAALZIBAR_TRACING_SAMPLE_RATE'' parse_f64 (sample_rate (cfg_tracing c))\<rparr>,
     cfg_tls = \<lparr>cert_path = var_or env ''KRAALZIBAR_TLS_CERT_PATH'' (cert_path (cfg_tls c)),
       key_path = var_or env ''KRAALZIBAR_TLS_KEY_PATH'' (key_path (cfg_tls c))\<rparr>\<rparr>"

lemma set_var_gives: "(\<And>v c. f (upd v c) = v) \<Longrightarrow> f (set_var env k upd c) = var_or env k (f c)"
  by (simp add: set_var_def var_or_def split: option.splits)

lemma set_parsed_gives: "(\<And>v c. f (upd v c) = v) \<Longrightarrow> f (set_parsed env k p upd c) = parsed_or env k p (f c)"
  by (simp add: set_parsed_def parsed_or_def split: option.splits)

lemma section_var: "(\<And>v c. f (upd v c) = upd' v (f c)) \<Longrightarrow> f (set_var env k upd c) = set_var env k upd' (f c)"
  by (simp add: set_var_def split: option.splits)

lemma section_parsed: "(\<And>v c. f (upd v c) = upd' v (f c)) \<Longrightarrow> f (set_parsed env k p upd c) = set_parsed env k p upd' (f c)"
  by (simp add: set_parsed_def split: option.splits)

lemmas text_setters = set_var_keeps set_parsed_keeps set_var_gives
lemmas parsed_setters = set_var_keeps set_parsed_keeps set_parsed_gives

lemma apply_env_effective: "apply_env_overrides_with pf env c = effective_config pf env c"
proof (rule AppConfig.equality)
  note defs = apply_env_overrides_with_def effective_config_def Let_def
  show "cfg_database (apply_env_overrides_with pf env c) = cfg_database (effective_config pf env c)"
    by (rule DatabaseConfig.equality)
      (simp_all add: defs section_var [where f = cfg_database and upd = "\<lambda>v. on_database (u v)" and upd' = u for u]
        section_parsed [where f = cfg_database and upd = "\<lambda>v. on_database (u v)" and upd' = u for u]
        text_setters [where f = url] parsed_setters [where f = max_connections] parsed_setters [where f = min_connections]
        parsed_setters [where f = acquire_timeout_seconds] parsed_setters [where f = idle_timeout_seconds]
        parsed_setters [where f = max_lifetime_seconds])
  show "cfg_cache (apply_env_overrides_with pf env c) = cfg_cache (effective_config pf env c)"
    by (rule CacheConfig.equality)
      (simp_all add: defs section_parsed [where f = cfg_cache and upd = "\<lambda>v. on_cache (u v)" and upd' = u for u]
        parsed_setters [where f = schema_cache_capacity] parsed_setters [where f = schema_cache_ttl_seconds]
        parsed_setters [where f = check_cache_capacity] parsed_setters [where f = check_cache_ttl_seconds])
  show "cfg_tracing (apply_env_overrides_with pf env c) = cfg_tracing (effective_config pf env c)"
    by (rule TracingConfig.equality)
      (simp_all add: defs section_var [where f = cfg_tracing and upd = "\<lambda>v. on_tracing (u v)" and upd' = u for u]
        section_parsed [where f = cfg_tracing and upd = "\<lambda>v. on_tracing (u v)" and upd' = u for u]
        set_var_keeps [where f = tracing_enabled] set_parsed_keeps [where f = tracing_enabled]
        text_setters [where f = otlp_endpoint] text_setters [where f = service_name] parsed_setters [where f = sample_rate]
        set_var_def [of env "''KRAALZIBAR_TRACING_ENABLED''"] split: option.splits)
  show "cfg_grpc (apply_env_overrides_with pf env c) = cfg_grpc (effective_config pf env c)"
    by (rule GrpcConfig.equality)
      (simp_all add: defs section_var [where f = cfg_grpc and upd = "\<lambda>v. on_grpc (u v)" and upd' = u for u]
        section_parsed [where f = cfg_grpc and upd = "\<lambda>v. on_grpc (u v)" and upd' = u for u]
        text_setters [where f = grpc_host] parsed_setters [where f = grpc_port])
  show "cfg_rest (apply_env_overrides_with pf env c) = cfg_rest (effective_config pf env c)"
    by (rule RestConfig.equality)
      (simp_all add: defs section_var [where f = cfg_rest and upd = "\<lambda>v. cfg_rest_update (u v)" and upd' = u for u]
        section_parsed [where f = cfg_rest and upd = "\<lambda>v. cfg_rest_update (u v)" and upd' = u for u]
        text_setters [where f = rest_host] parsed_setters [where f = rest_port])
  show "cfg_log (apply_env_overrides_with pf env c) = cfg_log (effective_config pf env c)"
    by (rule LogConfig.equality)
      (simp_all add: defs section_var [where f = cfg_log and upd = "\<lambda>v. cfg_log_update (u v)" and upd' = u for u]
        section_parsed [where f = cfg_log and upd = "\<lambda>v. cfg_log_update (u v)" and upd' = u for u]
        text_setters [where f = log_level] parsed_setters [where f = log_format])
  show "cfg_tls (apply_env_overrides_with pf env c) = cfg_tls (effective_config pf env c)"
    by (rule TlsConfig.equality)
      (simp_all add: defs section_var [where f = cfg_tls and upd = "\<lambda>v. cfg_tls_update (u v)" and upd' = u for u]
        text_setters [where f = cert_path] text_setters [where f = key_path])
  show "cfg_engine (apply_env_overrides_with pf env c) = cfg_engine (effective_config pf env c)"
    by (rule EngineConfigValues.equality)
      (simp_all add: defs section_parsed [where f = cfg_engine and upd = "\<lambda>v. cfg_engine_update (u v)" and upd' = u for u]
        parsed_setters [where f = ecv_max_depth] set_parsed_keeps [where f = ecv_max_concurrent_branches])
qed (simp_all add: apply_env_overrides_with_def effective_config_def Let_def)

lemma var_or_idem [simp]: "var_or env k (var_or env k x) = var_or env k x"
  by (simp add: var_or_def split: option.splits)

lemma parsed_or_idem [simp]: "parsed_or env k p (parsed_or env k p x) = parsed_or env k p x"
  by (simp add: parsed_or_def split: option.splits)

lemma effective_config_none: "effective_config pf (\<lambda>_. None) c = c"
  by (simp add: effective_config_def var_or_def parsed_or_def)

lemma refuse_if_Inr: "refuse_if b m rest = Inr u \<longleftrightarrow> \<not> b \<and> rest = Inr u"
  by (simp add: refuse_if_def)

text \<open>What a configuration the server starts with satisfies.\<close>

definition valid_config :: "'x F64 \<Rightarrow> 'x AppConfig \<Rightarrow> bool" where
  "valid_config F c \<longleftrightarrow>
     grpc_port (cfg_grpc c) \<noteq> 0 \<and> rest_port (cfg_rest c) \<noteq> 0 \<and> ecv_max_depth (cfg_engine c) \<noteq> 0 \<and>
     (url (cfg_database c) \<noteq> [] \<longrightarrow> max_connections (cfg_database c) \<noteq> 0 \<and>
        min_connections (cfg_database c) \<le> max_connections (cfg_database c) \<and>
        acquire_timeout_seconds (cfg_database c) \<noteq> 0 \<and> idle_timeout_seconds (cfg_database c) \<noteq> 0 \<and>
        max_lifetime_seconds (cfg_database c) \<noteq> 0) \<and>
     ecv_max_concurrent_branches (cfg_engine c) \<noteq> 0 \<and> slc_max_types (cfg_schema_limits c) \<noteq> 0 \<and>
     slc_max_relations_per_type (cfg_schema_limits c) \<noteq> 0 \<and> slc_max_permissions_per_type (cfg_schema_limits c) \<noteq> 0 \<and>
     schema_cache_capacity (cfg_cache c) \<noteq> 0 \<and> schema_cache_ttl_seconds (cfg_cache c) \<noteq> 0 \<and>
     check_cache_capacity (cfg_cache c) \<noteq> 0 \<and> check_cache_ttl_seconds (cfg_cache c) \<noteq> 0 \<and>
     f64_le F (f64_lit F 0 1) (sample_rate (cfg_tracing c)) \<and> f64_le F (sample_rate (cfg_tracing c)) (f64_lit F 1 1) \<and>
     (tracing_enabled (cfg_tracing c) \<longrightarrow> otlp_endpoint (cfg_tracing c) \<noteq> []) \<and>
     (cert_path (cfg_tls c) = [] \<longleftrightarrow> key_path (cfg_tls c) = [])"

lemma validate_Inr: "validate F c = Inr () \<longleftrightarrow> valid_config F c"
proof (cases "is_configured (cfg_database c)")
  case True
  then show ?thesis
    by (simp add: validate_def validate_database_def refuse_if_Inr is_configured_def valid_config_def not_less)
next
  case False
  then show ?thesis
    by (simp add: validate_def validate_database_def refuse_if_Inr is_configured_def valid_config_def)
qed

section \<open>Properties of the configuration\<close>

text \<open>The configuration before the environment: the file where a path is given, the defaults otherwise.\<close>

definition base_config :: "'x F64 \<Rightarrow> 'x ConfigWorld \<Rightarrow> string option \<Rightarrow> 'x AppConfig \<Rightarrow> bool" where
  "base_config F w config_path c \<longleftrightarrow>
     (case config_path of
        None \<Rightarrow> c = AppConfig_default F
      | Some path \<Rightarrow> (\<exists>contents. read_to_string w path = Inr contents \<and> toml_from_str w contents = Inr c))"

text \<open>
  C33. What the server starts with: loading succeeds exactly when the file (or the defaults) with each
  environment variable replacing its own field, where it is set and parses, is a valid configuration,
  and gives that configuration.
\<close>

theorem load_exact:
  "load F w config_path = Inr c \<longleftrightarrow>
     (\<exists>base. base_config F w config_path base \<and> c = effective_config (f64_parse w) (env_var w) base \<and> valid_config F c)"
  by (auto simp: load_def base_config_def apply_env_effective result_simps validate_Inr Let_def split: option.splits)

text \<open>Loading is stable: the overrides of an environment change nothing when they are applied again.\<close>

lemma overrides_idempotent:
  "apply_env_overrides_with pf env (apply_env_overrides_with pf env c) = apply_env_overrides_with pf env c"
  unfolding apply_env_effective by (simp add: effective_config_def split: option.splits)

text \<open>With neither file nor variables the server starts with its defaults.\<close>

lemma load_defaults:
  assumes "f64_le F (f64_lit F 0 1) (f64_lit F 1 1)" "f64_le F (f64_lit F 1 1) (f64_lit F 1 1)" "env_var w = (\<lambda>_. None)"
  shows "load F w None = Inr (AppConfig_default F)"
proof -
  have "valid_config F (AppConfig_default F)"
    using assms(1,2)
    by (simp add: valid_config_def AppConfig_default_def GrpcConfig_default_def RestConfig_default_def
        DatabaseConfig_default_def EngineConfigValues_default_def SchemaLimitsConfig_default_def
        CacheConfig_default_def TracingConfig_default_def TlsConfig_default_def)
  then have "validate F (AppConfig_default F) = Inr ()" by (simp add: validate_Inr)
  then show ?thesis
    by (simp add: load_def apply_env_effective assms(3) effective_config_none)
qed

text \<open>The debug text of the database configuration does not depend on its URL, which holds a password.\<close>

lemma debug_hides_url: "DatabaseConfig_fmt (d\<lparr>url := u\<rparr>) = DatabaseConfig_fmt d"
  by (simp add: DatabaseConfig_fmt_def)

text \<open>The defaults are those of the engine and of the schema limits.\<close>

lemma default_conversions:
  "to_engine_config (AppConfig_default F) = EngineConfig_default"
  "to_schema_limits (AppConfig_default F) = SchemaLimits_default"
  by (simp_all add: to_engine_config_def to_schema_limits_def AppConfig_default_def EngineConfigValues_default_def
      SchemaLimitsConfig_default_def EngineConfig_default_def SchemaLimits_default_def)

text \<open>A loaded configuration lets the engine look past the requested permission.\<close>

lemma loaded_engine_depth: "validate F c = Inr () \<Longrightarrow> 0 < max_depth (to_engine_config c)"
  by (simp add: validate_Inr valid_config_def to_engine_config_def)

end
