(* ===== verification/Server.thy ===== *)
theory Server
  imports Grpc Config
begin

text \<open>
  \<open>kraalzibar-server/src/main.rs\<close>, \<open>start_server\<close>: one service, built from the configuration, behind the
  REST router and the gRPC services, which share its metrics. The running server is a state machine
  whose steps are HTTP requests and gRPC calls in any order; a read of \<open>/metrics\<close>, whose route is added
  outside the layers, changes nothing.
\<close>

section \<open>Start-up\<close>

definition server_service ::
  "('f, 'sc, 'cc) Env \<Rightarrow> 'f \<Rightarrow> 'x AppConfig \<Rightarrow> ('f, 'sc, 'cc) AuthzService" where
  "server_service env f config = with_metrics Metrics_default
     (with_cache_config env f (to_engine_config config) (to_schema_limits config) (cfg_cache config))"

text \<open>What \<open>run_serve\<close> decides: the backend and how requests are authenticated.\<close>

datatype Backend = PostgresBackend string | InMemoryBackend

definition run_serve :: "(string \<Rightarrow> 'r) \<Rightarrow> 'x AppConfig \<Rightarrow> Backend \<times> 'r AuthState" where
  "run_serve repository_of config =
     (if is_configured (cfg_database config)
      then (PostgresBackend (url (cfg_database config)), with_repository (repository_of (url (cfg_database config))))
      else (InMemoryBackend, dev_mode))"

definition metrics_handler :: "'x F64 \<Rightarrow> ('f, 'sc, 'cc) AuthzService \<Rightarrow> string option" where
  "metrics_handler F svc = Option.bind (metrics svc) (render_prometheus F)"

section \<open>Steps\<close>

inductive server_reachable ::
  "Axum \<Rightarrow> 'h Argon2 \<Rightarrow> 'x F64 \<Rightarrow> ('f, 'sc, 'cc) Env \<Rightarrow> KeyQuery AuthState \<Rightarrow> (TenantId \<Rightarrow> 'f \<Rightarrow> u64) \<Rightarrow>
     ('f, 'sc, 'cc) AuthzService \<Rightarrow> ('f, 'sc, 'cc) AuthzService \<Rightarrow> bool"
  for ax A F env st current svc0 where
  start: "server_reachable ax A F env st current svc0 svc0"
| http: "server_reachable ax A F env st current svc0 svc \<Longrightarrow> \<forall>t. tx_room (current t (factory svc)) \<Longrightarrow>
     server_reachable ax A F env st current svc0 (snd (create_router ax A F env st elapsed req svc))"
| grpc: "server_reachable ax A F env st current svc0 svc \<Longrightarrow> \<forall>t. tx_room (current t (factory svc)) \<Longrightarrow>
     server_reachable ax A F env st current svc0 (snd (grpc_server A F env st elapsed authorization call svc))"

context tenant_stores
begin

lemma one_call_inv:
  assumes "svc_inv env K C svc" "\<forall>t. tx_room (current t (factory svc))" "one_call Fl env t svc svc'"
  shows "svc_inv env K C svc' \<and> engine_config svc' = engine_config svc"
proof -
  from assms(3) obtain svc1 where r: "one_request env t svc svc1"
    and e: "svc' = svc1 \<or> (\<exists>n el. svc' = on_metrics (record_method_request Fl n el) svc1)"
    unfolding one_call_def by blast
  from one_request_inv [OF assms(1,2) r] e show ?thesis by (elim disjE exE) (simp_all add: svc_inv_bookkeeping)
qed

lemma one_call_others:
  assumes i: "svc_inv env K C svc" and room: "\<forall>t. tx_room (current t (factory svc))"
    and c: "one_call Fl env t svc svc'" and u: "u \<noteq> t"
  shows "current u (factory svc') = current u (factory svc) \<and> view u (factory svc') = view u (factory svc) \<and>
    schema_text u (factory svc') = schema_text u (factory svc)"
proof -
  have rm: "has_room current r (factory svc)" for r using room by (cases r) simp_all
  from c u show ?thesis using svc_step_others [OF i rm] by (auto simp: one_call_def one_request_def)
qed

lemma grpc_server_inv:
  assumes "svc_inv env K C svc" "\<forall>t. tx_room (current t (factory svc))"
  shows "svc_inv env K C (snd (grpc_server A Fl env st elapsed authorization call svc)) \<and>
    engine_config (snd (grpc_server A Fl env st elapsed authorization call svc)) = engine_config svc"
proof (cases "grpc_auth_interceptor A st authorization")
  case (Pair d evs)
  have s: "svc_inv env K C (fold emit evs svc)" using assms(1) by (simp add: svc_inv_bookkeeping)
  show ?thesis
    using Pair s assms(2) one_call_inv [OF s _ grpc_method_one_call]
    by (cases d) (simp_all add: grpc_server_def intercepted_def)
qed

lemma grpc_server_others:
  assumes "svc_inv env K C svc" "\<forall>t. tx_room (current t (factory svc))"
    and "fst (grpc_auth_interceptor A st authorization) \<noteq> Inr u"
    and "svc' = snd (grpc_server A Fl env st elapsed authorization call svc)"
  shows "current u (factory svc') = current u (factory svc) \<and> view u (factory svc') = view u (factory svc) \<and>
    schema_text u (factory svc') = schema_text u (factory svc)"
proof (cases "grpc_auth_interceptor A st authorization")
  case (Pair d evs)
  have s: "svc_inv env K C (fold emit evs svc)" using assms(1) by (simp add: svc_inv_bookkeeping)
  show ?thesis
  proof (cases d)
    case (Inr t)
    with assms(3) Pair have "u \<noteq> t" by auto
    with one_call_others [OF s _ grpc_method_one_call this] assms(2,4) Pair Inr show ?thesis by (simp add: grpc_server_def intercepted_def)
  qed (use Pair assms(4) in \<open>simp add: grpc_server_def intercepted_def\<close>)
qed

lemma server_reachable_inv:
  "server_reachable ax A Fl env st current svc0 svc \<Longrightarrow> svc_inv env K C svc0 \<Longrightarrow>
     svc_inv env K C svc \<and> engine_config svc = engine_config svc0"
proof (induction rule: server_reachable.induct)
  case (http svc elapsed req)
  then show ?case using create_router_inv [of env K C svc ax A Fl st elapsed req] by auto
next
  case (grpc svc elapsed authorization call)
  then show ?case using grpc_server_inv [of env K C svc A Fl st elapsed authorization call] by auto
qed simp

end

text \<open>A server over the in-memory factory that has answered any sequence of HTTP requests and gRPC calls.\<close>

definition serving ::
  "Axum \<Rightarrow> 'h Argon2 \<Rightarrow> 'x F64 \<Rightarrow> (InMemoryStores, 'sc, 'cc) Env \<Rightarrow> KeyQuery AuthState \<Rightarrow>
     ('sc \<Rightarrow> TenantId \<rightharpoonup> Schema) \<Rightarrow> ('cc \<Rightarrow> CheckCacheKey \<rightharpoonup> bool) \<Rightarrow> (InMemoryStores, 'sc, 'cc) AuthzService \<Rightarrow> bool" where
  "serving ax A F env st K C svc \<longleftrightarrow> env_factory env = InMemoryStoreFactory \<and>
     cache_laws (env_schema_cache env) K \<and> cache_laws (env_check_cache env) C \<and>
     (\<exists>config :: 'x AppConfig. server_reachable ax A F env st mem_current
        (server_service env InMemoryStoreFactory_new config) svc)"

lemma serving_inv:
  fixes F :: "'x F64"
  assumes "serving ax A F env st K C svc"
  shows "mem_factory.svc_inv env K C svc"
proof -
  from assms obtain config :: "'x AppConfig" where E: "env_factory env = InMemoryStoreFactory"
    and L: "cache_laws (env_schema_cache env) K" "cache_laws (env_check_cache env) C"
    and r: "server_reachable ax A F env st mem_current (server_service env InMemoryStoreFactory_new config) svc"
    unfolding serving_def by blast
  have "mem_factory.svc_inv env K C (server_service env InMemoryStoreFactory_new config)"
    using mem_factory.svc_inv_start [OF E L stores_inv_new]
    by (simp add: mem_factory.svc_inv_def coherent_def with_metrics_def server_service_def)
  with mem_factory.server_reachable_inv [OF r] show ?thesis by blast
qed

text \<open>A server with a database authenticates; only without one does it run for everybody.\<close>

lemma run_serve_authenticates: "is_dev_mode (snd (run_serve repository_of config)) \<longleftrightarrow> url (cfg_database config) = []"
  by (simp add: run_serve_def is_configured_def is_dev_mode_def dev_mode_def with_repository_def)

end
