(* ===== verification/Service_Demo.thy ===== *)
theory Service_Demo
  imports Lookups
begin

text \<open>
  The service on concrete data, to instantiate the theorems of the service: a cache that never
  evicts, the in-memory factory, and a tenant with the schema and the tuples of \<open>Demo\<close>.
\<close>

definition demo_cache :: "('k, 'v, 'k \<rightharpoonup> 'v) Cache" where
  "demo_cache = \<lparr>cache_build = (\<lambda>_ _. Map.empty), cache_get = (\<lambda>c k. (c k, c)),
     cache_insert = (\<lambda>c k v. c(k \<mapsto> v)), cache_invalidate = (\<lambda>c k. c(k := None)),
     cache_invalidate_all = (\<lambda>_. Map.empty)\<rparr>"

lemma demo_cache_laws: "cache_laws demo_cache (\<lambda>c. c)"
  by (auto simp: cache_laws_def demo_cache_def)

type_synonym DemoEnv = "(InMemoryStores, TenantId \<rightharpoonup> Schema, CheckCacheKey \<rightharpoonup> bool) Env"
type_synonym DemoService = "(InMemoryStores, TenantId \<rightharpoonup> Schema, CheckCacheKey \<rightharpoonup> bool) AuthzService"

definition demo_env :: DemoEnv where
  "demo_env = \<lparr>env_factory = InMemoryStoreFactory, env_schema_cache = demo_cache,
     env_check_cache = demo_cache, env_pest_error = (\<lambda>_. ''syntax'')\<rparr>"

definition demo_tenant :: TenantId where
  "demo_tenant = TenantId 1"

definition demo_schema_text :: string where
  "demo_schema_text =
     ''definition user {} definition group { relation member: user } '' @
     ''definition folder { relation viewer: user | group#member permission can_view = viewer } '' @
     ''definition document { relation parent: folder relation owner: user relation banned: user '' @
     ''permission can_view = owner + parent->can_view permission can_edit = can_view - banned }''"

lemma demo_schema_parsed: "parse_schema pe demo_schema_text = Inr demo_schema"
proof -
  have "parse_schema (\<lambda>_. []) demo_schema_text = Inr demo_schema" by code_simp
  then show ?thesis by (auto simp: parse_schema_def split: option.splits)
qed

definition demo_start :: DemoService where
  "demo_start = AuthzService_new demo_env InMemoryStoreFactory_new EngineConfig_default SchemaLimits_default"

lemma demo_start_running: "running demo_env (\<lambda>c. c) (\<lambda>c. c) EngineConfig_default demo_start"
  by (auto simp: running_def demo_env_def demo_cache_laws demo_start_def AuthzService_new_def
      intro: svc_reachable.start)

text \<open>The state after a schema write, a relationship write and one expansion, written out.\<close>

definition demo_stores :: "string \<Rightarrow> TupleWrite list \<Rightarrow> InMemoryStores" where
  "demo_stores txt ws = [demo_tenant \<mapsto> \<lparr>current_tx = 1, tuples = map (stored_from 1) ws, schema_of = Some txt\<rparr>]"

definition demo_state :: "string \<Rightarrow> Schema \<Rightarrow> TupleWrite list \<Rightarrow> DemoService" where
  "demo_state txt S ws = \<lparr>factory = demo_stores txt ws, engine_config = EngineConfig_default,
     schema_limits = SchemaLimits_default, schema_cache = [demo_tenant \<mapsto> S], check_cache = Map.empty,
     metrics = None, audit_log = [SchemaWrite demo_tenant False False [], RelationshipWrite demo_tenant (length ws) 0 1]\<rparr>"

lemmas demo_simps = demo_env_def demo_cache_def InMemoryStoreFactory_def InMemoryStoreFactory_new_def
  mem_for_tenant_def tenant_handle_def open_store_def Let_def emit_def on_metrics_def

lemma demo_write_schema:
  assumes "parse_schema (\<lambda>_. ''syntax'') txt = Inr S" "validate_schema_limits S SchemaLimits_default = Inr ()"
  shows "svc_step demo_env (WriteSchema demo_tenant txt False) demo_start =
    demo_start\<lparr>factory := [demo_tenant \<mapsto> \<lparr>current_tx = 0, tuples = [], schema_of = Some txt\<rparr>],
      audit_log := [SchemaWrite demo_tenant False False []]\<rparr>"
  using assms
  by (simp add: write_schema_def demo_start_def AuthzService_new_def with_cache_config_def demo_simps
      tenant_state_def mem_read_schema_def mem_write_schema_def InMemoryStore_default_def audit_schema_write_def)

lemma demo_write_tuples:
  assumes "push_writes 1 [] {} ws [] = map (stored_from 1) ws"
  shows "svc_step demo_env (WriteRelationships demo_tenant ws [])
      (demo_start\<lparr>factory := [demo_tenant \<mapsto> \<lparr>current_tx = 0, tuples = [], schema_of = Some txt\<rparr>],
        audit_log := [SchemaWrite demo_tenant False False []]\<rparr>) =
    (demo_state txt S ws)\<lparr>schema_cache := Map.empty\<rparr>"
  using assms
  by (simp add: write_relationships_def demo_start_def AuthzService_new_def with_cache_config_def demo_simps
      tenant_state_def mem_write_def to_delete_def audit_relationship_write_def demo_state_def demo_stores_def)

lemma demo_expand:
  assumes "parse_schema (\<lambda>_. ''syntax'') txt = Inr S"
  shows "svc_step demo_env (ExpandPermissionTree demo_tenant \<lparr>epi_object_type = [], epi_object_id = [],
      epi_permission = [], epi_consistency = MinimizeLatency\<rparr>) ((demo_state txt S ws)\<lparr>schema_cache := Map.empty\<rparr>) =
    demo_state txt S ws"
  using assms
  by (auto simp: expand_permission_tree_def load_schema_cached_def load_schema_def demo_state_def demo_stores_def
      demo_simps tenant_state_def mem_read_schema_def split: sum.splits)

lemma demo_state_running:
  assumes "parse_schema (\<lambda>_. ''syntax'') txt = Inr S" "validate_schema_limits S SchemaLimits_default = Inr ()"
    and "push_writes 1 [] {} ws [] = map (stored_from 1) ws"
  shows "running demo_env (\<lambda>c. c) (\<lambda>c. c) EngineConfig_default (demo_state txt S ws)"
proof -
  have "running demo_env (\<lambda>c. c) (\<lambda>c. c) EngineConfig_default
      (demo_start\<lparr>factory := [demo_tenant \<mapsto> \<lparr>current_tx = 0, tuples = [], schema_of = Some txt\<rparr>],
        audit_log := [SchemaWrite demo_tenant False False []]\<rparr>)"
    by (subst demo_write_schema [OF assms(1,2), symmetric]) (rule running_step [OF demo_start_running], simp)
  then have "running demo_env (\<lambda>c. c) (\<lambda>c. c) EngineConfig_default ((demo_state txt S ws)\<lparr>schema_cache := Map.empty\<rparr>)"
    by (subst demo_write_tuples [where S = S, OF assms(3), symmetric])
      (rule running_step, simp_all add: tx_room_unat tenant_state_def)
  then show ?thesis
    by (subst demo_expand [OF assms(1), symmetric]) (rule running_step, simp_all)
qed

definition demo_service :: DemoService where
  "demo_service = demo_state demo_schema_text demo_schema demo_writes"

lemma demo_running: "running demo_env (\<lambda>c. c) (\<lambda>c. c) EngineConfig_default demo_service"
proof -
  have "validate_schema_limits demo_schema SchemaLimits_default = Inr ()" by code_simp
  moreover have "push_writes 1 [] {} demo_writes [] = map (stored_from 1) demo_writes" by code_simp
  ultimately show ?thesis unfolding demo_service_def by (intro demo_state_running demo_schema_parsed)
qed

text \<open>A second state whose schema has no exclusion.\<close>

definition plain_schema :: Schema where
  "plain_schema = \<lparr>types = [\<lparr>type_name = ''doc'', relations =
      [\<lparr>rel_name = ''owner'', rel_subject_types = [\<lparr>str_type_name = ''user'', str_relation = None\<rparr>]\<rparr>],
      permissions = [\<lparr>perm_name = ''view'', perm_rule = RThis ''owner''\<rparr>]\<rparr>]\<rparr>"

definition plain_text :: string where
  "plain_text = ''definition doc { relation owner: user permission view = owner }''"

definition plain_writes :: "TupleWrite list" where
  "plain_writes = [TupleWrite_new (ObjectRef_new ''doc'' ''1'') ''owner'' (direct ''user'' ''ann'')]"

definition plain_service :: DemoService where
  "plain_service = demo_state plain_text plain_schema plain_writes"

lemma plain_parsed: "parse_schema (\<lambda>_. ''syntax'') plain_text = Inr plain_schema"
  by code_simp

lemma plain_running: "running demo_env (\<lambda>c. c) (\<lambda>c. c) EngineConfig_default plain_service"
proof -
  have "validate_schema_limits plain_schema SchemaLimits_default = Inr ()" by code_simp
  moreover have "push_writes 1 [] {} plain_writes [] = map (stored_from 1) plain_writes" by code_simp
  ultimately show ?thesis unfolding plain_service_def by (intro demo_state_running plain_parsed)
qed

section \<open>What the service answers\<close>

lemma demo_state_sel [simp]:
  "tenant_state (factory (demo_state txt S ws)) demo_tenant =
     \<lparr>current_tx = 1, tuples = map (stored_from 1) ws, schema_of = Some txt\<rparr>"
  "schema_limits (demo_state txt S ws) = SchemaLimits_default"
  by (simp_all add: demo_state_def demo_stores_def tenant_state_def)

lemma demo_load:
  "parse_schema (\<lambda>_. ''syntax'') txt = Inr S \<Longrightarrow>
     load_schema demo_env (tenant_handle demo_tenant) (factory (demo_state txt S ws)) = Inr S"
  by (simp add: load_schema_tenant demo_env_def)

lemma demo_service_view: "mem_view (tenant_state (factory demo_service) demo_tenant) 1 = demo_tuples"
  by code_simp

definition demo_check :: "string \<Rightarrow> string \<Rightarrow> CheckPermissionInput" where
  "demo_check perm who = \<lparr>cpi_object_type = ''document'', cpi_object_id = ''plan'', cpi_permission = perm,
     cpi_subject_type = ''user'', cpi_subject_id = who, cpi_consistency = FullConsistency\<rparr>"

definition demo_subjects :: "string \<Rightarrow> LookupSubjectsInput" where
  "demo_subjects perm = \<lparr>lsi_object_type = ''document'', lsi_object_id = ''plan'', lsi_permission = perm,
     lsi_subject_type = ''user'', lsi_consistency = FullConsistency\<rparr>"

definition demo_resources :: LookupResourcesInput where
  "demo_resources = \<lparr>lri_resource_type = ''document'', lri_permission = ''can_view'', lri_subject_type = ''user'',
     lri_subject_id = ''bob'', lri_consistency = FullConsistency, lri_limit = Some 5\<rparr>"

lemma demo_bob_views:
  "fst (check_permission demo_env demo_tenant (demo_check ''can_view'' ''bob'') demo_service) =
     Inr \<lparr>cpo_allowed = True, cpo_snapshot = Some (SnapshotToken 1)\<rparr>"
  by code_simp

lemma demo_viewers:
  "fst (lookup_subjects demo_env demo_tenant (demo_subjects ''can_view'') demo_service) =
     Inr \<lparr>lso_subjects = [direct ''user'' ''ann'', direct ''user'' ''bob''], lso_snapshot = Some (SnapshotToken 1)\<rparr>"
  by code_simp

end
