(* ===== verification/Rest_Demo.thy ===== *)
theory Rest_Demo
  imports Server Service_Demo
begin

text \<open>
  The server on concrete data, to instantiate the theorems of the REST interface: the key table of
  \<open>Auth\<close>, decoders that stand for one body each, and the state after a schema write and a relationship
  write over HTTP.
\<close>

definition demo_check_request :: CheckPermissionRequest where
  "demo_check_request = \<lparr>cpr_resource_type = ''doc'', cpr_resource_id = ''1'', cpr_permission = ''view'',
     cpr_subject_type = ''user'', cpr_subject_id = ''ann'', cpr_consistency = Some ReqFull\<rparr>"

definition demo_ahead_request :: CheckPermissionRequest where
  "demo_ahead_request = demo_check_request\<lparr>cpr_consistency := Some (ReqAtExactSnapshot (show_u64 5))\<rparr>"

definition demo_read_request :: ReadRelationshipsRequest where
  "demo_read_request = \<lparr>rrr_filter = None, rrr_limit = None, rrr_consistency = Some (ReqAtExactSnapshot (show_u64 5))\<rparr>"

definition demo_write_request :: WriteRelationshipsRequest where
  "demo_write_request = \<lparr>wrr_updates = [\<lparr>upd_operation = ''touch'', upd_resource_type = ''doc'',
     upd_resource_id = ''1'', upd_relation = ''owner'', upd_subject_type = ''user'', upd_subject_id = ''ann'',
     upd_subject_relation = None\<rparr>]\<rparr>"

definition demo_axum :: Axum where
  "demo_axum = \<lparr>dec_check = (\<lambda>_. Inr demo_check_request), dec_expand = (\<lambda>_. Inl (422, JNull)),
     dec_resources = (\<lambda>_. Inl (422, JNull)), dec_subjects = (\<lambda>_. Inl (422, JNull)),
     dec_write = (\<lambda>_. Inr demo_write_request), dec_read = (\<lambda>_. Inr demo_read_request),
     dec_schema = (\<lambda>_. Inr \<lparr>wsr_schema = plain_text, wsr_force = False\<rparr>),
     unmatched = (\<lambda>_ _. (404, JNull)), missing_extension = (500, JNull)\<rparr>"

definition demo_post :: "string \<Rightarrow> HttpRequest" where
  "demo_post path = \<lparr>hr_method = POST, hr_path = path,
     hr_authorization = Some ''Bearer kraalzibar_abc_s3_cret'', hr_body = []\<rparr>"

definition demo_http :: "string \<Rightarrow> DemoService \<Rightarrow> ApiResult \<times> DemoService" where
  "demo_http path = create_router demo_axum demo_argon demo_f64 demo_env (with_repository demo_keys) 3 (demo_post path)"

definition http_start :: DemoService where
  "http_start = server_service demo_env InMemoryStoreFactory_new (AppConfig_default demo_f64)"

definition http_schema :: DemoService where
  "http_schema = snd (demo_http ''/v1/schema'' http_start)"

definition http_demo :: DemoService where
  "http_demo = snd (demo_http ''/v1/relationships/write'' http_schema)"

abbreviation demo_serving :: "DemoService \<Rightarrow> bool" where
  "demo_serving \<equiv> serving demo_axum demo_argon demo_f64 demo_env (with_repository demo_keys) (\<lambda>c. c) (\<lambda>c. c)"

lemma demo_authorized:
  "rest_auth_middleware demo_argon (with_repository demo_keys) ''/v1/schema'' (Some ''Bearer kraalzibar_abc_s3_cret'') =
     (RunHandler (Some demo_tenant), [AuthSuccess demo_tenant ''abc''])"
  "rest_auth_middleware demo_argon (with_repository demo_keys) ''/v1/relationships/write'' (Some ''Bearer kraalzibar_abc_s3_cret'') =
     (RunHandler (Some demo_tenant), [AuthSuccess demo_tenant ''abc''])"
  "rest_auth_middleware demo_argon (with_repository demo_keys) ''/v1/permissions/check'' (Some ''Bearer kraalzibar_abc_s3_cret'') =
     (RunHandler (Some demo_tenant), [AuthSuccess demo_tenant ''abc''])"
  by code_simp+

lemma http_start_serving: "demo_serving http_start"
  by (auto simp: serving_def http_start_def demo_env_def demo_cache_laws intro!: server_reachable.start)

lemma http_start_room: "tx_room (mem_current t (factory http_start))"
  by (simp add: http_start_def server_service_def with_metrics_def with_cache_config_def InMemoryStoreFactory_new_def
      tenant_state_def InMemoryStore_default_def tx_room_unat)

text \<open>The stores after each of the two writes.\<close>

definition demo_routes :: "string \<Rightarrow> DemoService \<Rightarrow> ApiResult \<times> DemoService" where
  "demo_routes path svc = routes demo_axum demo_env (demo_post path) (Some demo_tenant)
     (emit (AuthSuccess demo_tenant ''abc'') (on_metrics record_request svc))"

lemma demo_http_routes:
  assumes "rest_auth_middleware demo_argon (with_repository demo_keys) path (Some ''Bearer kraalzibar_abc_s3_cret'') =
     (RunHandler (Some demo_tenant), [AuthSuccess demo_tenant ''abc''])"
  shows "factory (snd (demo_http path svc)) = factory (snd (demo_routes path svc))"
    "fst (demo_http path svc) = fst (demo_routes path svc)"
proof -
  have m: "rest_auth_middleware demo_argon (with_repository demo_keys) (hr_path (demo_post path)) (hr_authorization (demo_post path)) =
     (RunHandler (Some demo_tenant), [AuthSuccess demo_tenant ''abc''])"
    using assms by (simp add: demo_post_def)
  show "factory (snd (demo_http path svc)) = factory (snd (demo_routes path svc))"
    by (simp add: demo_http_def demo_routes_def factory_create_router [OF m])
  show "fst (demo_http path svc) = fst (demo_routes path svc)"
    by (simp add: demo_http_def demo_routes_def fst_create_router auth_layer_def m)
qed

lemma schema_limits_bookkeeping [simp]:
  "schema_limits (emit ev svc) = schema_limits svc" "schema_limits (on_metrics g svc) = schema_limits svc"
  by (simp_all add: emit_def on_metrics_def)

lemma plain_limits: "validate_schema_limits plain_schema SchemaLimits_default = Inr ()"
  by code_simp

lemma plain_write_schema:
  assumes "factory svc = Map.empty" "schema_limits svc = SchemaLimits_default"
  shows "factory (snd (write_schema demo_env demo_tenant plain_text False svc)) =
    [demo_tenant \<mapsto> \<lparr>current_tx = 0, tuples = [], schema_of = Some plain_text\<rparr>]"
  using assms plain_parsed plain_limits
  by (simp add: write_schema_def demo_simps tenant_state_def mem_read_schema_def mem_write_schema_def
      InMemoryStore_default_def)

lemma plain_write_tuples:
  assumes "factory svc = [demo_tenant \<mapsto> \<lparr>current_tx = 0, tuples = [], schema_of = Some plain_text\<rparr>]"
  shows "factory (snd (write_relationships demo_env demo_tenant plain_writes [] svc)) = demo_stores plain_text plain_writes"
proof -
  have "push_writes 1 [] {} plain_writes [] = map (stored_from 1) plain_writes" by code_simp
  with assms show ?thesis
    by (simp add: write_relationships_def demo_simps tenant_state_def mem_write_def to_delete_def demo_stores_def)
qed

lemma http_schema_factory:
  "factory http_schema = [demo_tenant \<mapsto> \<lparr>current_tx = 0, tuples = [], schema_of = Some plain_text\<rparr>]"
proof -
  have "factory (snd (demo_routes ''/v1/schema'' http_start)) =
      factory (snd (write_schema demo_env demo_tenant plain_text False
        (emit (AuthSuccess demo_tenant ''abc'') (on_metrics record_request http_start))))"
    by (simp add: demo_routes_def routes_def demo_post_def demo_axum_def on_input_def h_write_schema_def)
  also have "\<dots> = [demo_tenant \<mapsto> \<lparr>current_tx = 0, tuples = [], schema_of = Some plain_text\<rparr>]"
    by (rule plain_write_schema)
      (simp_all add: http_start_def server_service_def default_conversions with_metrics_def with_cache_config_def
        InMemoryStoreFactory_new_def)
  finally show ?thesis by (simp add: http_schema_def demo_http_routes demo_authorized)
qed

lemma demo_write_input: "write_input demo_write_request = Inr (plain_writes, [])"
  by code_simp

lemma http_demo_factory: "factory http_demo = demo_stores plain_text plain_writes"
proof -
  have "factory (snd (demo_routes ''/v1/relationships/write'' http_schema)) =
      factory (snd (write_relationships demo_env demo_tenant plain_writes []
        (emit (AuthSuccess demo_tenant ''abc'') (on_metrics record_request http_schema))))"
    by (simp add: demo_routes_def routes_def demo_post_def demo_axum_def on_input_def h_write_relationships_def
        demo_write_input)
  also have "\<dots> = demo_stores plain_text plain_writes"
    by (rule plain_write_tuples) (simp add: http_schema_factory)
  finally show ?thesis by (simp add: http_demo_def demo_http_routes demo_authorized)
qed

lemma demo_serving_step:
  assumes "demo_serving svc" "\<And>t. tx_room (mem_current t (factory svc))"
  shows "demo_serving (snd (demo_http path svc))"
  using assms unfolding serving_def demo_http_def by (blast intro: server_reachable.http)

lemma http_schema_room: "tx_room (mem_current t (factory http_schema))"
  by (simp add: http_schema_factory tenant_state_def InMemoryStore_default_def tx_room_unat)

lemma http_demo_room: "tx_room (mem_current t (factory http_demo))"
  by (simp add: http_demo_factory demo_stores_def tenant_state_def InMemoryStore_default_def tx_room_unat)

lemma http_demo_serving: "demo_serving http_demo"
  unfolding http_demo_def http_schema_def
  by (intro demo_serving_step http_start_serving http_start_room http_schema_room [unfolded http_schema_def])

lemma http_demo_load: "load_schema demo_env (tenant_handle demo_tenant) (factory http_demo) = Inr plain_schema"
  using plain_parsed
  by (simp add: load_schema_tenant http_demo_factory demo_stores_def tenant_state_def demo_env_def)

text \<open>Ann owns the document, so the check over HTTP answers yes at the current version.\<close>

lemma plain_check_uncached:
  "check_uncached demo_env (tenant_handle demo_tenant) (demo_stores plain_text plain_writes) ec
     \<lparr>cpi_object_type = ''doc'', cpi_object_id = ''1'', cpi_permission = ''view'', cpi_subject_type = ''user'',
      cpi_subject_id = ''ann'', cpi_consistency = FullConsistency\<rparr> =
   Inr \<lparr>cpo_allowed = True, cpo_snapshot = Some (SnapshotToken 1)\<rparr>"
  by code_simp

lemma demo_check_input:
  "check_input demo_check_request = Inr \<lparr>cpi_object_type = ''doc'', cpi_object_id = ''1'', cpi_permission = ''view'',
     cpi_subject_type = ''user'', cpi_subject_id = ''ann'', cpi_consistency = FullConsistency\<rparr>"
  by code_simp

lemma http_demo_check:
  "fst (demo_http ''/v1/permissions/check'' http_demo) = (200, CheckPermissionResponse_json True (Some (show_u64 1)))"
proof -
  let ?s = "emit (AuthSuccess demo_tenant ''abc'') (on_metrics record_request http_demo)"
  let ?i = "\<lparr>cpi_object_type = ''doc'', cpi_object_id = ''1'', cpi_permission = ''view'', cpi_subject_type = ''user'',
      cpi_subject_id = ''ann'', cpi_consistency = FullConsistency\<rparr>"
  have "mem_factory.svc_inv demo_env (\<lambda>c. c) (\<lambda>c. c) (fold emit [AuthSuccess demo_tenant ''abc''] (on_metrics record_request http_demo))"
    using serving_inv [OF http_demo_serving] by (simp only: mem_factory.svc_inv_bookkeeping)
  then have i: "mem_factory.svc_inv demo_env (\<lambda>c. c) (\<lambda>c. c) ?s" by simp
  obtain r s' where c: "check_permission demo_env demo_tenant ?i ?s = (r, s')" by fastforce
  from mem_factory.check_permission_ok [OF i c] c
  have "fst (check_permission demo_env demo_tenant ?i ?s) = Inr \<lparr>cpo_allowed = True, cpo_snapshot = Some (SnapshotToken 1)\<rparr>"
    by (simp add: http_demo_factory plain_check_uncached)
  then have "fst (demo_routes ''/v1/permissions/check'' http_demo) = (200, CheckPermissionResponse_json True (Some (show_u64 1)))"
    by (auto simp: demo_routes_def routes_def demo_post_def demo_axum_def on_input_def h_check_permission_def
        demo_check_input respond_def json_response_def split: prod.splits)
  then show ?thesis by (simp add: demo_http_routes demo_authorized)
qed

end
