(* ===== verification/Rest_Correct.thy ===== *)
theory Rest_Correct
  imports Rest_Demo
begin

text \<open>
  What a client of the REST interface can rely on: an allowed check is backed by the key, the schema
  and the tuples of its tenant, tenants do not affect each other, every request is counted, tokens
  are accepted back, and what writes, deletes and checks at a future token do.
\<close>

section \<open>Answers\<close>

lemma error_statuses:
  "fst (api_error_to_response e) \<in> {400, 404, 412, 422, 500}"
  by (cases e rule: api_error_to_response.cases) (simp_all add: error_response_def)

lemma validate_all_status: "validate_all fs = Inl r \<Longrightarrow> fst r = 400"
  by (induction fs rule: validate_all.induct)
    (auto simp: result_simps validate_identifier_def error_response_def split: if_splits)

lemma resolve_consistency_status: "resolve_consistency c = Inl r \<Longrightarrow> fst r = 400"
  by (cases c rule: resolve_consistency.cases)
    (auto simp: result_simps parse_token_def error_response_def split: option.splits)

lemma check_input_status: "check_input req = Inl r \<Longrightarrow> fst r = 400"
  by (auto simp: check_input_def result_simps simp del: validate_all.simps
      dest: validate_all_status resolve_consistency_status)

lemma opt_field_inject: "opt_field n a = opt_field n b \<longleftrightarrow> a = b"
  by (auto simp: opt_field_def split: option.splits)

lemma check_json_inject:
  "CheckPermissionResponse_json a s = CheckPermissionResponse_json b t \<longleftrightarrow> a = b \<and> s = t"
  by (auto simp: CheckPermissionResponse_json_def opt_field_inject)

lemma h_check_permission_ok:
  assumes "fst (h_check_permission env t req svc) = (200, CheckPermissionResponse_json b tok)"
  obtains input out where "check_input req = Inr input" "fst (check_permission env t input svc) = Inr out"
    "cpo_allowed out = b" "tok = map_option (\<lambda>s. show_u64 (value_of s)) (cpo_snapshot out)"
proof (cases "check_input req")
  case (Inl r)
  with assms check_input_status [OF Inl] show thesis by (simp add: h_check_permission_def on_input_def)
next
  case (Inr input)
  obtain r svc' where c: "check_permission env t input svc = (r, svc')" by fastforce
  show thesis
  proof (cases r)
    case (Inl e)
    with assms Inr c error_statuses [of e] show thesis
      by (auto simp: h_check_permission_def on_input_def respond_def)
  next
    case (Inr out)
    with assms \<open>check_input req = Inr input\<close> c that show thesis
      by (auto simp: h_check_permission_def on_input_def respond_def json_response_def check_json_inject)
  qed
qed

lemma check_input_fields:
  "check_input req = Inr input \<Longrightarrow> cpi_object_type input = cpr_resource_type req \<and>
     cpi_object_id input = cpr_resource_id req \<and> cpi_permission input = cpr_permission req \<and>
     cpi_subject_type input = cpr_subject_type req \<and> cpi_subject_id input = cpr_subject_id req"
  by (auto simp: check_input_def result_simps)

text \<open>
  What an allowed answer is backed by, over any store: the key, the decoded body, and the decision of the
  service for the tenant of the key.
\<close>

lemma http_check_backed:
  fixes svc :: "('f, 'sc, 'cc) AuthzService"
  assumes "hr_method req = POST" "hr_path req = ''/v1/permissions/check''"
    and "\<And>q r. dec_check ax q = Inl r \<Longrightarrow> fst r \<noteq> 200"
    and "fst (create_router ax A F env (with_repository repo) elapsed req svc) = (200, CheckPermissionResponse_json True tok)"
  obtains k s row creq evs input out where "hr_authorization req = Some (''Bearer kraalzibar_'' @ k @ ''_'' @ s)"
    "repo k = Inr (Some row)" "\<not> row_revoked row" "verify_secret A s (row_key_hash row) = Inr True"
    "dec_check ax req = Inr creq" "check_input creq = Inr input"
    "fst (check_permission env (TenantId (row_tenant_id row)) input (fold emit evs (on_metrics record_request svc))) = Inr out"
    "cpo_allowed out" "tok = map_option (\<lambda>s. show_u64 (value_of s)) (cpo_snapshot out)"
proof -
  let ?st = "with_repository repo"
  obtain d evs where d: "rest_auth_middleware A ?st (hr_path req) (hr_authorization req) = (d, evs)" by fastforce
  let ?s = "fold emit evs (on_metrics record_request svc)"
  have sk: "\<not> skip_auth (hr_path req)" by (simp add: assms(2) skip_auth_def)
  have "d \<noteq> AuthReject status m" for status m
    using assms(4) d unfolding fst_create_router by (auto simp: auth_layer_def error_json_def CheckPermissionResponse_json_def)
  then obtain t where t: "d = RunHandler t" by (cases d) auto
  obtain raw k s row where key: "hr_authorization req = Some (''Bearer '' @ raw)" "parse_api_key raw = Inr (k, s)"
    "repo k = Inr (Some row)" "\<not> row_revoked row" "verify_secret A s (row_key_hash row) = Inr True"
    "t = Some (TenantId (row_tenant_id row))"
    by (rule rest_auth_RunHandler [OF d [unfolded t] sk]) (auto simp: with_repository_def)
  from assms(4) d t key(6) have h: "fst (on_input (dec_check ax req) (h_check_permission env (TenantId (row_tenant_id row))) ?s) =
      (200, CheckPermissionResponse_json True tok)"
    unfolding fst_create_router by (simp add: auth_layer_def routes_def assms(1,2))
  with assms(3) [of req] obtain creq where creq: "dec_check ax req = Inr creq"
    and hc: "fst (h_check_permission env (TenantId (row_tenant_id row)) creq ?s) = (200, CheckPermissionResponse_json True tok)"
    by (cases "dec_check ax req") (auto simp: on_input_def)
  obtain input out where "check_input creq = Inr input"
    "fst (check_permission env (TenantId (row_tenant_id row)) input ?s) = Inr out"
    "cpo_allowed out = True" "tok = map_option (\<lambda>s. show_u64 (value_of s)) (cpo_snapshot out)"
    by (rule h_check_permission_ok [OF hc])
  moreover from key(1,2) have "hr_authorization req = Some (''Bearer kraalzibar_'' @ k @ ''_'' @ s)"
    by (simp add: parse_api_key_Inr)
  ultimately show thesis using that key(3-5) creq by blast
qed



text \<open>
  Over HTTP tenants are isolated: whatever a request does, the stored schema, the current version
  and every version of each tenant other than the one its key belongs to stay as they are.
\<close>

lemma http_tenant_isolation:
  assumes "serving ax A F env st K C svc" "\<forall>t. tx_room (mem_current t (factory svc))"
    and "fst (rest_auth_middleware A st (hr_path req) (hr_authorization req)) \<noteq> RunHandler (Some u)"
    and "svc' = snd (create_router ax A F env st elapsed req svc)"
  shows "mem_current u (factory svc') = mem_current u (factory svc) \<and>
    mem_view (tenant_state (factory svc') u) = mem_view (tenant_state (factory svc) u) \<and>
    schema_of (tenant_state (factory svc') u) = schema_of (tenant_state (factory svc) u)"
  using mem_factory.create_router_others [OF serving_inv [OF assms(1)] assms(2,3)] by (simp add: assms(4))

lemma http_tenant_isolation_instance:
  "mem_view (tenant_state (factory (snd (demo_http ''/v1/relationships/write'' http_demo))) (TenantId 2)) =
     mem_view (tenant_state (factory http_demo) (TenantId 2)) \<and>
   schema_of (tenant_state (factory (snd (demo_http ''/v1/relationships/write'' http_demo))) (TenantId 2)) = None"
proof -
  have "fst (rest_auth_middleware demo_argon (with_repository demo_keys) (hr_path (demo_post ''/v1/relationships/write''))
      (hr_authorization (demo_post ''/v1/relationships/write''))) \<noteq> RunHandler (Some (TenantId 2))"
    by (simp add: demo_post_def demo_authorized demo_tenant_def)
  from http_tenant_isolation [OF http_demo_serving _ this refl] http_demo_room show ?thesis
    by (simp add: demo_http_def http_demo_factory demo_stores_def tenant_state_def demo_tenant_def InMemoryStore_default_def)
qed

section \<open>Request counters\<close>

text \<open>The three request counters of the metrics, where there are metrics.\<close>

definition request_counters :: "('f, 'sc, 'cc) AuthzService \<Rightarrow> (u64 \<times> u64 \<times> u64) option" where
  "request_counters svc = map_option (\<lambda>m. (request_total m, request_success m, request_error m)) (metrics svc)"

lemma request_counters_simps [simp]:
  "request_counters (on_metrics record_schema_cache_hit svc) = request_counters svc"
  "request_counters (on_metrics record_schema_cache_miss svc) = request_counters svc"
  "request_counters (on_metrics record_check_cache_hit svc) = request_counters svc"
  "request_counters (on_metrics record_check_cache_miss svc) = request_counters svc"
  "request_counters (on_metrics (record_method_request F n e) svc) = request_counters svc"
  "request_counters (emit ev svc) = request_counters svc"
  "request_counters (svc\<lparr>factory := f\<rparr>) = request_counters svc"
  "request_counters (svc\<lparr>schema_cache := sc\<rparr>) = request_counters svc"
  "request_counters (svc\<lparr>check_cache := cc\<rparr>) = request_counters svc"
  by (simp_all add: request_counters_def on_metrics_def emit_def record_schema_cache_hit_def
      record_schema_cache_miss_def record_check_cache_hit_def record_check_cache_miss_def
      record_method_request_def Let_def option.map_comp comp_def)

lemma request_counters_emits [simp]: "request_counters (fold emit evs svc) = request_counters svc"
  by (induction evs arbitrary: svc) simp_all

lemma request_counters_load:
  "request_counters (snd (load_schema_cached env t store svc)) = request_counters svc"
  by (auto simp: load_schema_cached_def Let_def split: prod.splits option.splits sum.splits)

lemma request_counters_open: "request_counters (snd (open_store env t svc)) = request_counters svc"
  by (simp add: open_store_def split: prod.splits)

text \<open>No method of the service touches the request counters.\<close>

lemma request_counters_step: "request_counters (svc_step env req svc) = request_counters svc"
proof -
  note load = request_counters_load [of env] and op = request_counters_open [of env]
  have load': "load_schema_cached env t store s = (r, s') \<Longrightarrow> request_counters s' = request_counters s" for t store s r s'
    using load [of t store s] by simp
  have op': "open_store env t s = (h, s') \<Longrightarrow> request_counters s' = request_counters s" for t s h s'
    using op [of t s] by simp
  have expand: "request_counters (snd (expand_permission_tree env t i svc)) = request_counters svc" for t i
    by (auto simp: expand_permission_tree_def Let_def dest!: load' op' split: prod.splits sum.splits)
  show ?thesis
  proof (cases req)
    case (CheckPermission t i)
    then show ?thesis
      by (auto simp: check_permission_def Let_def dest!: load' op' split: prod.splits sum.splits option.splits)
  next
    case (LookupSubjects t i)
    then show ?thesis
      using expand by (auto simp: lookup_subjects_def Let_def split: prod.splits sum.splits) (metis snd_conv)+
  next
    case (LookupResources t i)
    then show ?thesis
      by (auto simp: lookup_resources_def Let_def dest!: load' op' split: prod.splits sum.splits)
  next
    case (WriteSchema t d f)
    then show ?thesis
      by (auto simp: write_schema_def Let_def dest!: op' split: prod.splits sum.splits)
  qed (auto simp: expand write_relationships_def read_relationships_def read_schema_def Let_def
      dest!: op' split: prod.splits sum.splits)
qed

text \<open>
  C30. Every HTTP request is counted once in the total and once as a success (2xx) or an error, so the
  total stays the sum of both, modulo \<open>2\<^sup>6\<^sup>4\<close>, if it was before.
\<close>

theorem http_counters:
  assumes "request_counters svc = Some (n, ok, bad)"
    and "create_router ax A F env st elapsed req svc = (resp, svc')"
  shows "request_counters svc' = Some (n + 1, if is_success resp then ok + 1 else ok, if is_success resp then bad else bad + 1)"
proof -
  let ?s0 = "on_metrics record_request svc"
  obtain d evs where d: "rest_auth_middleware A st (hr_path req) (hr_authorization req) = (d, evs)" by fastforce
  have c0: "request_counters ?s0 = Some (n + 1, ok, bad)"
    using assms(1) by (auto simp: request_counters_def on_metrics_def record_request_def)
  have "request_counters (snd (routes ax env req t s)) = request_counters s" for t s
    using routes_one_request [where tenant = t and env = env and svc = s and ax = ax and req = req]
    by (cases t) (auto simp: one_request_def request_counters_step)
  then have a: "request_counters (snd (auth_layer A st req (routes ax env req) ?s0)) = Some (n + 1, ok, bad)"
    using c0 by (cases d) (simp_all add: auth_layer_def d)
  obtain r s1 where l: "auth_layer A st req (routes ax env req) ?s0 = (r, s1)" by fastforce
  have "request_counters (on_metrics (if is_success r then record_success else record_error) s1) =
      Some (n + 1, if is_success r then ok + 1 else ok, if is_success r then bad else bad + 1)"
    using a l by (auto simp: request_counters_def on_metrics_def record_success_def record_error_def)
  with l assms(2) show ?thesis
    by (auto simp: create_router_def metrics_middleware_def Let_def split: option.splits)
qed

theorem http_counters_witness:
  "request_counters (snd (demo_http ''/nowhere'' http_start)) = Some (1, 0, 1)"
proof -
  obtain resp svc' where r: "demo_http ''/nowhere'' http_start = (resp, svc')" by fastforce
  have c: "request_counters http_start = Some (0, 0, 0)"
    by (simp add: request_counters_def http_start_def server_service_def with_metrics_def Metrics_default_def)
  have "rest_auth_middleware demo_argon (with_repository demo_keys) ''/nowhere'' (Some ''Bearer kraalzibar_abc_s3_cret'') =
     (RunHandler (Some demo_tenant), [AuthSuccess demo_tenant ''abc''])" by code_simp
  from demo_http_routes(2) [OF this, of http_start] r have "resp = (404, JNull)"
    by (simp add: demo_routes_def routes_def demo_post_def demo_axum_def)
  then have "\<not> is_success resp" by (simp add: is_success_def)
  with http_counters [OF c r [unfolded demo_http_def]] r show ?thesis by simp
qed

section \<open>Writes over REST\<close>

lemma collect_updates_fields:
  "collect_updates ws ds us = Inr (ws', ds') \<Longrightarrow> list_all has_any_field ds \<Longrightarrow> list_all has_any_field ds'"
  by (induction ws ds us rule: collect_updates.induct)
    (auto simp: result_simps delete_filter_def has_any_field_def split: if_splits)



text \<open>
  A REST delete ignores the subject's relation: the filter it builds matches the tuple with the
  direct subject and every tuple with a userset of that subject alike.
\<close>

lemma rest_delete_all_relations:
  "matches (delete_filter u) tup \<longleftrightarrow>
     tup_object tup = ObjectRef_new (upd_resource_type u) (upd_resource_id u) \<and> tup_relation tup = upd_relation u \<and>
     subject_type (tup_subject tup) = upd_subject_type u \<and> subject_id (tup_subject tup) = upd_subject_id u"
  by (auto simp: matches_iff delete_filter_def ObjectRef_expand)

text \<open>
  C32. A check at an exact token the store has not reached, of a permission that names a relation, is
  answered with 500 and no reason, while a read at the same token is answered with 400: the adapter
  turns the store's \<open>SnapshotAhead\<close> into an internal error.
\<close>

theorem ahead_is_internal_for_checks:
  assumes "serving ax A F env st K C svc" "load_schema env (tenant_handle t) (factory svc) = Inr S"
    and "get_type S (cpr_resource_type req) = Some td"
    and "get_permission td (cpr_permission req) = Some \<lparr>perm_name = p, perm_rule = RThis rel\<rparr>"
    and "get_permission td rel = None" "get_relation td rel = Some rd"
    and "check_input req = Inr input" "cpr_consistency req = Some (ReqAtExactSnapshot (show_u64 v))"
    and "mem_current t (factory svc) < v"
    and "rrr_consistency rreq = Some (ReqAtExactSnapshot (show_u64 v))"
  shows "fst (h_check_permission env t req svc) = error_response 500 ''internal server error'' \<and>
    fst (fst (h_read_relationships env t rreq svc)) = 400"
proof
  note i = serving_inv [OF assms(1)]
  from assms(7,8) have inp: "cpi_consistency input = AtExactSnapshot (SnapshotToken v)"
      "cpi_object_type input = cpr_resource_type req" "cpi_permission input = cpr_permission req"
    by (auto simp: check_input_def result_simps parse_token_def)
  obtain r svc' where c: "check_permission env t input svc = (r, svc')" by fastforce
  have "r = check_uncached env (tenant_handle t) (factory svc) (engine_config svc) input"
    using mem_factory.check_permission_ok [OF i c] by simp
  also have "\<exists>m. \<dots> = Inl (Check (CheckStorageError m))"
    using assms(2-6,9) inp
    by (simp add: check_uncached_def check_def check_request_of_def evaluate_rule.simps evaluate_this.simps
        StoreTupleReader_def tenant.read_ahead snapshot_value_def)
  finally obtain m where "r = Inl (Check (CheckStorageError m))" ..
  with c assms(7) show "fst (h_check_permission env t req svc) = error_response 500 ''internal server error''"
    by (simp add: h_check_permission_def on_input_def respond_def)
  let ?f = "read_filter (rrr_filter rreq)" and ?l = "Some (read_limit (rrr_limit rreq))"
  obtain r2 svc2 where c2: "read_relationships env t ?f (AtExactSnapshot (SnapshotToken v)) ?l svc = (r2, svc2)" by fastforce
  from mem_factory.read_relationships_ok [OF i c2] assms(9)
  have "r2 = Inl (Storage (SnapshotAhead v (mem_current t (factory svc))))"
    by (simp add: tenant.read_ahead snapshot_value_def)
  with c2 assms(10) show "fst (fst (h_read_relationships env t rreq svc)) = 400"
    by (simp add: h_read_relationships_def parse_token_def on_input_def respond_def error_response_def)
qed

theorem ahead_is_internal_for_checks_witness:
  "fst (h_check_permission demo_env demo_tenant demo_ahead_request http_demo) = error_response 500 ''internal server error'' \<and>
   fst (fst (h_read_relationships demo_env demo_tenant demo_read_request http_demo)) = 400"
proof (rule ahead_is_internal_for_checks [OF http_demo_serving http_demo_load])
  show "get_type plain_schema (cpr_resource_type demo_ahead_request) = Some (types plain_schema ! 0)"
    by (simp add: plain_schema_def demo_ahead_request_def demo_check_request_def get_type_def)
  show "get_permission (types plain_schema ! 0) (cpr_permission demo_ahead_request) =
      Some \<lparr>perm_name = ''view'', perm_rule = RThis ''owner''\<rparr>"
    by (simp add: plain_schema_def demo_ahead_request_def demo_check_request_def get_permission_def)
  show "get_permission (types plain_schema ! 0) ''owner'' = None"
    "get_relation (types plain_schema ! 0) ''owner'' = Some (relations (types plain_schema ! 0) ! 0)"
    by (simp_all add: plain_schema_def get_permission_def get_relation_def)
  show "check_input demo_ahead_request = Inr \<lparr>cpi_object_type = ''doc'', cpi_object_id = ''1'', cpi_permission = ''view'',
      cpi_subject_type = ''user'', cpi_subject_id = ''ann'', cpi_consistency = AtExactSnapshot (SnapshotToken 5)\<rparr>"
    by (simp add: check_input_def demo_ahead_request_def demo_check_request_def validate_identifier_def
        MAX_IDENTIFIER_LENGTH_def parse_token_def)
  show "cpr_consistency demo_ahead_request = Some (ReqAtExactSnapshot (show_u64 5))"
    "rrr_consistency demo_read_request = Some (ReqAtExactSnapshot (show_u64 5))"
    by (simp_all add: demo_ahead_request_def demo_read_request_def)
  show "mem_current demo_tenant (factory http_demo) < 5"
    by (simp add: http_demo_factory demo_stores_def tenant_state_def)
qed

end
