(* ===== verification/Client.thy ===== *)
theory Client
  imports Rest_Demo
begin

text \<open>
  \<open>kraalzibar-client/src\<close>: the client library. A client operation turns its request into a message,
  sends it with the API key through a channel, and turns the answer back. The channel has one
  operation per method of the services, as the generated stubs do; \<open>server_channel\<close> is the channel
  that leads to the modelled server.
\<close>

section \<open>Configuration and errors\<close>

text \<open>Durations in seconds.\<close>

record ClientOptions =
  opt_api_key :: "string option"
  opt_timeout :: u64
  opt_connect_timeout :: u64

definition ClientOptions_default :: ClientOptions where
  "ClientOptions_default = \<lparr>opt_api_key = None, opt_timeout = 30, opt_connect_timeout = 5\<rparr>"

definition redacted :: "string option \<Rightarrow> string" where
  "redacted key = (case key of None \<Rightarrow> ''None'' | Some _ \<Rightarrow> ''Some('' @ [CHR 0x22] @ ''[REDACTED]'' @ [CHR 0x22] @ '')'')"

definition ClientOptions_fmt :: "ClientOptions \<Rightarrow> string" where
  "ClientOptions_fmt c = debug_struct ''ClientOptions'' [(''api_key'', redacted (opt_api_key c)),
     (''timeout'', show_u64 (opt_timeout c) @ ''s''), (''connect_timeout'', show_u64 (opt_connect_timeout c) @ ''s'')]"

datatype ClientError =
    ClConnection string
  | ClInvalidArgument string
  | ClNotFound string
  | ClPermissionDenied string
  | ClUnauthenticated string
  | ClFailedPrecondition string
  | ClInternal string
  | ClTimeout
  | ClStatus Status

fun ClientError_to_string :: "(Status \<Rightarrow> string) \<Rightarrow> ClientError \<Rightarrow> string" where
  "ClientError_to_string show_status (ClConnection m) = ''connection error: '' @ m"
| "ClientError_to_string show_status (ClInvalidArgument m) = ''invalid argument: '' @ m"
| "ClientError_to_string show_status (ClNotFound m) = ''not found: '' @ m"
| "ClientError_to_string show_status (ClPermissionDenied m) = ''permission denied: '' @ m"
| "ClientError_to_string show_status (ClUnauthenticated m) = ''unauthenticated: '' @ m"
| "ClientError_to_string show_status (ClFailedPrecondition m) = ''failed precondition: '' @ m"
| "ClientError_to_string show_status (ClInternal m) = ''internal error: '' @ m"
| "ClientError_to_string show_status ClTimeout = ''request timed out''"
| "ClientError_to_string show_status (ClStatus s) = ''grpc status: '' @ show_status s"

fun ClientError_from :: "Status \<Rightarrow> ClientError" where
  "ClientError_from (NotFound, m) = ClNotFound m"
| "ClientError_from (PermissionDenied, m) = ClPermissionDenied m"
| "ClientError_from (Unauthenticated, m) = ClUnauthenticated m"
| "ClientError_from (InvalidArgument, m) = ClInvalidArgument m"
| "ClientError_from (DeadlineExceeded, m) = ClTimeout"
| "ClientError_from (TonicInternal, m) = ClInternal m"
| "ClientError_from (FailedPrecondition, m) = ClFailedPrecondition m"
| "ClientError_from (Unavailable, m) = ClConnection m"
| "ClientError_from status = ClStatus status"

text \<open>
  The interceptor: without a key the request goes unchanged; with one, the header is set if it is a
  valid metadata value, which the parameter decides.
\<close>

definition ApiKeyInterceptor_call :: "(string \<Rightarrow> string option) \<Rightarrow> string option \<Rightarrow> Status + string option" where
  "ApiKeyInterceptor_call metadata_value api_key =
     (case api_key of
        None \<Rightarrow> Inr None
      | Some key \<Rightarrow>
          (case metadata_value (''Bearer '' @ key) of
             None \<Rightarrow> Inl (TonicInternal, ''invalid api key format'')
           | Some v \<Rightarrow> Inr (Some v)))"

definition ApiKeyInterceptor_fmt :: "string option \<Rightarrow> string" where
  "ApiKeyInterceptor_fmt key = debug_struct ''ApiKeyInterceptor'' [(''api_key'', redacted key)]"

section \<open>Conversions\<close>

definition client_object_to_proto :: "ObjectRef \<Rightarrow> ObjectReference" where
  "client_object_to_proto obj = \<lparr>po_object_type = object_type obj, po_object_id = object_id obj\<rparr>"

definition client_object_of_proto :: "ObjectReference \<Rightarrow> ObjectRef" where
  "client_object_of_proto obj = ObjectRef_new (po_object_type obj) (po_object_id obj)"

definition client_subject_to_proto :: "SubjectRef \<Rightarrow> SubjectReference" where
  "client_subject_to_proto subj = \<lparr>ps_subject_type = subject_type subj, ps_subject_id = subject_id subj,
     ps_subject_relation = subject_relation subj\<rparr>"

definition client_subject_of_proto :: "SubjectReference \<Rightarrow> SubjectRef" where
  "client_subject_of_proto subj =
     (case ps_subject_relation subj of
        Some rel \<Rightarrow> userset (ps_subject_type subj) (ps_subject_id subj) rel
      | None \<Rightarrow> direct (ps_subject_type subj) (ps_subject_id subj))"

definition domain_filter_to_proto :: "TupleFilter \<Rightarrow> RelationshipFilter" where
  "domain_filter_to_proto f = \<lparr>pf_object_type = f_object_type f, pf_object_id = f_object_id f,
     pf_relation = f_relation f, pf_subject_type = f_subject_type f, pf_subject_id = f_subject_id f\<rparr>"

text \<open>The client's \<open>Consistency\<close> has the constructors of the service's.\<close>

fun consistency_to_proto :: "Consistency \<Rightarrow> ProtoConsistency" where
  "consistency_to_proto FullConsistency = \<lparr>requirement = Some (RequireFull True)\<rparr>"
| "consistency_to_proto MinimizeLatency = \<lparr>requirement = Some (RequireMinimizeLatency True)\<rparr>"
| "consistency_to_proto (AtLeastAsFresh token) =
     \<lparr>requirement = Some (RequireAtLeastAsFresh \<lparr>zt_token = show_u64 (value_of token)\<rparr>)\<rparr>"
| "consistency_to_proto (AtExactSnapshot token) =
     \<lparr>requirement = Some (RequireAtExactSnapshot \<lparr>zt_token = show_u64 (value_of token)\<rparr>)\<rparr>"

definition client_token :: "ZedToken \<Rightarrow> SnapshotToken option" where
  "client_token token = map_option SnapshotToken (parse_u64 (zt_token token))"

section \<open>Operations\<close>

record 's Channel =
  ch_check :: "string option \<Rightarrow> ProtoCheckRequest \<Rightarrow> 's \<Rightarrow> (Status + ProtoCheckResponse) \<times> 's"
  ch_expand :: "string option \<Rightarrow> ProtoExpandRequest \<Rightarrow> 's \<Rightarrow> (Status + ProtoExpandResponse) \<times> 's"
  ch_resources :: "string option \<Rightarrow> ProtoResourcesRequest \<Rightarrow> 's \<Rightarrow> (Status + (Status + ProtoResourcesResponse) list) \<times> 's"
  ch_subjects :: "string option \<Rightarrow> ProtoSubjectsRequest \<Rightarrow> 's \<Rightarrow> (Status + (Status + ProtoSubjectsResponse) list) \<times> 's"
  ch_write :: "string option \<Rightarrow> ProtoUpdate list \<Rightarrow> 's \<Rightarrow> (Status + ZedToken option) \<times> 's"
  ch_read :: "string option \<Rightarrow> ProtoReadRequest \<Rightarrow> 's \<Rightarrow> (Status + ProtoReadResponse) \<times> 's"
  ch_write_schema :: "string option \<Rightarrow> ProtoWriteSchemaRequest \<Rightarrow> 's \<Rightarrow> (Status + ProtoWriteSchemaResponse) \<times> 's"
  ch_read_schema :: "string option \<Rightarrow> 's \<Rightarrow> (Status + string) \<times> 's"

record 's KraalzibarClient =
  cl_channel :: "'s Channel"
  cl_api_key :: "string option"
  cl_metadata_value :: "string \<Rightarrow> string option"

definition from_channel :: "(string \<Rightarrow> string option) \<Rightarrow> 's Channel \<Rightarrow> ClientOptions \<Rightarrow> 's KraalzibarClient" where
  "from_channel mv channel options = \<lparr>cl_channel = channel, cl_api_key = opt_api_key options, cl_metadata_value = mv\<rparr>"

text \<open>A call through the interceptor; \<open>?\<close> turns a status into a client error.\<close>

definition client_call ::
  "'s KraalzibarClient \<Rightarrow> (string option \<Rightarrow> 's \<Rightarrow> (Status + 'r) \<times> 's) \<Rightarrow> ('r \<Rightarrow> ClientError + 'a) \<Rightarrow> 's \<Rightarrow>
     (ClientError + 'a) \<times> 's" where
  "client_call cl method read_response s =
     (case ApiKeyInterceptor_call (cl_metadata_value cl) (cl_api_key cl) of
        Inl status \<Rightarrow> (Inl (ClientError_from status), s)
      | Inr authorization \<Rightarrow>
          (case method authorization s of
             (Inl status, s) \<Rightarrow> (Inl (ClientError_from status), s)
           | (Inr response, s) \<Rightarrow> (read_response response, s)))"

record ClientCheckRequest =
  ccr_resource :: ObjectRef
  ccr_permission :: string
  ccr_subject :: SubjectRef
  ccr_consistency :: Consistency

record ClientCheckResponse =
  ccr_allowed :: bool
  ccr_checked_at :: "SnapshotToken option"

definition check_message :: "ClientCheckRequest \<Rightarrow> ProtoCheckRequest" where
  "check_message request = \<lparr>pc_consistency = Some (consistency_to_proto (ccr_consistency request)),
     pc_resource = Some (client_object_to_proto (ccr_resource request)), pc_permission = ccr_permission request,
     pc_subject = Some (client_subject_to_proto (ccr_subject request))\<rparr>"

definition client_check_permission ::
  "'s KraalzibarClient \<Rightarrow> ClientCheckRequest \<Rightarrow> 's \<Rightarrow> (ClientError + ClientCheckResponse) \<times> 's" where
  "client_check_permission cl request =
     client_call cl (\<lambda>auth. ch_check (cl_channel cl) auth (check_message request)) (\<lambda>response.
       Inr \<lparr>ccr_allowed = (pc_permissionship response = PERMISSIONSHIP_HAS_PERMISSION),
            ccr_checked_at = Option.bind (pc_checked_at response) client_token\<rparr>)"

datatype RelationshipOperation = OpTouch | OpDelete

record ClientUpdate =
  cu_operation :: RelationshipOperation
  cu_object :: ObjectRef
  cu_relation :: string
  cu_subject :: SubjectRef

definition update_message :: "ClientUpdate \<Rightarrow> ProtoUpdate" where
  "update_message u = \<lparr>pu_operation = (case cu_operation u of OpTouch \<Rightarrow> OPERATION_TOUCH | OpDelete \<Rightarrow> OPERATION_DELETE),
     pu_relationship = Some \<lparr>pr_object = Some (client_object_to_proto (cu_object u)), pr_relation = cu_relation u,
       pr_subject = Some (client_subject_to_proto (cu_subject u))\<rparr>\<rparr>"

definition client_write_relationships ::
  "'s KraalzibarClient \<Rightarrow> ClientUpdate list \<Rightarrow> 's \<Rightarrow> (ClientError + SnapshotToken option) \<times> 's" where
  "client_write_relationships cl updates =
     client_call cl (\<lambda>auth. ch_write (cl_channel cl) auth (map update_message updates)) (\<lambda>written_at.
       Inr (Option.bind written_at client_token))"

record ClientReadRequest =
  crr_filter :: TupleFilter
  crr_consistency :: Consistency
  crr_limit :: "nat option"

record ClientRelationship =
  crel_object :: ObjectRef
  crel_relation :: string
  crel_subject :: SubjectRef

text \<open>\<open>limit.unwrap_or(0) as u32\<close>: the cast keeps the low 32 bits.\<close>

definition limit_message :: "nat option \<Rightarrow> 32 word" where
  "limit_message limit = of_nat (case limit of Some n \<Rightarrow> n | None \<Rightarrow> 0)"

definition read_message :: "ClientReadRequest \<Rightarrow> ProtoReadRequest" where
  "read_message request = \<lparr>prr_consistency = Some (consistency_to_proto (crr_consistency request)),
     prr_filter = Some (domain_filter_to_proto (crr_filter request)), prr_optional_limit = limit_message (crr_limit request)\<rparr>"

definition client_relationship :: "Relationship \<Rightarrow> ClientRelationship option" where
  "client_relationship rel =
     Option.bind (map_option client_object_of_proto (pr_object rel)) (\<lambda>object.
     Option.bind (map_option client_subject_of_proto (pr_subject rel)) (\<lambda>subject.
       Some \<lparr>crel_object = object, crel_relation = pr_relation rel, crel_subject = subject\<rparr>))"

definition client_read_relationships ::
  "'s KraalzibarClient \<Rightarrow> ClientReadRequest \<Rightarrow> 's \<Rightarrow> (ClientError + ClientRelationship list) \<times> 's" where
  "client_read_relationships cl request =
     client_call cl (\<lambda>auth. ch_read (cl_channel cl) auth (read_message request)) (\<lambda>response.
       Inr (List.map_filter client_relationship (prr_relationships response)))"

record ClientResourcesRequest =
  clr_resource_type :: string
  clr_permission :: string
  clr_subject :: SubjectRef
  clr_consistency :: Consistency
  clr_limit :: "nat option"

definition resources_message :: "ClientResourcesRequest \<Rightarrow> ProtoResourcesRequest" where
  "resources_message request = \<lparr>plr_consistency = Some (consistency_to_proto (clr_consistency request)),
     plr_resource_type = clr_resource_type request, plr_permission = clr_permission request,
     plr_subject = Some (client_subject_to_proto (clr_subject request)), plr_optional_limit = limit_message (clr_limit request)\<rparr>"

text \<open>The loop over a response stream stops at the first error.\<close>

fun collect_stream :: "('r \<Rightarrow> 'a list) \<Rightarrow> (Status + 'r) list \<Rightarrow> ClientError + 'a list" where
  "collect_stream f [] = Inr []"
| "collect_stream f (Inl status # rest) = Inl (ClientError_from status)"
| "collect_stream f (Inr r # rest) = and_then (collect_stream f rest) (\<lambda>xs. Inr (f r @ xs))"

definition client_lookup_resources ::
  "'s KraalzibarClient \<Rightarrow> ClientResourcesRequest \<Rightarrow> 's \<Rightarrow> (ClientError + string list) \<times> 's" where
  "client_lookup_resources cl request =
     client_call cl (\<lambda>auth. ch_resources (cl_channel cl) auth (resources_message request))
       (collect_stream (\<lambda>r. [plr_resource_id r]))"

record ClientSubjectsRequest =
  cls_resource :: ObjectRef
  cls_permission :: string
  cls_subject_type :: string
  cls_consistency :: Consistency

definition subjects_message :: "ClientSubjectsRequest \<Rightarrow> ProtoSubjectsRequest" where
  "subjects_message request = \<lparr>pls_consistency = Some (consistency_to_proto (cls_consistency request)),
     pls_resource = Some (client_object_to_proto (cls_resource request)), pls_permission = cls_permission request,
     pls_subject_type = cls_subject_type request\<rparr>"

definition client_lookup_subjects ::
  "'s KraalzibarClient \<Rightarrow> ClientSubjectsRequest \<Rightarrow> 's \<Rightarrow> (ClientError + SubjectRef list) \<times> 's" where
  "client_lookup_subjects cl request =
     client_call cl (\<lambda>auth. ch_subjects (cl_channel cl) auth (subjects_message request))
       (collect_stream (\<lambda>r. case pls_subject r of Some s \<Rightarrow> [client_subject_of_proto s] | None \<Rightarrow> []))"

definition client_write_schema ::
  "'s KraalzibarClient \<Rightarrow> string \<Rightarrow> bool \<Rightarrow> 's \<Rightarrow> (ClientError + SnapshotToken option \<times> bool) \<times> 's" where
  "client_write_schema cl schema force =
     client_call cl (\<lambda>auth. ch_write_schema (cl_channel cl) auth \<lparr>pws_schema = schema, pws_force = force\<rparr>) (\<lambda>response.
       Inr (Option.bind (pws_written_at response) client_token, pws_breaking_changes_overridden response))"

definition client_read_schema :: "'s KraalzibarClient \<Rightarrow> 's \<Rightarrow> (ClientError + string option) \<times> 's" where
  "client_read_schema cl =
     client_call cl (\<lambda>auth. ch_read_schema (cl_channel cl) auth) (\<lambda>schema.
       Inr (if schema = [] then None else Some schema))"

record ClientExpandRequest =
  cex_resource :: ObjectRef
  cex_permission :: string
  cex_consistency :: Consistency

definition client_expand_permission_tree ::
  "'s KraalzibarClient \<Rightarrow> ClientExpandRequest \<Rightarrow> 's \<Rightarrow>
     (ClientError + SnapshotToken option \<times> PermissionExpansionTree option) \<times> 's" where
  "client_expand_permission_tree cl request =
     client_call cl (\<lambda>auth. ch_expand (cl_channel cl) auth
         \<lparr>pe_consistency = Some (consistency_to_proto (cex_consistency request)),
          pe_resource = Some (client_object_to_proto (cex_resource request)), pe_permission = cex_permission request\<rparr>)
       (\<lambda>response. Inr (Option.bind (pe_expanded_at response) client_token, pe_tree response))"

section \<open>A channel to the modelled server\<close>

text \<open>The streams of the server carry no error of their own.\<close>

definition streamed :: "(Status + 'r list) \<times> 's \<Rightarrow> (Status + (Status + 'r) list) \<times> 's" where
  "streamed r = (case r of (Inl e, s) \<Rightarrow> (Inl e, s) | (Inr xs, s) \<Rightarrow> (Inr (map Inr xs), s))"

definition server_channel ::
  "'h Argon2 \<Rightarrow> 'x F64 \<Rightarrow> ('f, 'sc, 'cc) Env \<Rightarrow> KeyQuery AuthState \<Rightarrow> 'x \<Rightarrow> ('f, 'sc, 'cc) AuthzService Channel" where
  "server_channel A F env st el = \<lparr>
     ch_check = (\<lambda>auth m. intercepted A st auth (\<lambda>ext. grpc_check_permission F el env ext m)),
     ch_expand = (\<lambda>auth m. intercepted A st auth (\<lambda>ext. grpc_expand_permission_tree F el env ext m)),
     ch_resources = (\<lambda>auth m svc. streamed (intercepted A st auth (\<lambda>ext. grpc_lookup_resources F el env ext m) svc)),
     ch_subjects = (\<lambda>auth m svc. streamed (intercepted A st auth (\<lambda>ext. grpc_lookup_subjects F el env ext m) svc)),
     ch_write = (\<lambda>auth us. intercepted A st auth (\<lambda>ext. grpc_write_relationships F el env ext us)),
     ch_read = (\<lambda>auth m. intercepted A st auth (\<lambda>ext. grpc_read_relationships F el env ext m)),
     ch_write_schema = (\<lambda>auth m. intercepted A st auth (\<lambda>ext. grpc_write_schema F el env ext m)),
     ch_read_schema = (\<lambda>auth. intercepted A st auth (\<lambda>ext. grpc_read_schema F el env ext))\<rparr>"

end
