(* ===== verification/Client_Correct.thy ===== *)
theory Client_Correct
  imports Client
begin

text \<open>
  End to end: what a program that uses the client library gets from the server, through the
  conversions on both sides, the authentication and the service; and that the two front ends of the
  server give the same answers.
\<close>

section \<open>Round trips of the conversions\<close>

lemma consistency_round_trip [simp]: "proto_consistency_to_domain (Some (consistency_to_proto c)) = Inr c"
proof (cases c)
  case (AtLeastAsFresh tok)
  then show ?thesis by (cases tok) (simp add: proto_consistency_to_domain_def zed_token_to_snapshot_def)
next
  case (AtExactSnapshot tok)
  then show ?thesis by (cases tok) (simp add: proto_consistency_to_domain_def zed_token_to_snapshot_def)
qed (simp_all add: proto_consistency_to_domain_def)

lemma token_round_trips [simp]: "Option.bind (snapshot_to_zed_token s) client_token = s"
  by (cases s) (simp_all add: snapshot_to_zed_token_def client_token_def)

lemma object_round_trip [simp]:
  "client_object_of_proto (domain_object_to_proto ob) = ob" "proto_object_to_domain (client_object_to_proto ob) = ob"
  by (simp_all add: client_object_of_proto_def domain_object_to_proto_def proto_object_to_domain_def
      client_object_to_proto_def ObjectRef_new_def)

lemma subject_round_trip [simp]:
  "client_subject_of_proto (domain_subject_to_proto s) = s" "proto_subject_to_domain (client_subject_to_proto s) = s"
  by (cases s; simp add: client_subject_of_proto_def domain_subject_to_proto_def proto_subject_to_domain_def
      client_subject_to_proto_def direct_def userset_def split: option.splits)+

lemma sent_fields [simp]:
  "po_object_type (client_object_to_proto ob) = object_type ob" "po_object_id (client_object_to_proto ob) = object_id ob"
  "ps_subject_type (client_subject_to_proto s) = subject_type s" "ps_subject_id (client_subject_to_proto s) = subject_id s"
  by (simp_all add: client_object_to_proto_def client_subject_to_proto_def)

lemma tuple_received [simp]:
  "client_relationship (domain_tuple_to_proto t) =
     Some \<lparr>crel_object = tup_object t, crel_relation = tup_relation t, crel_subject = tup_subject t\<rparr>"
  by (simp add: client_relationship_def domain_tuple_to_proto_def)

text \<open>What the server makes of a batch the client sends.\<close>

definition client_writes :: "ClientUpdate list \<Rightarrow> TupleWrite list" where
  "client_writes us = map (\<lambda>u. TupleWrite_new (cu_object u) (cu_relation u) (cu_subject u))
     (filter (\<lambda>u. cu_operation u = OpTouch) us)"

definition client_deletes :: "ClientUpdate list \<Rightarrow> TupleFilter list" where
  "client_deletes us = map (\<lambda>u. \<lparr>f_object_type = Some (object_type (cu_object u)), f_object_id = Some (object_id (cu_object u)),
       f_relation = Some (cu_relation u), f_subject_type = Some (subject_type (cu_subject u)),
       f_subject_id = Some (subject_id (cu_subject u)), f_subject_relation = None\<rparr>)
     (filter (\<lambda>u. cu_operation u = OpDelete) us)"

lemma updates_received:
  "grpc_collect_updates ws ds (map update_message us) = Inr (ws @ client_writes us, ds @ client_deletes us)"
proof (induction us arbitrary: ws ds)
  case (Cons u us)
  then show ?case
    by (cases "cu_operation u")
      (simp_all add: client_writes_def client_deletes_def update_message_def OPERATION_TOUCH_def OPERATION_DELETE_def
        proto_relationship_to_write_def grpc_delete_filter_def proto_filter_to_domain_def)
qed (simp add: client_writes_def client_deletes_def)

section \<open>The client and the server\<close>

text \<open>A client whose key the server accepts for a tenant.\<close>

definition accepted ::
  "'h Argon2 \<Rightarrow> KeyQuery AuthState \<Rightarrow> (string \<Rightarrow> string option) \<Rightarrow> ClientOptions \<Rightarrow> TenantId \<Rightarrow> bool" where
  "accepted A st mv opts t \<longleftrightarrow> (\<exists>auth. ApiKeyInterceptor_call mv (opt_api_key opts) = Inr auth \<and>
     fst (grpc_auth_interceptor A st auth) = Inr t)"

lemma acceptedE:
  assumes "accepted A st mv opts t"
  obtains auth evs where "ApiKeyInterceptor_call mv (opt_api_key opts) = Inr auth"
    "grpc_auth_interceptor A st auth = (Inr t, evs)"
proof -
  from assms obtain auth where a: "ApiKeyInterceptor_call mv (opt_api_key opts) = Inr auth"
    "fst (grpc_auth_interceptor A st auth) = Inr t" by (auto simp: accepted_def)
  obtain d evs where "grpc_auth_interceptor A st auth = (d, evs)" by fastforce
  with a that show thesis by simp
qed

lemma client_call_intercepted:
  assumes "ApiKeyInterceptor_call mv (opt_api_key opts) = Inr auth" "grpc_auth_interceptor A st auth = (Inr t, evs)"
  shows "client_call (from_channel mv ch opts) (\<lambda>auth. intercepted A st auth method) rd svc =
    (case method (Some t) (fold emit evs svc) of
       (Inl status, s) \<Rightarrow> (Inl (ClientError_from status), s) | (Inr response, s) \<Rightarrow> (rd response, s))"
  using assms by (simp add: client_call_def from_channel_def intercepted_def)

lemma server_channel_sel [simp]:
  "ch_check (cl_channel (from_channel mv (server_channel A F env st el) opts)) =
     (\<lambda>auth m. intercepted A st auth (\<lambda>ext. grpc_check_permission F el env ext m))"
  "ch_write (cl_channel (from_channel mv (server_channel A F env st el) opts)) =
     (\<lambda>auth us. intercepted A st auth (\<lambda>ext. grpc_write_relationships F el env ext us))"
  "ch_read (cl_channel (from_channel mv (server_channel A F env st el) opts)) =
     (\<lambda>auth m. intercepted A st auth (\<lambda>ext. grpc_read_relationships F el env ext m))"
  by (simp_all add: from_channel_def server_channel_def)

definition check_input_of :: "ClientCheckRequest \<Rightarrow> CheckPermissionInput" where
  "check_input_of req = \<lparr>cpi_object_type = object_type (ccr_resource req), cpi_object_id = object_id (ccr_resource req),
     cpi_permission = ccr_permission req, cpi_subject_type = subject_type (ccr_subject req),
     cpi_subject_id = subject_id (ccr_subject req), cpi_consistency = ccr_consistency req\<rparr>"

lemma check_received: "grpc_check_input (Some t) (check_message req) = Inr (t, check_input_of req)"
  by (simp add: grpc_check_input_def check_message_def check_input_of_def)


definition demo_options :: ClientOptions where
  "demo_options = ClientOptions_default\<lparr>opt_api_key := Some ''kraalzibar_abc_s3_cret''\<rparr>"

lemma demo_accepted: "accepted demo_argon (with_repository demo_keys) Some demo_options demo_tenant"
proof -
  have "grpc_auth_interceptor demo_argon (with_repository demo_keys) (Some ''Bearer kraalzibar_abc_s3_cret'') =
      (Inr demo_tenant, [AuthSuccess demo_tenant ''abc''])" by code_simp
  then show ?thesis
    by (simp add: accepted_def ApiKeyInterceptor_call_def demo_options_def)
qed

definition demo_client :: "DemoService KraalzibarClient" where
  "demo_client = from_channel Some (server_channel demo_argon demo_f64 demo_env (with_repository demo_keys) 3) demo_options"


section \<open>Writing and reading through the client\<close>

lemma write_received:
  "grpc_write_input (Some t) (map update_message us) = Inr (t, client_writes us, client_deletes us)"
  by (simp add: grpc_write_input_def updates_received)

lemma client_deletes_fields: "list_all has_any_field (client_deletes us)"
  by (auto simp: client_deletes_def list_all_iff has_any_field_def)

definition server_limit :: "nat option \<Rightarrow> nat" where
  "server_limit limit = (case limit_of (limit_message limit) of Some l \<Rightarrow> l | None \<Rightarrow> 1000)"

lemma read_received:
  "grpc_read_input (Some t) (read_message req) =
     Inr (t, (crr_filter req)\<lparr>f_subject_relation := None\<rparr>, crr_consistency req, Some (server_limit (crr_limit req)))"
  by (cases "crr_filter req")
    (simp add: grpc_read_input_def read_message_def domain_filter_to_proto_def proto_filter_to_domain_def
      server_limit_def Let_def split: option.splits)

definition client_tuple :: "Tuple \<Rightarrow> ClientRelationship" where
  "client_tuple t = \<lparr>crel_object = tup_object t, crel_relation = tup_relation t, crel_subject = tup_subject t\<rparr>"

lemma map_filter_received: "List.map_filter client_relationship (map domain_tuple_to_proto ts) = map client_tuple ts"
  by (induction ts) (simp_all add: client_tuple_def)


definition demo_updates :: "ClientUpdate list" where
  "demo_updates = [\<lparr>cu_operation = OpTouch, cu_object = ObjectRef_new ''doc'' ''1'', cu_relation = ''owner'',
     cu_subject = direct ''user'' ''bob''\<rparr>]"


text \<open>
  The limit of the client is a \<open>usize\<close> and the limit of the message 32 bits wide with zero for none: a
  client limit of zero, or of a multiple of \<open>2\<^sup>3\<^sup>2\<close>, asks for the server's default of 1000.
\<close>

lemma client_limit_wraps: "server_limit (Some (n * 2 ^ 32)) = 1000" "server_limit (Some 0) = 1000"
proof -
  have "(of_nat (n * 2 ^ 32) :: 32 word) = 0" by (simp only: word_of_nat_eq_0_iff) simp
  then show "server_limit (Some (n * 2 ^ 32)) = 1000" by (simp add: server_limit_def limit_message_def limit_of_def)
  show "server_limit (Some 0) = 1000" by (simp add: server_limit_def limit_message_def limit_of_def)
qed

section \<open>The two front ends\<close>

text \<open>The HTTP status that stands for a gRPC code.\<close>

fun http_status :: "TonicCode \<Rightarrow> nat" where
  "http_status NotFound = 404"
| "http_status ResourceExhausted = 422"
| "http_status InvalidArgument = 400"
| "http_status FailedPrecondition = 412"
| "http_status Unauthenticated = 401"
| "http_status Unimplemented = 501"
| "http_status _ = 500"

lemma api_errors_agree:
  "api_error_to_response e = error_response (http_status (fst (api_error_to_status e))) (snd (api_error_to_status e))"
  by (cases e rule: api_error_to_response.cases) simp_all



text \<open>
  A delete over gRPC narrows its filter only by what the message carries: an update without an object
  or without a subject deletes the relation's tuples of every object or of every subject, and the
  relation of the subject is never compared.
\<close>

lemma grpc_delete_broad:
  "matches (grpc_delete_filter r) tup \<longleftrightarrow>
     pred_option (\<lambda>ob. tup_object tup = proto_object_to_domain ob) (pr_object r) \<and> tup_relation tup = pr_relation r \<and>
     pred_option (\<lambda>s. subject_type (tup_subject tup) = ps_subject_type s \<and> subject_id (tup_subject tup) = ps_subject_id s)
       (pr_subject r)"
  by (cases "pr_object r"; cases "pr_subject r")
    (auto simp: matches_iff grpc_delete_filter_def proto_filter_to_domain_def proto_object_to_domain_def ObjectRef_expand)

end
