(* ===== verification/Schema_Round_Trip.thy ===== *)
theory Schema_Round_Trip
  imports Schema_Parser_Correct
begin

text \<open>
  The grammar is complete for the schemas the parser can return: every well-formed schema has a text,
  printed here in a canonical layout, that \<open>parse_schema\<close> reads back as that schema.
\<close>

section \<open>A canonical text of a schema\<close>

definition show_ref :: "SubjectTypeRef \<Rightarrow> string" where
  "show_ref s = str_type_name s @ (case str_relation s of None \<Rightarrow> [] | Some r \<Rightarrow> ''#'' @ r) @ '' ''"

definition show_alternative :: "SubjectTypeRef \<Rightarrow> string" where
  "show_alternative s = ''| '' @ show_ref s"

definition show_relation :: "RelationDef \<Rightarrow> string" where
  "show_relation r = ''relation '' @ rel_name r @ '': '' @
     (case rel_subject_types r of [] \<Rightarrow> [] | s # ss \<Rightarrow> show_ref s @ concat (map show_alternative ss))"

fun show_term :: "RewriteRule \<Rightarrow> string" where
  "show_term (RThis n) = n @ '' ''"
| "show_term (RArrow a b) = a @ ''->'' @ b @ '' ''"
| "show_term _ = []"

definition show_op :: "string \<Rightarrow> RewriteRule \<Rightarrow> string" where
  "show_op op t = op @ '' '' @ show_term t"

fun show_rule :: "RewriteRule \<Rightarrow> string" where
  "show_rule (RUnion (t # ts)) = show_term t @ concat (map (show_op ''+'') ts)"
| "show_rule (RIntersection (t # ts)) = show_term t @ concat (map (show_op ''&'') ts)"
| "show_rule (RExclusion a b) = show_term a @ concat (map (show_op ''-'') [b])"
| "show_rule t = show_term t"

definition show_permission :: "PermissionDef \<Rightarrow> string" where
  "show_permission p = ''permission '' @ perm_name p @ '' = '' @ show_rule (perm_rule p)"

definition show_type :: "TypeDefinition \<Rightarrow> string" where
  "show_type td = ''definition '' @ type_name td @ '' { '' @
     concat (map show_relation (relations td) @ map show_permission (permissions td)) @ ''} ''"

definition show_schema :: "Schema \<Rightarrow> string" where
  "show_schema s = concat (map show_type (types s))"

section \<open>Reading what was printed\<close>

definition stops :: "string \<Rightarrow> bool" where
  "stops r = (case r of [] \<Rightarrow> True | c # _ \<Rightarrow> \<not> is_ident_char c)"

lemma stops_simps [simp]:
  "stops []" "stops (CHR '' '' # r)" "stops (CHR '':'' # r)" "stops (CHR ''#'' # r)" "stops (CHR ''-'' # r)"
  by (simp_all add: stops_def is_ident_char_def is_ascii_alpha_def is_digit_def)

lemma g_identifier_print:
  assumes "valid_ident n" "stops r"
  shows "g_identifier (n @ r) = Some (Pair R_identifier n [], r)"
proof -
  obtain c cs where n: "n = c # cs" and c: "is_ascii_alpha c" and cs: "\<forall>x\<in>set cs. is_ident_char x"
    using assms(1) by (auto simp: valid_ident_def list_all_iff split: list.splits)
  have "takeWhile is_ident_char (cs @ r) = cs" "dropWhile is_ident_char (cs @ r) = r"
    using cs assms(2) by (auto simp: stops_def takeWhile_append dropWhile_append3 split: list.splits)
  with n c show ?thesis by (simp add: g_identifier_def)
qed

lemma skip_space [simp]: "skip (CHR '' '' # s) = skip s"
  by (simp add: is_whitespace_def)

declare skip.simps(2) [simp del]

lemma skip_idem [simp]: "skip (skip s) = skip s" "skip (skip_comment s) = skip_comment s"
proof (induction s and s rule: skip_skip_comment.induct)
  case (2 c cs)
  then show ?case by (auto simp: skip.simps split: list.splits)
qed auto

lemma alpha_not_space: "is_ascii_alpha c \<Longrightarrow> \<not> is_whitespace c \<and> c \<noteq> CHR ''/''"
  by (auto simp: is_ascii_alpha_def is_whitespace_def)

lemma skip_ident [simp]: "valid_ident n \<Longrightarrow> skip (n @ r) = n @ r"
  by (auto simp: valid_ident_def alpha_not_space skip.simps split: list.splits)

lemma skip_token [simp]:
  "skip (CHR ''#'' # s) = CHR ''#'' # s" "skip (CHR ''|'' # s) = CHR ''|'' # s" "skip (CHR ''+'' # s) = CHR ''+'' # s"
  "skip (CHR ''&'' # s) = CHR ''&'' # s" "skip (CHR ''-'' # s) = CHR ''-'' # s" "skip (CHR '':'' # s) = CHR '':'' # s"
  "skip (CHR ''='' # s) = CHR ''='' # s" "skip (CHR ''{'' # s) = CHR ''{'' # s" "skip (CHR ''}'' # s) = CHR ''}'' # s"
  "skip (CHR ''r'' # s) = CHR ''r'' # s" "skip (CHR ''p'' # s) = CHR ''p'' # s" "skip (CHR ''d'' # s) = CHR ''d'' # s"
  by (simp_all add: skip.simps is_whitespace_def)

text \<open>The repetition, on inputs that differ in white space only.\<close>

definition consumes :: "(string \<Rightarrow> (Pair list \<times> string) option) \<Rightarrow> bool" where
  "consumes q \<longleftrightarrow> (\<forall>s ps t. q s = Some (ps, t) \<longrightarrow> length t < length s)"

lemma rules_consume: "consumes g_alternative" "consumes g_op_term" "consumes g_body_item" "consumes g_definition_item"
  by (simp_all add: consumes_def g_consumes)

lemma consumes_skip: "consumes q \<Longrightarrow> q (skip s) = Some (ps, t) \<Longrightarrow> length t < length (skip s) \<and> length t < length s"
  using skip_length(1) [of s] by (fastforce simp: consumes_def)

lemma rep0_skip:
  assumes q: "consumes q" and e: "skip s = skip s'"
  shows "fst (rep0 (\<lambda>x. q (skip x)) s) = fst (rep0 (\<lambda>x. q (skip x)) s') \<and>
    skip (snd (rep0 (\<lambda>x. q (skip x)) s)) = skip (snd (rep0 (\<lambda>x. q (skip x)) s'))"
proof (cases "q (skip s)")
  case None
  with e show ?thesis by (simp add: rep0.simps [of _ s] rep0.simps [of _ s'])
next
  case (Some x)
  obtain ps t where x: "x = (ps, t)" by fastforce
  with Some consumes_skip [OF q, of s] consumes_skip [OF q, of s'] e
  have "length t < length s" "length t < length s'" by auto
  with Some x e show ?thesis by (simp add: rep0.simps [of _ s] rep0.simps [of _ s'] split_beta)
qed

lemma rep_rep0:
  assumes q: "consumes q"
  shows "fst (rep q (skip s)) = fst (rep0 (\<lambda>x. q (skip x)) s) \<and>
    skip (snd (rep q (skip s))) = skip (snd (rep0 (\<lambda>x. q (skip x)) s))"
proof (cases "q (skip s)")
  case None
  then show ?thesis by (simp add: rep_def rep0.simps [of _ s])
next
  case (Some x)
  obtain ps t where x: "x = (ps, t)" by fastforce
  with Some consumes_skip [OF q, of s] have "length t < length s" by auto
  with Some x show ?thesis by (simp add: rep_def rep0.simps [of _ s] split_beta)
qed

text \<open>
  A repetition reads the printed list of items: each item is read up to white space before what
  follows, and the text after the list starts no further item.
\<close>

lemma rep_items:
  assumes q: "consumes q"
    and item: "\<And>x r. x \<in> set xs \<Longrightarrow> follows r \<Longrightarrow> \<exists>ps r'. q (skip (pr x @ r)) = Some (ps, r') \<and> skip r' = skip r \<and> T x ps"
    and pr: "\<And>x r. x \<in> set xs \<Longrightarrow> follows r \<Longrightarrow> follows (pr x @ r)" and r: "follows r" and stop: "q (skip r) = None"
  shows "\<exists>pss. fst (rep q (skip (concat (map pr xs) @ r))) = concat pss \<and> list_all2 T xs pss \<and>
    skip (snd (rep q (skip (concat (map pr xs) @ r)))) = skip r"
proof -
  let ?q = "\<lambda>x. q (skip x)"
  have f: "follows (concat (map pr ys) @ r)" if "set ys \<subseteq> set xs" for ys
    using that by (induction ys) (auto simp: r pr)
  have "\<exists>pss. fst (rep0 ?q (concat (map pr ys) @ r)) = concat pss \<and> list_all2 T ys pss \<and>
      skip (snd (rep0 ?q (concat (map pr ys) @ r))) = skip r" if "set ys \<subseteq> set xs" for ys
    using that
  proof (induction ys)
    case Nil
    from stop show ?case by (simp add: rep0.simps [of _ r])
  next
    case (Cons y ys)
    let ?s = "concat (map pr ys) @ r"
    from Cons.prems have y: "y \<in> set xs" and ys: "set ys \<subseteq> set xs" by auto
    from item [OF y f [OF ys]] obtain ps r' where i: "q (skip (pr y @ ?s)) = Some (ps, r')" "skip r' = skip ?s" "T y ps" by blast
    from consumes_skip [OF q i(1)] i have "rep0 ?q (pr y @ ?s) = (ps @ fst (rep0 ?q r'), snd (rep0 ?q r'))"
      by (simp add: rep0.simps [of _ "pr y @ ?s"] split_beta)
    moreover from rep0_skip [OF q i(2)] have "fst (rep0 ?q r') = fst (rep0 ?q ?s)"
        "skip (snd (rep0 ?q r')) = skip (snd (rep0 ?q ?s))" by auto
    moreover from Cons.IH [OF ys] obtain pss where "fst (rep0 ?q ?s) = concat pss" "list_all2 T ys pss"
      "skip (snd (rep0 ?q ?s)) = skip r" by blast
    ultimately show ?case using i(3) by (intro exI [of _ "ps # pss"]) simp
  qed
  from this [OF subset_refl] rep_rep0 [OF q, of "concat (map pr xs) @ r"] show ?thesis by auto
qed

section \<open>Relations\<close>

text \<open>A rest before which a reference ends: it continues with no relation of the subject.\<close>

definition no_hash :: "string \<Rightarrow> bool" where
  "no_hash r \<longleftrightarrow> strip_prefix ''#'' (skip r) = None"

lemma ref_print:
  assumes "wf_subject_type s" "no_hash r"
  shows "\<exists>p r'. g_subject_type_ref (show_ref s @ r) = Some (p, r') \<and> skip r' = skip r \<and> parse_subject_type_ref p = Inr s"
proof (cases "str_relation s")
  case None
  have "g_identifier (str_type_name s @ CHR '' '' # r) = Some (Pair R_identifier (str_type_name s) [], CHR '' '' # r)"
    using assms(1) by (intro g_identifier_print) (simp_all add: wf_subject_type_def)
  with None assms(2) show ?thesis
    by (cases s) (simp add: g_subject_type_ref_def show_ref_def no_hash_def parse_subject_type_ref_def Let_def)
next
  case (Some rel)
  have "g_identifier (str_type_name s @ CHR ''#'' # rel @ CHR '' '' # r) =
      Some (Pair R_identifier (str_type_name s) [], CHR ''#'' # rel @ CHR '' '' # r)"
    using assms(1) by (intro g_identifier_print) (simp_all add: wf_subject_type_def)
  moreover have v: "valid_ident rel" using assms(1) Some by (simp add: wf_subject_type_def)
  then have "g_identifier (rel @ CHR '' '' # r) = Some (Pair R_identifier rel [], CHR '' '' # r)"
    by (intro g_identifier_print) simp_all
  ultimately show ?thesis using Some v
    by (cases s) (simp add: g_subject_type_ref_def show_ref_def parse_subject_type_ref_def Let_def)
qed

lemma wf_ref_head: "wf_subject_type s \<Longrightarrow> skip (show_ref s @ r) = show_ref s @ r"
  by (simp add: show_ref_def wf_subject_type_def)

lemma alternative_print:
  assumes "wf_subject_type s" "no_hash r"
  shows "\<exists>ps r'. g_alternative (skip (show_alternative s @ r)) = Some (ps, r') \<and> skip r' = skip r \<and>
    (\<exists>p. ps = [p] \<and> parse_subject_type_ref p = Inr s)"
  using ref_print [OF assms] by (auto simp: show_alternative_def g_alternative_def wf_ref_head [OF assms(1)])

lemma no_hash_alternative: "no_hash (show_alternative s @ r)"
  by (simp add: no_hash_def show_alternative_def)

lemma try_map_list_all2:
  "list_all2 (\<lambda>x ps. \<exists>p. ps = [p] \<and> f p = Inr x) xs pss \<Longrightarrow> try_map f (concat pss) = Inr xs"
  by (induction rule: list_all2_induct) auto

lemma relation_print:
  assumes "wf_relation rd" "no_hash r" "strip_prefix ''|'' (skip r) = None"
  shows "\<exists>p r'. g_relation_def (show_relation rd @ r) = Some (p, r') \<and> skip r' = skip r \<and>
    as_rule p = R_relation_def \<and> parse_relation_def p = Inr rd"
proof -
  obtain s ss where ss: "rel_subject_types rd = s # ss" and v: "valid_ident (rel_name rd)" and w: "wf_subject_type s"
    "list_all wf_subject_type ss"
    using assms(1) by (cases "rel_subject_types rd") (auto simp: wf_relation_def)
  let ?t = "concat (map show_alternative ss) @ r"
  have nh: "no_hash ?t" using assms(2) no_hash_alternative by (cases ss) auto
  from ref_print [OF w(1) nh] obtain q r1 where q: "g_subject_type_ref (show_ref s @ ?t) = Some (q, r1)" "skip r1 = skip ?t"
    "parse_subject_type_ref q = Inr s" by blast
  have st: "g_alternative (skip r) = None" using assms(3) by (simp add: g_alternative_def)
  obtain pss where pss: "fst (rep g_alternative (skip ?t)) = concat pss"
      "list_all2 (\<lambda>x ps. \<exists>p. ps = [p] \<and> parse_subject_type_ref p = Inr x) ss pss"
      "skip (snd (rep g_alternative (skip ?t))) = skip r"
    using rep_items [where q = g_alternative and xs = ss and pr = show_alternative and follows = no_hash and r = r
        and T = "\<lambda>x ps. \<exists>p. ps = [p] \<and> parse_subject_type_ref p = Inr x", OF rules_consume(1)
        alternative_print no_hash_alternative assms(2) st] w(2)
    by (auto simp: list_all_iff)
  have "g_identifier (rel_name rd @ CHR '':'' # CHR '' '' # show_ref s @ ?t) =
      Some (Pair R_identifier (rel_name rd) [], CHR '':'' # CHR '' '' # show_ref s @ ?t)"
    by (rule g_identifier_print [OF v]) simp
  with q pss v wf_ref_head [OF w(1), of ?t] try_map_list_all2 [OF pss(2)] show ?thesis
    by (simp add: g_relation_def_def show_relation_def ss g_subject_type_list_def parse_relation_def_def split_beta Let_def)
qed

section \<open>Permissions\<close>

definition no_arrow :: "string \<Rightarrow> bool" where
  "no_arrow r \<longleftrightarrow> strip_prefix ''->'' (skip r) = None"

lemma term_print:
  assumes "wf_term t" "no_arrow r"
  shows "\<exists>p r'. g_permission_term (show_term t @ r) = Some (p, r') \<and> skip r' = skip r \<and> parse_permission_term p = Inr t"
proof (cases t)
  case (RThis n)
  have "g_identifier (n @ CHR '' '' # r) = Some (Pair R_identifier n [], CHR '' '' # r)"
    using assms(1) RThis by (intro g_identifier_print) simp_all
  with RThis assms(2) show ?thesis
    by (simp add: g_permission_term_def g_arrow_expr_def no_arrow_def parse_permission_term_def)
next
  case (RArrow a b)
  have "g_identifier (a @ CHR ''-'' # CHR ''>'' # b @ CHR '' '' # r) =
      Some (Pair R_identifier a [], CHR ''-'' # CHR ''>'' # b @ CHR '' '' # r)"
    "g_identifier (b @ CHR '' '' # r) = Some (Pair R_identifier b [], CHR '' '' # r)"
    using assms(1) RArrow by (auto intro!: g_identifier_print)
  with RArrow assms(1) show ?thesis
    by (simp add: g_permission_term_def g_arrow_expr_def parse_permission_term_def)
qed (use assms in simp_all)

lemma skip_term [simp]: "wf_term t \<Longrightarrow> skip (show_term t @ r) = show_term t @ r"
  by (cases t) simp_all

definition op_token :: "string \<Rightarrow> Rule \<Rightarrow> bool" where
  "op_token op R \<longleftrightarrow> (op, R) \<in> {(''+'', R_union_op), (''&'', R_intersection_op), (''-'', R_exclusion_op)}"

lemma op_print:
  assumes "op_token op R" "wf_term t" "no_arrow r"
  shows "\<exists>ps r'. g_op_term (skip (show_op op t @ r)) = Some (ps, r') \<and> skip r' = skip r \<and>
    (\<exists>p. ps = [Pair R op [], p] \<and> parse_permission_term p = Inr t)"
  using assms(1) term_print [OF assms(2,3)] assms(2)
  by (auto simp: op_token_def show_op_def g_op_term_def g_permission_op_def)

lemma no_arrow_op: "op_token op R \<Longrightarrow> no_arrow (show_op op t @ r)"
  by (auto simp: op_token_def no_arrow_def show_op_def)

lemma parse_ops_print:
  "list_all2 (\<lambda>t ps. \<exists>p. ps = [Pair R op [], p] \<and> parse_permission_term p = Inr t) ts pss \<Longrightarrow>
     parse_ops_and_terms (concat pss) = Inr (map (\<lambda>t. (R, t)) ts)"
  by (induction rule: list_all2_induct) auto

lemma expr_print:
  assumes op: "op_token op R" and t: "wf_term t" and ts: "list_all wf_term ts"
    and r: "no_arrow r" "g_permission_op (skip r) = None"
  shows "\<exists>p r'. g_permission_expr (show_term t @ concat (map (show_op op) ts) @ r) = Some (p, r') \<and> skip r' = skip r \<and>
    parse_permission_expr p = combine_ops t (map (\<lambda>t. (R, t)) ts)"
proof -
  let ?s = "concat (map (show_op op) ts) @ r"
  have "no_arrow ?s" using r(1) no_arrow_op [OF op] by (cases ts) auto
  from term_print [OF t this] obtain q r1 where q: "g_permission_term (show_term t @ ?s) = Some (q, r1)" "skip r1 = skip ?s"
    "parse_permission_term q = Inr t" by blast
  have st: "g_op_term (skip r) = None" using r(2) by (simp add: g_op_term_def)
  obtain pss where "fst (rep g_op_term (skip ?s)) = concat pss"
      "list_all2 (\<lambda>t ps. \<exists>p. ps = [Pair R op [], p] \<and> parse_permission_term p = Inr t) ts pss"
      "skip (snd (rep g_op_term (skip ?s))) = skip r"
    using rep_items [where q = g_op_term and xs = ts and pr = "show_op op" and follows = no_arrow and r = r
        and T = "\<lambda>t ps. \<exists>p. ps = [Pair R op [], p] \<and> parse_permission_term p = Inr t", OF rules_consume(2)
        op_print [OF op] no_arrow_op [OF op] r(1) st] ts
    by (auto simp: list_all_iff)
  with q show ?thesis
    by (simp add: g_permission_expr_def parse_permission_expr_def split_beta Let_def parse_ops_print)
qed

lemma rule_print:
  assumes "wf_rule rule" and r: "no_arrow r" "g_permission_op (skip r) = None"
  shows "\<exists>p r'. g_permission_expr (show_rule rule @ r) = Some (p, r') \<and> skip r' = skip r \<and> parse_permission_expr p = Inr rule"
proof -
  have u: "op_token ''+'' R_union_op" and i: "op_token ''&'' R_intersection_op" and e: "op_token ''-'' R_exclusion_op"
    by (simp_all add: op_token_def)
  have single: ?thesis if "wf_term rule" "show_rule rule = show_term rule"
    using expr_print [OF u that(1) _ r, of "[]"] that(2) by (simp add: combine_ops_def)
  show ?thesis
  proof (cases rule)
    case (RUnion ts)
    with assms(1) obtain t t' ts' where "ts = t # t' # ts'" by (cases ts rule: remdups_adj.cases) auto
    with RUnion assms(1) expr_print [OF u _ _ r, of t "t' # ts'"] show ?thesis
      by (auto simp: combine_ops_def list_ex_iff comp_def)
  next
    case (RIntersection ts)
    with assms(1) obtain t t' ts' where "ts = t # t' # ts'" by (cases ts rule: remdups_adj.cases) auto
    with RIntersection assms(1) expr_print [OF i _ _ r, of t "t' # ts'"] show ?thesis
      by (auto simp: combine_ops_def list_ex_iff comp_def)
  next
    case (RExclusion a b)
    with assms(1) expr_print [OF e _ _ r, of a "[b]"] show ?thesis by (auto simp: combine_ops_def)
  qed (use assms(1) single in simp_all)
qed

lemma skip_rule: "wf_rule rule \<Longrightarrow> skip (show_rule rule @ r) = show_rule rule @ r"
  by (cases rule rule: show_rule.cases) simp_all

text \<open>A rest before which an item of a body ends.\<close>

definition item_end :: "string \<Rightarrow> bool" where
  "item_end r \<longleftrightarrow> no_hash r \<and> strip_prefix ''|'' (skip r) = None \<and> no_arrow r \<and> g_permission_op (skip r) = None"

lemma permission_print:
  assumes "wf_permission pd" "item_end r"
  shows "\<exists>p r'. g_permission_def (show_permission pd @ r) = Some (p, r') \<and> skip r' = skip r \<and>
    as_rule p = R_permission_def \<and> parse_permission_def p = Inr pd"
proof -
  from assms(1) have v: "valid_ident (perm_name pd)" and w: "wf_rule (perm_rule pd)" by (simp_all add: wf_permission_def)
  have "g_identifier (perm_name pd @ CHR '' '' # CHR ''='' # CHR '' '' # show_rule (perm_rule pd) @ r) =
      Some (Pair R_identifier (perm_name pd) [], CHR '' '' # CHR ''='' # CHR '' '' # show_rule (perm_rule pd) @ r)"
    by (rule g_identifier_print [OF v]) simp
  with rule_print [OF w, of r] assms(2) v show ?thesis
    by (auto simp: g_permission_def_def show_permission_def parse_permission_def_def skip_rule [OF w] item_end_def)
qed

section \<open>Types and schemas\<close>

abbreviation show_item :: "RelationDef + PermissionDef \<Rightarrow> string" where
  "show_item \<equiv> case_sum show_relation show_permission"

fun item_reads :: "RelationDef + PermissionDef \<Rightarrow> Pair list \<Rightarrow> bool" where
  "item_reads (Inl rd) ps = (\<exists>p. ps = [p] \<and> as_rule p = R_relation_def \<and> parse_relation_def p = Inr rd)"
| "item_reads (Inr pd) ps = (\<exists>p. ps = [p] \<and> as_rule p = R_permission_def \<and> parse_permission_def p = Inr pd)"

lemma item_end_item: "item_end (show_item x @ r)"
  by (cases x) (simp_all add: item_end_def no_hash_def no_arrow_def g_permission_op_def show_relation_def show_permission_def)

lemma item_print:
  assumes "case_sum wf_relation wf_permission x" "item_end r"
  shows "\<exists>ps r'. g_body_item (skip (show_item x @ r)) = Some (ps, r') \<and> skip r' = skip r \<and> item_reads x ps"
proof (cases x)
  case (Inl rd)
  with relation_print [of rd r] assms show ?thesis
    by (auto simp: g_body_item_def item_end_def) (simp add: show_relation_def)
next
  case (Inr pd)
  moreover have "g_relation_def (show_permission pd @ r) = None"
    by (simp add: g_relation_def_def show_permission_def)
  moreover have "skip (show_permission pd @ r) = show_permission pd @ r" by (simp add: show_permission_def)
  ultimately show ?thesis using permission_print [of pd r] assms by (auto simp: g_body_item_def)
qed

lemma parse_items_relations:
  "list_all2 item_reads (map Inl rds @ xs) pss \<Longrightarrow> distinct (map rel_name rds) \<Longrightarrow> rel_name ` set rds \<inter> sr = {} \<Longrightarrow>
     \<exists>pss'. list_all2 item_reads xs pss' \<and> parse_items n (concat pss) sr sp rels perms =
       parse_items n (concat pss') (sr \<union> rel_name ` set rds) sp (rels @ rds) perms"
proof (induction rds arbitrary: pss sr rels)
  case (Cons rd rds)
  then obtain p pss0 where p: "pss = [p] # pss0" "as_rule p = R_relation_def" "parse_relation_def p = Inr rd"
    and l: "list_all2 item_reads (map Inl rds @ xs) pss0" by (auto simp: list_all2_Cons1)
  from Cons.IH [OF l, of "insert (rel_name rd) sr" "rels @ [rd]"] Cons.prems(2,3) p show ?case by auto
qed auto

lemma parse_items_permissions:
  "list_all2 item_reads (map Inr pds) pss \<Longrightarrow> distinct (map perm_name pds) \<Longrightarrow> perm_name ` set pds \<inter> sp = {} \<Longrightarrow>
     parse_items n (concat pss) sr sp rels perms = Inr (rels, perms @ pds)"
proof (induction pds arbitrary: pss sp perms)
  case (Cons pd pds)
  then obtain p pss0 where p: "pss = [p] # pss0" "as_rule p = R_permission_def" "parse_permission_def p = Inr pd"
    and l: "list_all2 item_reads (map Inr pds) pss0" by (auto simp: list_all2_Cons1)
  from Cons.IH [OF l, of "insert (perm_name pd) sp" "perms @ [pd]"] Cons.prems(2,3) p show ?case by auto
qed simp

lemma type_print:
  assumes "wf_type td"
  shows "\<exists>ps r'. g_definition_item (skip (show_type td @ r)) = Some (ps, r') \<and> skip r' = skip r \<and>
    (\<exists>p. ps = [p] \<and> as_rule p = R_definition \<and> parse_definition p = Inr td)"
proof -
  let ?xs = "map Inl (relations td) @ map Inr (permissions td)"
  let ?e = "CHR ''}'' # CHR '' '' # r" and ?n = "type_name td"
  have e: "item_end ?e" by (simp add: item_end_def no_hash_def no_arrow_def g_permission_op_def)
  have st: "g_body_item (skip ?e) = None" by (simp add: g_body_item_def g_relation_def_def g_permission_def_def)
  have wf: "case_sum wf_relation wf_permission x" if "x \<in> set ?xs" for x
    using assms that by (auto simp: wf_type_def list_all_iff)
  obtain pss where pss: "fst (rep g_body_item (skip (concat (map show_item ?xs) @ ?e))) = concat pss"
      "list_all2 item_reads ?xs pss" "skip (snd (rep g_body_item (skip (concat (map show_item ?xs) @ ?e)))) = ?e"
    using rep_items [where q = g_body_item and xs = ?xs and pr = show_item and follows = item_end and r = ?e
        and T = item_reads, OF rules_consume(3) item_print [OF wf] item_end_item e st] by auto
  from parse_items_relations [where n = ?n and sr = "{}" and sp = "{}" and rels = "[]" and perms = "[]", OF pss(2)] assms
  obtain pss' where
    "list_all2 item_reads (map Inr (permissions td)) pss'"
    "parse_items ?n (concat pss) {} {} [] [] = parse_items ?n (concat pss') (rel_name ` set (relations td)) {} (relations td) []"
    by (auto simp: wf_type_def)
  with parse_items_permissions [of "permissions td" pss' "{}"] assms
  have items: "parse_items ?n (concat pss) {} {} [] [] = Inr (relations td, permissions td)" by (simp add: wf_type_def)
  have v: "valid_ident ?n" using assms by (simp add: wf_type_def)
  have "g_identifier (?n @ CHR '' '' # s) = Some (Pair R_identifier ?n [], CHR '' '' # s)" for s
    by (rule g_identifier_print [OF v]) simp
  with v pss(1,3) items show ?thesis
    by (simp add: show_type_def g_definition_item_def g_definition_def g_definition_body_def parse_definition_def
        split_beta Let_def comp_def)
qed

lemma parse_types_print:
  "list_all2 (\<lambda>td ps. \<exists>p. ps = [p] \<and> as_rule p = R_definition \<and> parse_definition p = Inr td) tds pss \<Longrightarrow>
     distinct (map type_name tds) \<Longrightarrow> type_name ` set tds \<inter> seen = {} \<Longrightarrow>
     parse_types (concat pss @ [Pair R_EOI [] []]) seen ts = Inr (ts @ tds)"
proof (induction tds arbitrary: pss seen ts)
  case (Cons td tds)
  then obtain p pss0 where p: "pss = [p] # pss0" "as_rule p = R_definition" "parse_definition p = Inr td"
    and l: "list_all2 (\<lambda>td ps. \<exists>p. ps = [p] \<and> as_rule p = R_definition \<and> parse_definition p = Inr td) tds pss0"
    by (auto simp: list_all2_Cons1)
  from Cons.IH [OF l, of "insert (type_name td) seen" "ts @ [td]"] Cons.prems(2,3) p show ?case by auto
qed simp

section \<open>The round trip\<close>

lemma parse_show:
  assumes "wf_schema schema"
  shows "parse_schema pest_error (show_schema schema) = Inr schema"
proof -
  let ?T = "\<lambda>td ps. \<exists>p. ps = [p] \<and> as_rule p = R_definition \<and> parse_definition p = Inr td"
  have wf: "wf_type td" if "td \<in> set (types schema)" for td
    using assms that by (auto simp: wf_schema_def list_all_iff)
  have st: "g_definition_item (skip []) = None" by (simp add: g_definition_item_def g_definition_def)
  obtain pss where pss: "fst (rep g_definition_item (skip (show_schema schema))) = concat pss"
      "list_all2 ?T (types schema) pss" "skip (snd (rep g_definition_item (skip (show_schema schema)))) = []"
    using rep_items [where q = g_definition_item and xs = "types schema" and pr = show_type and follows = "\<lambda>_. True"
        and r = "[]" and T = ?T, OF rules_consume(4) type_print [OF wf] TrueI TrueI st] by (auto simp: show_schema_def)
  with parse_types_print [OF pss(2), of "{}" "[]"] assms show ?thesis
    by (cases schema) (simp add: parse_schema_def g_schema_def split_beta Let_def wf_schema_def)
qed

text \<open>
  C34. The parser can return exactly the well-formed schemas: a schema is well formed if and only if
  its canonical text parses, without any error, to that schema.
\<close>

theorem parse_show_schema:
  "parse_schema pest_error (show_schema schema) = Inr schema \<longleftrightarrow> wf_schema schema"
  using parse_show parsed_schema_wf by blast

end
