(* ===== verification/Postgres.thy ===== *)
theory Postgres
  imports Storage
begin

text \<open>
  \<open>kraalzibar-storage/src/postgres\<close>: the PostgreSQL store as the statements it sends. A query is its text
  and the values bound to its placeholders; the database behind \<open>sqlx\<close> is a parameter, a record of the
  driver's operations on its state. What the queries rely on is stated in \<open>Postgres_Correct\<close>.
\<close>

section \<open>The driver\<close>

text \<open>A bound value: text that may be \<open>NULL\<close>, a \<open>BIGINT\<close> (\<open>i64\<close>), a \<open>UUID\<close>.\<close>

datatype SqlValue = SqlText "string option" | SqlBigInt int | SqlUuid Uuid

record Query =
  sql :: string
  binds :: "SqlValue list"

text \<open>A statement runs on a connection of the pool or inside the open transaction.\<close>

datatype Executor = Pool | Tx

text \<open>The columns of a tuple as \<open>read_tuples\<close> selects them.\<close>

type_synonym TupleColumns = "string \<times> string \<times> string \<times> string \<times> string \<times> string option"

text \<open>
  \<open>sqlx\<close> on a database state: an error is its text. \<open>fetch_one\<close> returns the state, since a query may call
  \<open>nextval\<close>; the other fetches are plain selections. A transaction that is dropped is rolled back.
\<close>

record 'db Sqlx =
  execute :: "Executor \<Rightarrow> Query \<Rightarrow> 'db \<Rightarrow> (string + u64) \<times> 'db"
  fetch_one_i64 :: "Executor \<Rightarrow> Query \<Rightarrow> 'db \<Rightarrow> (string + int) \<times> 'db"
  fetch_all_tuples :: "Executor \<Rightarrow> Query \<Rightarrow> 'db \<Rightarrow> string + TupleColumns list"
  fetch_all_text :: "Executor \<Rightarrow> Query \<Rightarrow> 'db \<Rightarrow> string + string list"
  fetch_optional_text :: "Executor \<Rightarrow> Query \<Rightarrow> 'db \<Rightarrow> string + string option"
  fetch_optional_uuid :: "Executor \<Rightarrow> Query \<Rightarrow> 'db \<Rightarrow> string + Uuid option"
  begin_tx :: "'db \<Rightarrow> (string + unit) \<times> 'db"
  commit_tx :: "'db \<Rightarrow> (string + unit) \<times> 'db"
  rollback_tx :: "'db \<Rightarrow> 'db"

definition ACTIVE_TX_ID_i64 :: int where
  "ACTIVE_TX_ID_i64 = 9223372036854775807"

definition to_storage_error :: "string \<Rightarrow> StorageError" where
  "to_storage_error e = Internal e"

text \<open>\<open>f(...).await.map_err(to_storage_error)?\<close> where the rest of the function goes on with the state.\<close>

definition run_then :: "('e + 'a) \<times> 's \<Rightarrow> ('a \<Rightarrow> 's \<Rightarrow> ('e + 'b) \<times> 's) \<Rightarrow> ('e + 'b) \<times> 's" where
  "run_then m k = (case m of (Inl e, s) \<Rightarrow> (Inl e, s) | (Inr a, s) \<Rightarrow> k a s)"

section \<open>Queries\<close>

subsection \<open>The transaction sequence\<close>

definition nextval_sql :: "string \<Rightarrow> string" where
  "nextval_sql schema = ''SELECT nextval('' @ quoted (schema @ ''.tx_id_seq'') @ '')''"

definition next_tx_id :: "'db Sqlx \<Rightarrow> Executor \<Rightarrow> string \<Rightarrow> 'db \<Rightarrow> (StorageError + int) \<times> 'db" where
  "next_tx_id db c schema d =
     (case fetch_one_i64 db c \<lparr>sql = nextval_sql schema, binds = []\<rparr> d of
        (Inl e, d) \<Rightarrow> (Inl (to_storage_error e), d)
      | (Inr n, d) \<Rightarrow>
          if n = ACTIVE_TX_ID_i64
          then (Inl (Internal ''transaction ID sequence exhausted (reached sentinel value)''), d)
          else (Inr n, d))"

definition current_sql :: "string \<Rightarrow> string" where
  "current_sql schema =
     ''SELECT COALESCE((SELECT last_value FROM '' @ schema @ ''.tx_id_seq WHERE is_called = true), 0)''"

definition current_tx_id :: "'db Sqlx \<Rightarrow> Executor \<Rightarrow> string \<Rightarrow> 'db \<Rightarrow> StorageError + int" where
  "current_tx_id db c schema d =
     map_err to_storage_error (fst (fetch_one_i64 db c \<lparr>sql = current_sql schema, binds = []\<rparr> d))"

subsection \<open>Writing tuples\<close>

definition insert_sql :: "string \<Rightarrow> string" where
  "insert_sql schema = ''
        INSERT INTO '' @ schema @ ''.relation_tuples
            (object_type, object_id, relation, subject_type, subject_id, subject_relation, created_tx_id, deleted_tx_id)
        VALUES ($1, $2, $3, $4, $5, $6, $7, $8)
        ON CONFLICT (object_type, object_id, relation, subject_type, subject_id, subject_relation, deleted_tx_id)
        DO NOTHING
        ''"

definition insert_tuple ::
  "'db Sqlx \<Rightarrow> Executor \<Rightarrow> string \<Rightarrow> TupleWrite \<Rightarrow> int \<Rightarrow> 'db \<Rightarrow> (StorageError + unit) \<times> 'db" where
  "insert_tuple db c schema write tx_id d =
     (case execute db c \<lparr>sql = insert_sql schema,
          binds = [SqlText (Some (object_type (tw_object write))), SqlText (Some (object_id (tw_object write))),
            SqlText (Some (tw_relation write)), SqlText (Some (subject_type (tw_subject write))),
            SqlText (Some (subject_id (tw_subject write))), SqlText (subject_relation (tw_subject write)),
            SqlBigInt tx_id, SqlBigInt ACTIVE_TX_ID_i64]\<rparr> d of
        (r, d) \<Rightarrow> (and_then (map_err to_storage_error r) (\<lambda>_. Inr ()), d))"

text \<open>
  The conditions, the bound values and \<open>bind_idx\<close> as the two functions below build them, one field of
  the filter at a time.
\<close>

type_synonym Conditions = "string list \<times> SqlValue list \<times> nat"

definition push_field :: "string \<Rightarrow> string option \<Rightarrow> Conditions \<Rightarrow> Conditions" where
  "push_field col field st =
     (case (field, st) of
        (Some v, conditions, bs, bind_idx) \<Rightarrow>
          (conditions @ [col @ '' = $'' @ show_nat bind_idx], bs @ [SqlText (Some v)], bind_idx + 1)
      | (None, _) \<Rightarrow> st)"

definition push_subject_relation :: "string option option \<Rightarrow> Conditions \<Rightarrow> Conditions" where
  "push_subject_relation field st =
     (case field of
        None \<Rightarrow> st
      | Some None \<Rightarrow> (fst st @ [''subject_relation IS NULL''], snd st)
      | Some (Some rel) \<Rightarrow> push_field ''subject_relation'' (Some rel) st)"

definition push_filter :: "TupleFilter \<Rightarrow> Conditions \<Rightarrow> Conditions" where
  "push_filter f st =
     push_subject_relation (f_subject_relation f)
       (push_field ''subject_id'' (f_subject_id f)
         (push_field ''subject_type'' (f_subject_type f)
           (push_field ''relation'' (f_relation f)
             (push_field ''object_id'' (f_object_id f)
               (push_field ''object_type'' (f_object_type f) st)))))"

text \<open>\<open>conditions.join(" AND ")\<close>\<close>

fun join_and :: "string list \<Rightarrow> string" where
  "join_and [] = []"
| "join_and [c] = c"
| "join_and (c # cs) = c @ '' AND '' @ join_and cs"

definition update_sql :: "string \<Rightarrow> string list \<Rightarrow> string" where
  "update_sql schema conditions =
     ''UPDATE '' @ schema @ ''.relation_tuples SET deleted_tx_id = $2 WHERE '' @ join_and conditions"

definition delete_matching_tuples ::
  "'db Sqlx \<Rightarrow> Executor \<Rightarrow> string \<Rightarrow> TupleFilter \<Rightarrow> int \<Rightarrow> 'db \<Rightarrow> (StorageError + unit) \<times> 'db" where
  "delete_matching_tuples db c schema f tx_id d =
     (case push_filter f ([''deleted_tx_id = $1''], [], 3) of
        (conditions, bs, _) \<Rightarrow>
          (case execute db c \<lparr>sql = update_sql schema conditions,
               binds = SqlBigInt ACTIVE_TX_ID_i64 # SqlBigInt tx_id # bs\<rparr> d of
             (r, d) \<Rightarrow> (and_then (map_err to_storage_error r) (\<lambda>_. Inr ()), d)))"

subsection \<open>Reading tuples\<close>

definition limit_clause :: "nat option \<Rightarrow> string" where
  "limit_clause limit = (case limit of Some n \<Rightarrow> '' LIMIT '' @ show_nat n | None \<Rightarrow> [])"

definition select_sql :: "string \<Rightarrow> string list \<Rightarrow> nat option \<Rightarrow> string" where
  "select_sql schema conditions limit =
     ''SELECT object_type, object_id, relation, subject_type, subject_id, subject_relation
           FROM '' @ schema @ ''.relation_tuples
           WHERE '' @ join_and conditions @ limit_clause limit"

definition tuple_of_columns :: "TupleColumns \<Rightarrow> Tuple" where
  "tuple_of_columns row =
     (case row of (ot, oi, rel, st, si, sr) \<Rightarrow>
        Tuple_new (ObjectRef_new ot oi) rel
          (case sr of None \<Rightarrow> direct st si | Some r \<Rightarrow> userset st si r))"

definition read_tuples ::
  "'db Sqlx \<Rightarrow> Executor \<Rightarrow> string \<Rightarrow> TupleFilter \<Rightarrow> int \<Rightarrow> nat option \<Rightarrow> 'db \<Rightarrow> StorageError + Tuple list" where
  "read_tuples db c schema f snapshot limit d =
     (case push_filter f ([''created_tx_id <= $1'', ''deleted_tx_id > $1''], [], 2) of
        (conditions, bs, _) \<Rightarrow>
          and_then (map_err to_storage_error (fetch_all_tuples db c
              \<lparr>sql = select_sql schema conditions limit, binds = SqlBigInt snapshot # bs\<rparr> d))
            (\<lambda>rows. Inr (map tuple_of_columns rows)))"

definition distinct_ids_sql :: "string \<Rightarrow> nat option \<Rightarrow> string" where
  "distinct_ids_sql schema limit =
     ''SELECT DISTINCT object_id
           FROM '' @ schema @ ''.relation_tuples
           WHERE object_type = $1 AND created_tx_id <= $2 AND deleted_tx_id > $2
           ORDER BY object_id'' @ limit_clause limit"

definition list_distinct_object_ids ::
  "'db Sqlx \<Rightarrow> Executor \<Rightarrow> string \<Rightarrow> string \<Rightarrow> int \<Rightarrow> nat option \<Rightarrow> 'db \<Rightarrow> StorageError + string list" where
  "list_distinct_object_ids db c schema ot snapshot limit d =
     map_err to_storage_error (fetch_all_text db c
       \<lparr>sql = distinct_ids_sql schema limit, binds = [SqlText (Some ot), SqlBigInt snapshot]\<rparr> d)"

subsection \<open>Schema definitions\<close>

definition insert_schema_sql :: "string \<Rightarrow> string" where
  "insert_schema_sql schema = ''
        INSERT INTO '' @ schema @ ''.schema_definitions (definition)
        VALUES ($1)
        ''"

definition write_schema_definition ::
  "'db Sqlx \<Rightarrow> Executor \<Rightarrow> string \<Rightarrow> string \<Rightarrow> 'db \<Rightarrow> (StorageError + unit) \<times> 'db" where
  "write_schema_definition db c schema def d =
     (case execute db c \<lparr>sql = insert_schema_sql schema, binds = [SqlText (Some def)]\<rparr> d of
        (r, d) \<Rightarrow> (and_then (map_err to_storage_error r) (\<lambda>_. Inr ()), d))"

definition latest_schema_sql :: "string \<Rightarrow> string" where
  "latest_schema_sql schema = ''
        SELECT definition FROM '' @ schema @ ''.schema_definitions
        ORDER BY created_at DESC
        LIMIT 1
        ''"

definition read_latest_schema :: "'db Sqlx \<Rightarrow> Executor \<Rightarrow> string \<Rightarrow> 'db \<Rightarrow> StorageError + string option" where
  "read_latest_schema db c schema d =
     map_err to_storage_error (fetch_optional_text db c \<lparr>sql = latest_schema_sql schema, binds = []\<rparr> d)"

section \<open>The store\<close>

text \<open>The loops of \<open>write\<close>, which stop at the first error.\<close>

fun delete_all :: "'db Sqlx \<Rightarrow> string \<Rightarrow> TupleFilter list \<Rightarrow> int \<Rightarrow> 'db \<Rightarrow> (StorageError + unit) \<times> 'db" where
  "delete_all db schema [] tx_id d = (Inr (), d)"
| "delete_all db schema (f # fs) tx_id d =
     run_then (delete_matching_tuples db Tx schema f tx_id d) (\<lambda>_. delete_all db schema fs tx_id)"

fun insert_all :: "'db Sqlx \<Rightarrow> string \<Rightarrow> TupleWrite list \<Rightarrow> int \<Rightarrow> 'db \<Rightarrow> (StorageError + unit) \<times> 'db" where
  "insert_all db schema [] tx_id d = (Inr (), d)"
| "insert_all db schema (w # ws) tx_id d =
     run_then (insert_tuple db Tx schema w tx_id d) (\<lambda>_. insert_all db schema ws tx_id)"

definition write_in_tx ::
  "'db Sqlx \<Rightarrow> string \<Rightarrow> TupleWrite list \<Rightarrow> TupleFilter list \<Rightarrow> 'db \<Rightarrow> (StorageError + int) \<times> 'db" where
  "write_in_tx db schema writes deletes d =
     run_then (next_tx_id db Tx schema d) (\<lambda>tx_id d.
       run_then (delete_all db schema deletes tx_id d) (\<lambda>_ d.
         run_then (insert_all db schema writes tx_id d) (\<lambda>_ d. (Inr tx_id, d))))"

definition pg_write ::
  "'db Sqlx \<Rightarrow> string \<Rightarrow> 'db \<Rightarrow> TupleWrite list \<Rightarrow> TupleFilter list \<Rightarrow> (StorageError + SnapshotToken) \<times> 'db" where
  "pg_write db schema d writes deletes =
     (if list_ex (\<lambda>f. \<not> has_any_field f) deletes then (Inl EmptyDeleteFilter, d)
      else
        (case begin_tx db d of
           (Inl e, d) \<Rightarrow> (Inl (Internal e), d)
         | (Inr _, d) \<Rightarrow>
             (case write_in_tx db schema writes deletes d of
                (Inl e, d) \<Rightarrow> (Inl e, rollback_tx db d)
              | (Inr tx_id, d) \<Rightarrow>
                  (case commit_tx db d of
                     (Inl e, d) \<Rightarrow> (Inl (Internal e), d)
                   | (Inr _, d) \<Rightarrow> (Inr (SnapshotToken (word_of_int tx_id)), d)))))"

text \<open>The snapshot both reads use: \<open>as u64\<close> is \<^const>\<open>word_of_int\<close>, \<open>as i64\<close> is \<^const>\<open>sint\<close>.\<close>

definition pg_read_snapshot :: "'db Sqlx \<Rightarrow> string \<Rightarrow> SnapshotToken option \<Rightarrow> 'db \<Rightarrow> StorageError + int" where
  "pg_read_snapshot db schema snapshot d =
     (case snapshot of
        Some token \<Rightarrow>
          (let val = value_of token
           in and_then (current_tx_id db Pool schema d) (\<lambda>current.
                if val > word_of_int current then Inl (SnapshotAhead val (word_of_int current))
                else Inr (sint val)))
      | None \<Rightarrow> current_tx_id db Pool schema d)"

definition pg_read ::
  "'db Sqlx \<Rightarrow> string \<Rightarrow> 'db \<Rightarrow> TupleFilter \<Rightarrow> SnapshotToken option \<Rightarrow> nat option \<Rightarrow> StorageError + Tuple list" where
  "pg_read db schema d f snapshot limit =
     and_then (pg_read_snapshot db schema snapshot d) (\<lambda>snap. read_tuples db Pool schema f snap limit d)"

definition pg_snapshot :: "'db Sqlx \<Rightarrow> string \<Rightarrow> 'db \<Rightarrow> StorageError + SnapshotToken" where
  "pg_snapshot db schema d =
     and_then (current_tx_id db Pool schema d) (\<lambda>current. Inr (SnapshotToken (word_of_int current)))"

definition pg_list_object_ids ::
  "'db Sqlx \<Rightarrow> string \<Rightarrow> 'db \<Rightarrow> string \<Rightarrow> SnapshotToken option \<Rightarrow> nat option \<Rightarrow> StorageError + string list" where
  "pg_list_object_ids db schema d ot snapshot limit =
     and_then (pg_read_snapshot db schema snapshot d) (\<lambda>snap. list_distinct_object_ids db Pool schema ot snap limit d)"

definition pg_write_schema :: "'db Sqlx \<Rightarrow> string \<Rightarrow> 'db \<Rightarrow> string \<Rightarrow> (StorageError + unit) \<times> 'db" where
  "pg_write_schema db schema d def = write_schema_definition db Pool schema def d"

definition pg_read_schema :: "'db Sqlx \<Rightarrow> string \<Rightarrow> 'db \<Rightarrow> StorageError + string option" where
  "pg_read_schema db schema d = read_latest_schema db Pool schema d"

definition PostgresStore :: "'db Sqlx \<Rightarrow> string \<Rightarrow> 'db Store" where
  "PostgresStore db schema =
     \<lparr>store_write = pg_write db schema, store_read = pg_read db schema, store_snapshot = pg_snapshot db schema,
      store_list_object_ids = pg_list_object_ids db schema, store_write_schema = pg_write_schema db schema,
      store_read_schema = pg_read_schema db schema\<rparr>"

section \<open>Tenants\<close>

fun hex_char :: "nat \<Rightarrow> char" where
  "hex_char n = (if n < 10 then char_of (48 + n) else char_of (87 + n))"

text \<open>The last \<open>n\<close> hexadecimal digits of a number, as \<open>Uuid::as_simple\<close> prints all 32.\<close>

fun hex_digits :: "nat \<Rightarrow> nat \<Rightarrow> string" where
  "hex_digits 0 k = []"
| "hex_digits (Suc n) k = hex_digits n (k div 16) @ [hex_char (k mod 16)]"

definition as_simple :: "Uuid \<Rightarrow> string" where
  "as_simple u = hex_digits 32 (unat u)"

definition schema_name_for_tenant :: "TenantId \<Rightarrow> string" where
  "schema_name_for_tenant tenant_id = ''tenant_'' @ as_simple (as_uuid tenant_id)"

definition is_ascii_hexdigit :: "char \<Rightarrow> bool" where
  "is_ascii_hexdigit c \<longleftrightarrow>
     (let n = (of_char c :: nat) in (48 \<le> n \<and> n \<le> 57) \<or> (65 \<le> n \<and> n \<le> 70) \<or> (97 \<le> n \<and> n \<le> 102))"

definition validate_schema_name :: "string \<Rightarrow> StorageError + unit" where
  "validate_schema_name name =
     (let is_valid = prefix ''tenant_'' name \<and> length name = 39 \<and> list_all is_ascii_hexdigit (drop 7 name)
      in if \<not> is_valid then Inl (Internal (''invalid tenant schema name: '' @ name)) else Inr ())"

text \<open>Statements run one after the other, up to the first error.\<close>

fun execute_all :: "'db Sqlx \<Rightarrow> string list \<Rightarrow> 'db \<Rightarrow> (string + unit) \<times> 'db" where
  "execute_all db [] d = (Inr (), d)"
| "execute_all db (q # qs) d =
     run_then (execute db Pool \<lparr>sql = q, binds = []\<rparr> d) (\<lambda>_. execute_all db qs)"

definition create_tenants_sql :: string where
  "create_tenants_sql = ''
        CREATE TABLE IF NOT EXISTS tenants (
            id          UUID PRIMARY KEY DEFAULT gen_random_uuid(),
            name        TEXT NOT NULL UNIQUE,
            pg_schema   TEXT NOT NULL UNIQUE,
            created_at  TIMESTAMPTZ NOT NULL DEFAULT now()
        )
        ''"

definition create_api_keys_sql :: string where
  "create_api_keys_sql = ''
        CREATE TABLE IF NOT EXISTS api_keys (
            id          UUID PRIMARY KEY DEFAULT gen_random_uuid(),
            tenant_id   UUID NOT NULL REFERENCES tenants(id),
            key_id      TEXT NOT NULL UNIQUE,
            key_hash    TEXT NOT NULL,
            created_at  TIMESTAMPTZ NOT NULL DEFAULT now(),
            revoked_at  TIMESTAMPTZ
        )
        ''"

definition run_shared_migrations :: "'db Sqlx \<Rightarrow> 'db \<Rightarrow> (string + unit) \<times> 'db" where
  "run_shared_migrations db d = execute_all db [create_tenants_sql, create_api_keys_sql] d"

definition tenant_schema_sql :: "string \<Rightarrow> string list" where
  "tenant_schema_sql schema_name =
    [''CREATE SCHEMA IF NOT EXISTS '' @ schema_name,
     ''
        CREATE TABLE IF NOT EXISTS '' @ schema_name @ ''.relation_tuples (
            id              UUID PRIMARY KEY DEFAULT gen_random_uuid(),
            object_type     TEXT NOT NULL,
            object_id       TEXT NOT NULL,
            relation        TEXT NOT NULL,
            subject_type    TEXT NOT NULL,
            subject_id      TEXT NOT NULL,
            subject_relation TEXT,
            created_tx_id   BIGINT NOT NULL,
            deleted_tx_id   BIGINT NOT NULL DEFAULT 9223372036854775807,
            UNIQUE NULLS NOT DISTINCT (object_type, object_id, relation, subject_type, subject_id,
                   subject_relation, deleted_tx_id)
        )
        '',
     ''
        CREATE INDEX IF NOT EXISTS idx_tuples_lookup
        ON '' @ schema_name @ ''.relation_tuples
            (object_type, object_id, relation, deleted_tx_id)
        '',
     ''
        CREATE INDEX IF NOT EXISTS idx_tuples_reverse
        ON '' @ schema_name @ ''.relation_tuples
            (subject_type, subject_id, subject_relation, deleted_tx_id)
        '',
     ''
        CREATE TABLE IF NOT EXISTS '' @ schema_name @ ''.schema_definitions (
            id          UUID PRIMARY KEY DEFAULT gen_random_uuid(),
            definition  TEXT NOT NULL,
            created_at  TIMESTAMPTZ NOT NULL DEFAULT now()
        )
        '',
     ''CREATE SEQUENCE IF NOT EXISTS '' @ schema_name @ ''.tx_id_seq'']"

definition create_tenant_schema :: "'db Sqlx \<Rightarrow> string \<Rightarrow> 'db \<Rightarrow> (StorageError + unit) \<times> 'db" where
  "create_tenant_schema db schema_name d =
     (case validate_schema_name schema_name of
        Inl e \<Rightarrow> (Inl e, d)
      | Inr _ \<Rightarrow>
          (case execute_all db (tenant_schema_sql schema_name) d of
             (r, d) \<Rightarrow> (map_err to_storage_error r, d)))"

text \<open>The factory: the pool, whose state is the database, and the names of provisioned schemas.\<close>

record 'db PostgresStoreFactory =
  pool :: 'db
  schemas :: "TenantId \<rightharpoonup> string"

definition PostgresStoreFactory_new :: "'db \<Rightarrow> 'db PostgresStoreFactory" where
  "PostgresStoreFactory_new d = \<lparr>pool = d, schemas = (\<lambda>_. None)\<rparr>"

definition insert_tenant_sql :: string where
  "insert_tenant_sql = ''INSERT INTO tenants (id, name, pg_schema) VALUES ($1, $2, $3) ON CONFLICT DO NOTHING''"

definition provision_tenant ::
  "'db Sqlx \<Rightarrow> TenantId \<Rightarrow> string \<Rightarrow> 'db PostgresStoreFactory \<Rightarrow> (StorageError + unit) \<times> 'db PostgresStoreFactory" where
  "provision_tenant db tenant_id name fac =
     (let schema_name = schema_name_for_tenant tenant_id
      in case execute db Pool \<lparr>sql = insert_tenant_sql,
             binds = [SqlUuid (as_uuid tenant_id), SqlText (Some name), SqlText (Some schema_name)]\<rparr> (pool fac) of
           (Inl e, d) \<Rightarrow> (Inl (Internal e), fac\<lparr>pool := d\<rparr>)
         | (Inr _, d) \<Rightarrow>
             (case create_tenant_schema db schema_name d of
                (Inl e, d) \<Rightarrow> (Inl e, fac\<lparr>pool := d\<rparr>)
              | (Inr _, d) \<Rightarrow> (Inr (), fac\<lparr>pool := d, schemas := (schemas fac)(tenant_id \<mapsto> schema_name)\<rparr>)))"

definition tenant_schema :: "'db PostgresStoreFactory \<Rightarrow> TenantId \<Rightarrow> string" where
  "tenant_schema fac tenant_id =
     (case schemas fac tenant_id of Some s \<Rightarrow> s | None \<Rightarrow> schema_name_for_tenant tenant_id)"

text \<open>A store shares the pool of its factory, so its operations act on the factory's database.\<close>

definition on_pool :: "('a \<times> 'db) \<Rightarrow> 'db PostgresStoreFactory \<Rightarrow> 'a \<times> 'db PostgresStoreFactory" where
  "on_pool rd fac = (fst rd, fac\<lparr>pool := snd rd\<rparr>)"

definition pg_handle :: "'db Sqlx \<Rightarrow> string \<Rightarrow> 'db PostgresStoreFactory Store" where
  "pg_handle db schema =
     \<lparr>store_write = (\<lambda>fac ws ds. on_pool (pg_write db schema (pool fac) ws ds) fac),
      store_read = (\<lambda>fac. pg_read db schema (pool fac)),
      store_snapshot = (\<lambda>fac. pg_snapshot db schema (pool fac)),
      store_list_object_ids = (\<lambda>fac. pg_list_object_ids db schema (pool fac)),
      store_write_schema = (\<lambda>fac def. on_pool (pg_write_schema db schema (pool fac) def) fac),
      store_read_schema = (\<lambda>fac. pg_read_schema db schema (pool fac))\<rparr>"

definition PostgresStoreFactory_ops :: "'db Sqlx \<Rightarrow> 'db PostgresStoreFactory StoreFactory" where
  "PostgresStoreFactory_ops db = \<lparr>for_tenant = (\<lambda>fac tenant_id. (pg_handle db (tenant_schema fac tenant_id), fac))\<rparr>"

section \<open>Schema names\<close>

lemma length_hex_digits [simp]: "length (hex_digits n k) = n"
  by (induction n arbitrary: k) simp_all

lemma is_ascii_hexdigit_hex_char: "n < 16 \<Longrightarrow> is_ascii_hexdigit (hex_char n)"
  by (auto simp: is_ascii_hexdigit_def Let_def)

lemma hex_digits_hex: "list_all is_ascii_hexdigit (hex_digits n k)"
  by (induction n arbitrary: k) (simp_all add: is_ascii_hexdigit_hex_char del: hex_char.simps)

lemma hex_char_inject: "a < 16 \<Longrightarrow> b < 16 \<Longrightarrow> hex_char a = hex_char b \<longleftrightarrow> a = b"
  by (auto simp: char_of_eq_iff take_bit_eq_mod)

lemma hex_digits_inject: "k < 16 ^ n \<Longrightarrow> l < 16 ^ n \<Longrightarrow> hex_digits n k = hex_digits n l \<Longrightarrow> k = l"
proof (induction n arbitrary: k l)
  case (Suc n)
  then have "k div 16 = l div 16" by (intro Suc.IH) (simp_all add: less_mult_imp_div_less mult.commute)
  moreover from Suc.prems(3) have "k mod 16 = l mod 16" by (simp add: hex_char_inject del: hex_char.simps)
  ultimately show ?case by (metis div_mult_mod_eq)
qed simp

lemma as_simple_inject: "as_simple u = as_simple v \<Longrightarrow> u = v"
proof -
  have b: "unat w < 16 ^ 32" for w :: Uuid using unsigned_less [of w] by simp
  assume "as_simple u = as_simple v"
  then show "u = v" unfolding as_simple_def by (rule unsigned_word_eqI [OF hex_digits_inject [OF b b]])
qed

lemma schema_name_inject [simp]: "schema_name_for_tenant t = schema_name_for_tenant u \<longleftrightarrow> t = u"
  by (cases t; cases u) (auto simp: schema_name_for_tenant_def dest: as_simple_inject)

text \<open>The name of a tenant's schema always passes the check of \<open>create_tenant_schema\<close>.\<close>

lemma schema_name_valid [simp]: "validate_schema_name (schema_name_for_tenant t) = Inr ()"
  by (simp add: validate_schema_name_def schema_name_for_tenant_def as_simple_def hex_digits_hex)

end
