(* ===== verification/Postgres_Correct.thy ===== *)
theory Postgres_Correct
  imports Postgres
begin

text \<open>
  What the PostgreSQL store promises, given what PostgreSQL documents of the statements it sends. The
  database is any state on which the rows of a tenant's table and the last value of its sequence can be
  observed; \<open>sql_laws\<close> says what a statement that succeeds does to them. A statement may always fail, a
  sequence does not roll back, and nothing is said of the order of the rows a selection returns.
\<close>

section \<open>Rows and conditions\<close>

record PgRow =
  pr_tuple :: Tuple
  pr_created :: int
  pr_deleted :: int

datatype Column =
  ObjectType | ObjectId | RelationName | SubjectType | SubjectId | SubjectRelation | CreatedTxId | DeletedTxId

fun column_name :: "Column \<Rightarrow> string" where
  "column_name ObjectType = ''object_type''"
| "column_name ObjectId = ''object_id''"
| "column_name RelationName = ''relation''"
| "column_name SubjectType = ''subject_type''"
| "column_name SubjectId = ''subject_id''"
| "column_name SubjectRelation = ''subject_relation''"
| "column_name CreatedTxId = ''created_tx_id''"
| "column_name DeletedTxId = ''deleted_tx_id''"

fun column_value :: "Column \<Rightarrow> PgRow \<Rightarrow> SqlValue" where
  "column_value ObjectType r = SqlText (Some (object_type (tup_object (pr_tuple r))))"
| "column_value ObjectId r = SqlText (Some (object_id (tup_object (pr_tuple r))))"
| "column_value RelationName r = SqlText (Some (tup_relation (pr_tuple r)))"
| "column_value SubjectType r = SqlText (Some (subject_type (tup_subject (pr_tuple r))))"
| "column_value SubjectId r = SqlText (Some (subject_id (tup_subject (pr_tuple r))))"
| "column_value SubjectRelation r = SqlText (subject_relation (tup_subject (pr_tuple r)))"
| "column_value CreatedTxId r = SqlBigInt (pr_created r)"
| "column_value DeletedTxId r = SqlBigInt (pr_deleted r)"

definition columns_of :: "Tuple \<Rightarrow> TupleColumns" where
  "columns_of t = (object_type (tup_object t), object_id (tup_object t), tup_relation t,
     subject_type (tup_subject t), subject_id (tup_subject t), subject_relation (tup_subject t))"

text \<open>The conditions of a \<open>WHERE\<close> clause: a comparison of a column with a placeholder, and \<open>IS NULL\<close>.\<close>

datatype SqlCond = CondEq Column nat | CondLe Column nat | CondGt Column nat | CondNull Column

fun show_cond :: "SqlCond \<Rightarrow> string" where
  "show_cond (CondEq c n) = column_name c @ '' = $'' @ show_nat n"
| "show_cond (CondLe c n) = column_name c @ '' <= $'' @ show_nat n"
| "show_cond (CondGt c n) = column_name c @ '' > $'' @ show_nat n"
| "show_cond (CondNull c) = column_name c @ '' IS NULL''"

definition placeholder :: "SqlValue list \<Rightarrow> nat \<Rightarrow> SqlValue option" where
  "placeholder bs n = (if 1 \<le> n \<and> n \<le> length bs then Some (bs ! (n - 1)) else None)"

text \<open>A comparison with \<open>NULL\<close> is not true.\<close>

fun sql_eq :: "SqlValue \<Rightarrow> SqlValue \<Rightarrow> bool" where
  "sql_eq (SqlText (Some a)) (SqlText (Some b)) \<longleftrightarrow> a = b"
| "sql_eq (SqlBigInt a) (SqlBigInt b) \<longleftrightarrow> a = b"
| "sql_eq _ _ \<longleftrightarrow> False"

fun sql_le :: "SqlValue \<Rightarrow> SqlValue \<Rightarrow> bool" where
  "sql_le (SqlBigInt a) (SqlBigInt b) \<longleftrightarrow> a \<le> b"
| "sql_le _ _ \<longleftrightarrow> False"

fun sql_gt :: "SqlValue \<Rightarrow> SqlValue \<Rightarrow> bool" where
  "sql_gt (SqlBigInt a) (SqlBigInt b) \<longleftrightarrow> a > b"
| "sql_gt _ _ \<longleftrightarrow> False"

fun compares :: "(SqlValue \<Rightarrow> SqlValue \<Rightarrow> bool) \<Rightarrow> SqlValue list \<Rightarrow> PgRow \<Rightarrow> Column \<Rightarrow> nat \<Rightarrow> bool" where
  "compares p bs r c n = (case placeholder bs n of Some v \<Rightarrow> p (column_value c r) v | None \<Rightarrow> False)"

fun cond_holds :: "SqlValue list \<Rightarrow> PgRow \<Rightarrow> SqlCond \<Rightarrow> bool" where
  "cond_holds bs r (CondEq c n) = compares sql_eq bs r c n"
| "cond_holds bs r (CondLe c n) = compares sql_le bs r c n"
| "cond_holds bs r (CondGt c n) = compares sql_gt bs r c n"
| "cond_holds bs r (CondNull c) = (column_value c r = SqlText None)"

section \<open>Statements\<close>

text \<open>
  The statements whose effect PostgreSQL documents, as text with placeholders; the laws below are stated of
  these texts, and \<open>statement_texts\<close> says that the store sends them.
\<close>

fun and_text :: "string list \<Rightarrow> string" where
  "and_text [] = []"
| "and_text [c] = c"
| "and_text (c # d # cs) = c @ '' AND '' @ and_text (d # cs)"

definition update_stmt :: "string \<Rightarrow> string list \<Rightarrow> string" where
  "update_stmt schema conditions =
     ''UPDATE '' @ schema @ ''.relation_tuples SET deleted_tx_id = $2 WHERE '' @ and_text conditions"

definition insert_stmt :: "string \<Rightarrow> string" where
  "insert_stmt schema = ''
        INSERT INTO '' @ schema @ ''.relation_tuples
            (object_type, object_id, relation, subject_type, subject_id, subject_relation, created_tx_id, deleted_tx_id)
        VALUES ($1, $2, $3, $4, $5, $6, $7, $8)
        ON CONFLICT (object_type, object_id, relation, subject_type, subject_id, subject_relation, deleted_tx_id)
        DO NOTHING
        ''"

definition nextval_stmt :: "string \<Rightarrow> string" where
  "nextval_stmt schema = ''SELECT nextval('' @ quoted (schema @ ''.tx_id_seq'') @ '')''"

definition current_stmt :: "string \<Rightarrow> string" where
  "current_stmt schema =
     ''SELECT COALESCE((SELECT last_value FROM '' @ schema @ ''.tx_id_seq WHERE is_called = true), 0)''"

definition select_stmt :: "string \<Rightarrow> string list \<Rightarrow> nat option \<Rightarrow> string" where
  "select_stmt schema conditions limit =
     ''SELECT object_type, object_id, relation, subject_type, subject_id, subject_relation
           FROM '' @ schema @ ''.relation_tuples
           WHERE '' @ and_text conditions @ (case limit of Some n \<Rightarrow> '' LIMIT '' @ show_nat n | None \<Rightarrow> [])"

lemma join_and_text: "join_and cs = and_text cs"
  by (induction cs rule: and_text.induct) simp_all

lemma statement_texts:
  "update_sql = update_stmt" "insert_sql = insert_stmt" "nextval_sql = nextval_stmt" "current_sql = current_stmt"
  "select_sql = select_stmt"
  by (simp_all add: fun_eq_iff update_sql_def update_stmt_def insert_sql_def insert_stmt_def nextval_sql_def nextval_stmt_def
      current_sql_def current_stmt_def select_sql_def select_stmt_def join_and_text limit_clause_def)

section \<open>What the statements do\<close>

text \<open>The rows of a tenant's table as the pool or the open transaction sees them, and its sequence.\<close>

record 'db Observer =
  rows :: "string \<Rightarrow> Executor \<Rightarrow> 'db \<Rightarrow> PgRow set"
  last_tx :: "string \<Rightarrow> 'db \<Rightarrow> int"

definition same_elsewhere :: "'db Observer \<Rightarrow> string \<Rightarrow> 'db \<Rightarrow> 'db \<Rightarrow> bool" where
  "same_elsewhere ob s d d' \<longleftrightarrow>
     (\<forall>s'. rows ob s' Pool d' = rows ob s' Pool d \<and> last_tx ob s' d' = last_tx ob s' d \<and>
       (s' \<noteq> s \<longrightarrow> rows ob s' Tx d' = rows ob s' Tx d))"

definition pg_mark_deleted :: "int \<Rightarrow> (PgRow \<Rightarrow> bool) \<Rightarrow> PgRow \<Rightarrow> PgRow" where
  "pg_mark_deleted tx p r = (if p r then r\<lparr>pr_deleted := tx\<rparr> else r)"

definition insert_row :: "PgRow \<Rightarrow> PgRow set \<Rightarrow> PgRow set" where
  "insert_row r R = (if \<exists>q\<in>R. pr_tuple q = pr_tuple r \<and> pr_deleted q = pr_deleted r then R else insert r R)"

text \<open>\<open>UPDATE\<close> in a transaction sets the column in the rows that meet every condition.\<close>

definition update_law :: "'db Sqlx \<Rightarrow> 'db Observer \<Rightarrow> bool" where
  "update_law db ob \<longleftrightarrow> (\<forall>s cs a tx bs d r d'. validate_schema_name s = Inr () \<longrightarrow> cs \<noteq> [] \<longrightarrow>
     execute db Tx \<lparr>sql = update_stmt s (map show_cond cs), binds = a # SqlBigInt tx # bs\<rparr> d = (r, d') \<longrightarrow>
     same_elsewhere ob s d d' \<and>
     (is_ok r \<longrightarrow> rows ob s Tx d' =
        pg_mark_deleted tx (\<lambda>q. list_all (cond_holds (a # SqlBigInt tx # bs) q) cs) ` rows ob s Tx d))"

text \<open>\<open>INSERT ... ON CONFLICT DO NOTHING\<close> adds the row unless one with the same unique columns exists.\<close>

definition insert_law :: "'db Sqlx \<Rightarrow> 'db Observer \<Rightarrow> bool" where
  "insert_law db ob \<longleftrightarrow> (\<forall>s t created deleted d r d'. validate_schema_name s = Inr () \<longrightarrow>
     execute db Tx \<lparr>sql = insert_stmt s,
       binds = map (\<lambda>c. column_value c \<lparr>pr_tuple = t, pr_created = created, pr_deleted = deleted\<rparr>)
         [ObjectType, ObjectId, RelationName, SubjectType, SubjectId, SubjectRelation, CreatedTxId, DeletedTxId]\<rparr> d
       = (r, d') \<longrightarrow>
     same_elsewhere ob s d d' \<and>
     (is_ok r \<longrightarrow> rows ob s Tx d' =
        insert_row \<lparr>pr_tuple = t, pr_created = created, pr_deleted = deleted\<rparr> (rows ob s Tx d)))"

text \<open>\<open>nextval\<close> advances the sequence, inside or outside a transaction; it is a \<open>BIGINT\<close>.\<close>

definition nextval_law :: "'db Sqlx \<Rightarrow> 'db Observer \<Rightarrow> bool" where
  "nextval_law db ob \<longleftrightarrow> (\<forall>s d r d'. validate_schema_name s = Inr () \<longrightarrow>
     fetch_one_i64 db Tx \<lparr>sql = nextval_stmt s, binds = []\<rparr> d = (r, d') \<longrightarrow>
     (\<forall>s' c. rows ob s' c d' = rows ob s' c d) \<and> (\<forall>s'. s' \<noteq> s \<longrightarrow> last_tx ob s' d' = last_tx ob s' d) \<and>
     (case r of
        Inr n \<Rightarrow> n = last_tx ob s d + 1 \<and> last_tx ob s d' = n \<and> n \<le> ACTIVE_TX_ID_i64
      | Inl e \<Rightarrow> last_tx ob s d \<le> last_tx ob s d' \<and> last_tx ob s d' \<le> max (last_tx ob s d) ACTIVE_TX_ID_i64))"

text \<open>Reading the sequence.\<close>

definition current_law :: "'db Sqlx \<Rightarrow> 'db Observer \<Rightarrow> bool" where
  "current_law db ob \<longleftrightarrow> (\<forall>s d n. validate_schema_name s = Inr () \<longrightarrow>
     fst (fetch_one_i64 db Pool \<lparr>sql = current_stmt s, binds = []\<rparr> d) = Inr n \<longrightarrow> n = last_tx ob s d)"

text \<open>A selection returns the rows that meet every condition, in some order, at most \<open>LIMIT\<close> of them.\<close>

definition select_law :: "'db Sqlx \<Rightarrow> 'db Observer \<Rightarrow> bool" where
  "select_law db ob \<longleftrightarrow> (\<forall>s cs lim bs d out. validate_schema_name s = Inr () \<longrightarrow> cs \<noteq> [] \<longrightarrow>
     fetch_all_tuples db Pool \<lparr>sql = select_stmt s (map show_cond cs) lim, binds = bs\<rparr> d = Inr out \<longrightarrow>
     (let found = (\<lambda>q. columns_of (pr_tuple q)) ` {q \<in> rows ob s Pool d. list_all (cond_holds bs q) cs}
      in set out \<subseteq> found \<and> (lim = None \<longrightarrow> set out = found) \<and> (\<forall>n. lim = Some n \<longrightarrow> length out \<le> n)))"

text \<open>
  A transaction starts from the committed rows; a commit publishes its rows, or fails with either
  outcome; a rollback publishes nothing.
\<close>

definition transaction_law :: "'db Sqlx \<Rightarrow> 'db Observer \<Rightarrow> bool" where
  "transaction_law db ob \<longleftrightarrow>
     (\<forall>d r d' s. begin_tx db d = (r, d') \<longrightarrow>
        rows ob s Pool d' = rows ob s Pool d \<and> last_tx ob s d' = last_tx ob s d \<and>
        (is_ok r \<longrightarrow> rows ob s Tx d' = rows ob s Pool d)) \<and>
     (\<forall>d r d'. commit_tx db d = (r, d') \<longrightarrow>
        (\<forall>s. last_tx ob s d' = last_tx ob s d) \<and>
        ((\<forall>s. rows ob s Pool d' = rows ob s Tx d) \<or>
         \<not> is_ok r \<and> (\<forall>s. rows ob s Pool d' = rows ob s Pool d))) \<and>
     (\<forall>d s. rows ob s Pool (rollback_tx db d) = rows ob s Pool d \<and> last_tx ob s (rollback_tx db d) = last_tx ob s d)"

definition sql_laws :: "'db Sqlx \<Rightarrow> 'db Observer \<Rightarrow> bool" where
  "sql_laws db ob \<longleftrightarrow> update_law db ob \<and> insert_law db ob \<and> nextval_law db ob \<and> current_law db ob \<and>
     select_law db ob \<and> transaction_law db ob"

lemmas update_law_sql = update_law_def [folded statement_texts]
lemmas insert_law_sql = insert_law_def [folded statement_texts]
lemmas nextval_law_sql = nextval_law_def [folded statement_texts]
lemmas current_law_sql = current_law_def [folded statement_texts]
lemmas select_law_sql = select_law_def [folded statement_texts]

section \<open>The conditions select what the filter matches\<close>

text \<open>
  A state of the condition builder stands for a predicate on rows: its conditions are those of a list,
  \<open>bind_idx\<close> is the next free placeholder, and a row meets the conditions exactly when it satisfies
  the predicate, whatever is bound after.
\<close>

definition stands_for :: "SqlValue list \<Rightarrow> Conditions \<Rightarrow> (PgRow \<Rightarrow> bool) \<Rightarrow> bool" where
  "stands_for pre st p \<longleftrightarrow>
     (case st of (conditions, bs, bind_idx) \<Rightarrow>
        bind_idx = Suc (length (pre @ bs)) \<and>
        (\<exists>cs. cs \<noteq> [] \<and> conditions = map show_cond cs \<and>
           (\<forall>ext r. list_all (cond_holds (pre @ bs @ ext) r) cs \<longleftrightarrow> p r)))"

lemma sql_eq_text [simp]: "sql_eq x (SqlText (Some v)) \<longleftrightarrow> x = SqlText (Some v)"
  by (cases "(x, SqlText (Some v))" rule: sql_eq.cases) auto

lemma placeholder_next [simp]: "placeholder (pre @ bs @ v # ext) (Suc (length pre + length bs)) = Some v"
  by (simp add: placeholder_def nth_append)

lemma stands_for_push:
  assumes "stands_for pre st p"
  shows "stands_for pre (push_field (column_name c) field st)
    (\<lambda>r. p r \<and> (\<forall>v. field = Some v \<longrightarrow> column_value c r = SqlText (Some v)))"
proof (cases field)
  case (Some v)
  obtain conditions bs i where st: "st = (conditions, bs, i)" by (cases st)
  with assms obtain cs where i: "i = Suc (length (pre @ bs))" and cs: "conditions = map show_cond cs" "cs \<noteq> []"
    "\<And>ext r. list_all (cond_holds (pre @ bs @ ext) r) cs \<longleftrightarrow> p r" by (auto simp: stands_for_def)
  show ?thesis
    by (auto simp: stands_for_def push_field_def st Some i cs intro!: exI [of _ "cs @ [CondEq c (Suc (length (pre @ bs)))]"])
qed (use assms in \<open>simp add: push_field_def\<close>)

lemma stands_for_null:
  assumes "stands_for pre st p"
  shows "stands_for pre (push_subject_relation field st)
    (\<lambda>r. p r \<and> (\<forall>v. field = Some v \<longrightarrow> column_value SubjectRelation r = SqlText v))"
proof (cases field)
  case (Some rel)
  show ?thesis
  proof (cases rel)
    case None
    obtain conditions bs i where st: "st = (conditions, bs, i)" by (cases st)
    with assms obtain cs where i: "i = Suc (length (pre @ bs))" and cs: "conditions = map show_cond cs" "cs \<noteq> []"
      "\<And>ext r. list_all (cond_holds (pre @ bs @ ext) r) cs \<longleftrightarrow> p r" by (auto simp: stands_for_def)
    then show ?thesis
      by (auto simp: stands_for_def push_subject_relation_def st Some None
          intro!: exI [of _ "cs @ [CondNull SubjectRelation]"])
  next
    case s: (Some v)
    show ?thesis
      using stands_for_push [OF assms, of SubjectRelation "Some v"] by (simp add: push_subject_relation_def Some s)
  qed
qed (use assms in \<open>simp add: push_subject_relation_def\<close>)

lemma stands_for_filter:
  assumes "stands_for pre st p"
  shows "stands_for pre (push_filter f st) (\<lambda>r. p r \<and> matches f (pr_tuple r))"
proof -
  note p = stands_for_push
  note m = stands_for_null [OF p [OF p [OF p [OF p [OF p [OF assms, of ObjectType "f_object_type f"],
      of ObjectId "f_object_id f"], of RelationName "f_relation f"], of SubjectType "f_subject_type f"],
      of SubjectId "f_subject_id f"], of "f_subject_relation f"]
  have "(\<lambda>r. p r \<and> matches f (pr_tuple r)) = (\<lambda>r. (((((p r \<and>
      (\<forall>v. f_object_type f = Some v \<longrightarrow> column_value ObjectType r = SqlText (Some v))) \<and>
      (\<forall>v. f_object_id f = Some v \<longrightarrow> column_value ObjectId r = SqlText (Some v))) \<and>
      (\<forall>v. f_relation f = Some v \<longrightarrow> column_value RelationName r = SqlText (Some v))) \<and>
      (\<forall>v. f_subject_type f = Some v \<longrightarrow> column_value SubjectType r = SqlText (Some v))) \<and>
      (\<forall>v. f_subject_id f = Some v \<longrightarrow> column_value SubjectId r = SqlText (Some v))) \<and>
      (\<forall>v. f_subject_relation f = Some v \<longrightarrow> column_value SubjectRelation r = SqlText v))"
    by (rule ext) (auto simp: matches_def field_differs_def split: option.splits)
  with m show ?thesis by (simp add: push_filter_def)
qed

text \<open>The two \<open>WHERE\<close> clauses of the store.\<close>

lemma show_nat_one: "show_nat (Suc 0) = ''1''"
  by code_simp

lemma delete_conditions:
  obtains cs bs i where "push_filter f ([''deleted_tx_id = $1''], [], 3) = (map show_cond cs, bs, i)" "cs \<noteq> []"
    "\<And>r. list_all (cond_holds (SqlBigInt a # SqlBigInt tx # bs) r) cs \<longleftrightarrow> pr_deleted r = a \<and> matches f (pr_tuple r)"
proof -
  have "stands_for [SqlBigInt a, SqlBigInt tx] ([''deleted_tx_id = $1''], [], 3) (\<lambda>r. pr_deleted r = a)"
    by (auto simp: stands_for_def show_nat_one placeholder_def intro!: exI [of _ "[CondEq DeletedTxId 1]"])
  from stands_for_filter [OF this, of f] show thesis
    using that by (auto simp: stands_for_def split: prod.splits) (metis append_Nil2)
qed

lemma read_conditions:
  obtains cs bs i where "push_filter f ([''created_tx_id <= $1'', ''deleted_tx_id > $1''], [], 2) = (map show_cond cs, bs, i)"
    "cs \<noteq> []" "\<And>r. list_all (cond_holds (SqlBigInt v # bs) r) cs \<longleftrightarrow>
      pr_created r \<le> v \<and> v < pr_deleted r \<and> matches f (pr_tuple r)"
proof -
  have "stands_for [SqlBigInt v] ([''created_tx_id <= $1'', ''deleted_tx_id > $1''], [], 2)
      (\<lambda>r. pr_created r \<le> v \<and> v < pr_deleted r)"
    by (auto simp: stands_for_def show_nat_one placeholder_def intro!: exI [of _ "[CondLe CreatedTxId 1, CondGt DeletedTxId 1]"])
  from stands_for_filter [OF this, of f] show thesis
    using that by (auto simp: stands_for_def split: prod.splits) (metis append_Nil2)
qed

section \<open>A transaction on the rows\<close>

text \<open>The effect of the loops of \<open>write\<close> on a set of rows.\<close>

definition delete_rows :: "int \<Rightarrow> TupleFilter \<Rightarrow> PgRow set \<Rightarrow> PgRow set" where
  "delete_rows tx f R = pg_mark_deleted tx (\<lambda>r. pr_deleted r = ACTIVE_TX_ID_i64 \<and> matches f (pr_tuple r)) ` R"

definition write_row :: "int \<Rightarrow> TupleWrite \<Rightarrow> PgRow set \<Rightarrow> PgRow set" where
  "write_row tx w = insert_row \<lparr>pr_tuple = Tuple_from w, pr_created = tx, pr_deleted = ACTIVE_TX_ID_i64\<rparr>"

definition tx_rows :: "int \<Rightarrow> TupleWrite list \<Rightarrow> TupleFilter list \<Rightarrow> PgRow set \<Rightarrow> PgRow set" where
  "tx_rows tx ws ds R = fold (write_row tx) ws (fold (delete_rows tx) ds R)"

text \<open>The tuples visible at a version.\<close>

definition visible :: "int \<Rightarrow> PgRow set \<Rightarrow> Tuple set" where
  "visible v R = pr_tuple ` {r \<in> R. pr_created r \<le> v \<and> v < pr_deleted r}"

text \<open>No row is from after the version, and no row stops being visible after it except by a later delete.\<close>

definition rows_upto :: "int \<Rightarrow> PgRow set \<Rightarrow> bool" where
  "rows_upto v R \<longleftrightarrow> (\<forall>r\<in>R. pr_created r \<le> v \<and> (pr_deleted r = ACTIVE_TX_ID_i64 \<or> pr_deleted r \<le> v))"

lemma rows_upto_mono: "rows_upto v R \<Longrightarrow> v \<le> w \<Longrightarrow> rows_upto w R"
  by (force simp: rows_upto_def)

lemma pg_visible_now:
  "rows_upto v R \<Longrightarrow> v < ACTIVE_TX_ID_i64 \<Longrightarrow> visible v R = pr_tuple ` {r \<in> R. pr_deleted r = ACTIVE_TX_ID_i64}"
  by (force simp: visible_def rows_upto_def)

lemma visible_delete_rows:
  "visible v (delete_rows tx f R) = pr_tuple ` {r \<in> R. pr_created r \<le> v \<and>
     v < (if pr_deleted r = ACTIVE_TX_ID_i64 \<and> matches f (pr_tuple r) then tx else pr_deleted r)}"
proof -
  let ?m = "pg_mark_deleted tx (\<lambda>r. pr_deleted r = ACTIVE_TX_ID_i64 \<and> matches f (pr_tuple r))"
  have "{r \<in> ?m ` R. pr_created r \<le> v \<and> v < pr_deleted r} =
      ?m ` {r \<in> R. pr_created (?m r) \<le> v \<and> v < pr_deleted (?m r)}" by blast
  moreover have "pr_tuple (?m r) = pr_tuple r" "pr_created (?m r) = pr_created r"
    "pr_deleted (?m r) = (if pr_deleted r = ACTIVE_TX_ID_i64 \<and> matches f (pr_tuple r) then tx else pr_deleted r)" for r
    by (simp_all add: pg_mark_deleted_def)
  ultimately show ?thesis by (simp add: visible_def delete_rows_def image_image)
qed

lemma visible_delete_past: "v < tx \<Longrightarrow> v < ACTIVE_TX_ID_i64 \<Longrightarrow> visible v (delete_rows tx f R) = visible v R"
  unfolding visible_delete_rows by (auto simp: visible_def)

lemma visible_write_past: "v < tx \<Longrightarrow> visible v (write_row tx w R) = visible v R"
  by (auto simp: visible_def write_row_def insert_row_def)

lemma rows_upto_delete: "rows_upto tx R \<Longrightarrow> rows_upto tx (delete_rows tx f R)"
  by (auto simp: rows_upto_def delete_rows_def pg_mark_deleted_def)

lemma rows_upto_write: "rows_upto tx R \<Longrightarrow> rows_upto tx (write_row tx w R)"
  by (auto simp: rows_upto_def write_row_def insert_row_def)

lemma visible_delete:
  assumes "rows_upto tx R" "tx < ACTIVE_TX_ID_i64"
  shows "visible tx (delete_rows tx f R) = {t \<in> visible tx R. \<not> matches f t}"
  using assms unfolding visible_delete_rows pg_visible_now [OF assms] by (auto simp: rows_upto_def)

lemma visible_write:
  assumes "rows_upto tx R" "tx < ACTIVE_TX_ID_i64"
  shows "visible tx (write_row tx w R) = insert (Tuple_from w) (visible tx R)"
  unfolding pg_visible_now [OF assms] pg_visible_now [OF rows_upto_write [OF assms(1)] assms(2)]
  by (auto simp: write_row_def insert_row_def image_iff intro: sym)
    (rule exI [of _ "\<lparr>pr_tuple = Tuple_from w, pr_created = tx, pr_deleted = ACTIVE_TX_ID_i64\<rparr>"], simp)

lemma deletes_rows:
  assumes "rows_upto tx R" "tx < ACTIVE_TX_ID_i64"
  shows "rows_upto tx (fold (delete_rows tx) ds R) \<and>
    visible tx (fold (delete_rows tx) ds R) = {t \<in> visible tx R. \<not> selected ds t} \<and>
    (\<forall>v<tx. visible v (fold (delete_rows tx) ds R) = visible v R)"
  using assms(1)
proof (induction ds arbitrary: R)
  case (Cons f ds)
  from Cons.IH [OF rows_upto_delete [OF Cons.prems, of f]] Cons.prems assms(2) show ?case
    by (auto simp: visible_delete visible_delete_past selected_def)
qed (simp add: selected_def)

lemma writes_rows:
  assumes "rows_upto tx R" "tx < ACTIVE_TX_ID_i64"
  shows "rows_upto tx (fold (write_row tx) ws R) \<and>
    visible tx (fold (write_row tx) ws R) = visible tx R \<union> Tuple_from ` set ws \<and>
    (\<forall>v<tx. visible v (fold (write_row tx) ws R) = visible v R)"
  using assms(1)
proof (induction ws arbitrary: R)
  case (Cons w ws)
  from Cons.IH [OF rows_upto_write [OF Cons.prems, of w]] Cons.prems assms(2) show ?case
    by (auto simp: visible_write visible_write_past)
qed simp

text \<open>A whole write: what is visible at its version, that the past stays, and that it is the last version.\<close>

lemma tx_rows_effect:
  assumes "rows_upto v R" "v + 1 < ACTIVE_TX_ID_i64"
  shows "rows_upto (v + 1) (tx_rows (v + 1) ws ds R)"
    and "visible (v + 1) (tx_rows (v + 1) ws ds R) = {t \<in> visible v R. \<not> selected ds t} \<union> Tuple_from ` set ws"
    and "u \<le> v \<Longrightarrow> visible u (tx_rows (v + 1) ws ds R) = visible u R"
proof -
  note u = rows_upto_mono [OF assms(1), of "v + 1", simplified]
  have now: "visible (v + 1) R = visible v R" using pg_visible_now [OF u] pg_visible_now [OF assms(1)] assms(2) by simp
  note d = deletes_rows [OF u assms(2), of ds]
  note w = writes_rows [OF conjunct1 [OF d] assms(2), of ws]
  from d w now show "rows_upto (v + 1) (tx_rows (v + 1) ws ds R)"
    "visible (v + 1) (tx_rows (v + 1) ws ds R) = {t \<in> visible v R. \<not> selected ds t} \<union> Tuple_from ` set ws"
    "u \<le> v \<Longrightarrow> visible u (tx_rows (v + 1) ws ds R) = visible u R"
    by (simp_all add: tx_rows_def)
qed

section \<open>The store on a database that obeys the laws\<close>

definition pg_inv :: "'db Observer \<Rightarrow> string \<Rightarrow> 'db \<Rightarrow> bool" where
  "pg_inv ob s d \<longleftrightarrow> 0 \<le> last_tx ob s d \<and> last_tx ob s d \<le> ACTIVE_TX_ID_i64 \<and>
     rows_upto (last_tx ob s d) (rows ob s Pool d)"

abbreviation pg_view :: "'db Observer \<Rightarrow> string \<Rightarrow> 'db \<Rightarrow> int \<Rightarrow> Tuple set" where
  "pg_view ob s d v \<equiv> visible v (rows ob s Pool d)"

lemma run_then_simps [simp]:
  "run_then (Inl e, s) k = (Inl e, s)" "run_then (Inr a, s) k = k a s"
  by (simp_all add: run_then_def)

lemma same_elsewhere_trans: "same_elsewhere ob s d d1 \<Longrightarrow> same_elsewhere ob s d1 d2 \<Longrightarrow> same_elsewhere ob s d d2"
  by (simp add: same_elsewhere_def)

lemma same_elsewhere_refl: "same_elsewhere ob s d d"
  by (simp add: same_elsewhere_def)

lemma delete_matching_tuples_effect:
  assumes l: "sql_laws db ob" "validate_schema_name s = Inr ()"
    and e: "delete_matching_tuples db Tx s f tx d = (r, d')"
  shows "same_elsewhere ob s d d' \<and> (is_ok r \<longrightarrow> rows ob s Tx d' = delete_rows tx f (rows ob s Tx d))"
proof -
  obtain cs bs i where p: "push_filter f ([''deleted_tx_id = $1''], [], 3) = (map show_cond cs, bs, i)" "cs \<noteq> []"
    "\<And>q. list_all (cond_holds (SqlBigInt ACTIVE_TX_ID_i64 # SqlBigInt tx # bs) q) cs \<longleftrightarrow>
      pr_deleted q = ACTIVE_TX_ID_i64 \<and> matches f (pr_tuple q)"
    by (rule delete_conditions) blast
  obtain r0 where x: "execute db Tx \<lparr>sql = update_sql s (map show_cond cs),
      binds = SqlBigInt ACTIVE_TX_ID_i64 # SqlBigInt tx # bs\<rparr> d = (r0, d')"
    and r: "is_ok r = is_ok r0"
    using e by (auto simp: delete_matching_tuples_def p(1) split: prod.splits) (metis and_then.simps is_ok.simps map_err.simps sum.exhaust)
  from l have "update_law db ob" by (simp add: sql_laws_def)
  with l(2) p(2,3) x r show ?thesis by (simp add: update_law_sql delete_rows_def)
qed

lemma insert_tuple_effect:
  assumes l: "sql_laws db ob" "validate_schema_name s = Inr ()"
    and e: "insert_tuple db Tx s w tx d = (r, d')"
  shows "same_elsewhere ob s d d' \<and> (is_ok r \<longrightarrow> rows ob s Tx d' = write_row tx w (rows ob s Tx d))"
proof -
  let ?row = "\<lparr>pr_tuple = Tuple_from w, pr_created = tx, pr_deleted = ACTIVE_TX_ID_i64\<rparr>"
  obtain r0 where x: "execute db Tx \<lparr>sql = insert_sql s, binds = map (\<lambda>c. column_value c ?row)
      [ObjectType, ObjectId, RelationName, SubjectType, SubjectId, SubjectRelation, CreatedTxId, DeletedTxId]\<rparr> d = (r0, d')"
    and r: "is_ok r = is_ok r0"
    using e by (auto simp: insert_tuple_def Tuple_from_def Tuple_new_def split: prod.splits)
      (metis and_then.simps is_ok.simps map_err.simps sum.exhaust)
  from l have "insert_law db ob" by (simp add: sql_laws_def)
  with l(2) x r show ?thesis unfolding insert_law_sql write_row_def by blast
qed

lemma delete_all_effect:
  assumes l: "sql_laws db ob" "validate_schema_name s = Inr ()"
  shows "delete_all db s fs tx d = (r, d') \<Longrightarrow>
    same_elsewhere ob s d d' \<and> (is_ok r \<longrightarrow> rows ob s Tx d' = fold (delete_rows tx) fs (rows ob s Tx d))"
proof (induction fs arbitrary: d)
  case (Cons f fs)
  obtain r1 d1 where e: "delete_matching_tuples db Tx s f tx d = (r1, d1)" by fastforce
  note E = delete_matching_tuples_effect [OF l e]
  show ?case
  proof (cases r1)
    case (Inl x)
    with Cons.prems e have "r = Inl x \<and> d' = d1" by simp
    with E show ?thesis by simp
  next
    case (Inr x)
    with Cons.IH [of d1] Cons.prems e E same_elsewhere_trans [of ob s d d1 d'] show ?thesis by simp
  qed
qed (simp add: same_elsewhere_refl)

lemma insert_all_effect:
  assumes l: "sql_laws db ob" "validate_schema_name s = Inr ()"
  shows "insert_all db s ws tx d = (r, d') \<Longrightarrow>
    same_elsewhere ob s d d' \<and> (is_ok r \<longrightarrow> rows ob s Tx d' = fold (write_row tx) ws (rows ob s Tx d))"
proof (induction ws arbitrary: d)
  case (Cons w ws)
  obtain r1 d1 where e: "insert_tuple db Tx s w tx d = (r1, d1)" by fastforce
  note E = insert_tuple_effect [OF l e]
  show ?case
  proof (cases r1)
    case (Inl x)
    with Cons.prems e have "r = Inl x \<and> d' = d1" by simp
    with E show ?thesis by simp
  next
    case (Inr x)
    with Cons.IH [of d1] Cons.prems e E same_elsewhere_trans [of ob s d d1 d'] show ?thesis by simp
  qed
qed (simp add: same_elsewhere_refl)

lemma next_tx_id_effect:
  assumes l: "sql_laws db ob" "validate_schema_name s = Inr ()" and e: "next_tx_id db Tx s d = (r, d')"
  shows "rows ob s' c d' = rows ob s' c d" "s' \<noteq> s \<Longrightarrow> last_tx ob s' d' = last_tx ob s' d"
    "last_tx ob s d \<le> last_tx ob s d'" "last_tx ob s d' \<le> max (last_tx ob s d) ACTIVE_TX_ID_i64"
    "r = Inr n \<Longrightarrow> n = last_tx ob s d + 1 \<and> last_tx ob s d' = n \<and> n < ACTIVE_TX_ID_i64"
proof -
  obtain r0 d0 where x: "fetch_one_i64 db Tx \<lparr>sql = nextval_sql s, binds = []\<rparr> d = (r0, d0)" by fastforce
  have d: "d' = d0" using e x by (auto simp: next_tx_id_def split: sum.splits if_splits)
  from l have "nextval_law db ob" by (simp add: sql_laws_def)
  with l(2) x d have f: "\<And>s' c. rows ob s' c d' = rows ob s' c d" "\<And>s'. s' \<noteq> s \<Longrightarrow> last_tx ob s' d' = last_tx ob s' d"
    and c: "case r0 of Inr n \<Rightarrow> n = last_tx ob s d + 1 \<and> last_tx ob s d' = n \<and> n \<le> ACTIVE_TX_ID_i64
      | Inl e \<Rightarrow> last_tx ob s d \<le> last_tx ob s d' \<and> last_tx ob s d' \<le> max (last_tx ob s d) ACTIVE_TX_ID_i64"
    unfolding nextval_law_sql by blast+
  show "rows ob s' c d' = rows ob s' c d" "s' \<noteq> s \<Longrightarrow> last_tx ob s' d' = last_tx ob s' d" by (simp_all add: f)
  show "last_tx ob s d \<le> last_tx ob s d'" "last_tx ob s d' \<le> max (last_tx ob s d) ACTIVE_TX_ID_i64"
    using c by (simp_all split: sum.splits)
  show "r = Inr n \<Longrightarrow> n = last_tx ob s d + 1 \<and> last_tx ob s d' = n \<and> n < ACTIVE_TX_ID_i64"
    using e x c by (auto simp: next_tx_id_def split: sum.splits if_splits)
qed

text \<open>
  Inside the transaction: nothing is published, the sequence moves by at most what the draw moved it,
  and if every statement succeeded the transaction sees the whole effect.
\<close>

lemma write_in_tx_effect:
  assumes l: "sql_laws db ob" "validate_schema_name s = Inr ()" and e: "write_in_tx db s ws ds d = (r, d')"
  shows "rows ob s' Pool d' = rows ob s' Pool d" "s' \<noteq> s \<Longrightarrow> rows ob s' Tx d' = rows ob s' Tx d"
    "s' \<noteq> s \<Longrightarrow> last_tx ob s' d' = last_tx ob s' d"
    "last_tx ob s d \<le> last_tx ob s d'" "last_tx ob s d' \<le> max (last_tx ob s d) ACTIVE_TX_ID_i64"
    "r = Inr n \<Longrightarrow> n = last_tx ob s d + 1 \<and> last_tx ob s d' = n \<and> n < ACTIVE_TX_ID_i64 \<and>
      rows ob s Tx d' = tx_rows n ws ds (rows ob s Tx d)"
proof -
  obtain r1 d1 where n: "next_tx_id db Tx s d = (r1, d1)" by fastforce
  note N = next_tx_id_effect [OF l n]
  have "same_elsewhere ob s d1 d' \<and> (\<forall>n. r = Inr n \<longrightarrow> r1 = Inr n \<and> rows ob s Tx d' = tx_rows n ws ds (rows ob s Tx d1))"
  proof (cases r1)
    case (Inr tx)
    obtain r2 d2 where dl: "delete_all db s ds tx d1 = (r2, d2)" by fastforce
    obtain r3 d3 where i: "insert_all db s ws tx d2 = (r3, d3)" by fastforce
    from e n Inr dl i delete_all_effect [OF l dl] insert_all_effect [OF l i] show ?thesis
      by (cases r2; cases r3) (auto simp: write_in_tx_def tx_rows_def intro: same_elsewhere_trans)
  qed (use e n in \<open>auto simp: write_in_tx_def same_elsewhere_refl\<close>)
  with N show "rows ob s' Pool d' = rows ob s' Pool d" "s' \<noteq> s \<Longrightarrow> rows ob s' Tx d' = rows ob s' Tx d"
    "s' \<noteq> s \<Longrightarrow> last_tx ob s' d' = last_tx ob s' d"
    "last_tx ob s d \<le> last_tx ob s d'" "last_tx ob s d' \<le> max (last_tx ob s d) ACTIVE_TX_ID_i64"
    "r = Inr n \<Longrightarrow> n = last_tx ob s d + 1 \<and> last_tx ob s d' = n \<and> n < ACTIVE_TX_ID_i64 \<and>
      rows ob s Tx d' = tx_rows n ws ds (rows ob s Tx d)"
    by (simp_all add: same_elsewhere_def)
qed

lemma pg_write_cases:
  assumes l: "sql_laws db ob" "validate_schema_name s = Inr ()" and e: "pg_write db s d ws ds = (r, d')"
  obtains (published) "rows ob s Pool d' = tx_rows (last_tx ob s d + 1) ws ds (rows ob s Pool d)"
      "last_tx ob s d' = last_tx ob s d + 1" "last_tx ob s d' < ACTIVE_TX_ID_i64"
      "\<And>tok. r = Inr tok \<Longrightarrow> tok = SnapshotToken (word_of_int (last_tx ob s d + 1))"
      "\<And>s'. s' \<noteq> s \<Longrightarrow> rows ob s' Pool d' = rows ob s' Pool d \<and> last_tx ob s' d' = last_tx ob s' d"
    | (unpublished) "\<not> is_ok r" "rows ob s Pool d' = rows ob s Pool d"
      "last_tx ob s d \<le> last_tx ob s d'" "last_tx ob s d' \<le> max (last_tx ob s d) ACTIVE_TX_ID_i64"
      "\<And>s'. s' \<noteq> s \<Longrightarrow> rows ob s' Pool d' = rows ob s' Pool d \<and> last_tx ob s' d' = last_tx ob s' d"
proof (cases "list_ex (\<lambda>f. \<not> has_any_field f) ds")
  case True
  with e show thesis by (intro unpublished) (auto simp: pg_write_def)
next
  case ok: False
  from l have t: "transaction_law db ob" by (simp add: sql_laws_def)
  obtain rb d1 where b: "begin_tx db d = (rb, d1)" by fastforce
  from t b have B: "\<And>s. rows ob s Pool d1 = rows ob s Pool d \<and> last_tx ob s d1 = last_tx ob s d \<and>
      (is_ok rb \<longrightarrow> rows ob s Tx d1 = rows ob s Pool d)" unfolding transaction_law_def by blast
  obtain rw d2 where w: "write_in_tx db s ws ds d1 = (rw, d2)" by fastforce
  note W = write_in_tx_effect [OF l w]
  obtain rc d3 where c: "commit_tx db d2 = (rc, d3)" by fastforce
  from t c have C: "\<And>s. last_tx ob s d3 = last_tx ob s d2"
      "(\<forall>s. rows ob s Pool d3 = rows ob s Tx d2) \<or> \<not> is_ok rc \<and> (\<forall>s. rows ob s Pool d3 = rows ob s Pool d2)"
    unfolding transaction_law_def by blast+
  from t have R: "\<And>s. rows ob s Pool (rollback_tx db d2) = rows ob s Pool d2 \<and> last_tx ob s (rollback_tx db d2) = last_tx ob s d2"
    unfolding transaction_law_def by blast
  consider (unopened) "\<not> is_ok r" "d' = d1"
    | (rolled) "is_ok rb" "\<not> is_ok rw" "\<not> is_ok r" "d' = rollback_tx db d2"
    | (commit) n where "is_ok rb" "rw = Inr n" "d' = d3"
        "r = and_then (map_err Internal rc) (\<lambda>_. Inr (SnapshotToken (word_of_int n)))"
    using e ok b w c by (cases rb; cases rw; cases rc) (auto simp: pg_write_def)
  then show thesis
  proof cases
    case unopened
    with B show thesis by (intro unpublished) simp_all
  next
    case rolled
    with B W R show thesis by (intro unpublished) simp_all
  next
    case (commit n)
    from W(6) [OF commit(2)] B commit(1) have N: "n = last_tx ob s d + 1" "last_tx ob s d2 = n" "n < ACTIVE_TX_ID_i64"
      "rows ob s Tx d2 = tx_rows n ws ds (rows ob s Pool d)" by simp_all
    have K: "tok = SnapshotToken (word_of_int (last_tx ob s d + 1))" if "r = Inr tok" for tok
      using that commit(4) N(1) by (cases rc) simp_all
    from C(2) show thesis
    proof
      assume "\<forall>s. rows ob s Pool d3 = rows ob s Tx d2"
      with N C(1) W(2,3) B commit(1,3) K show thesis by (intro published) simp_all
    next
      assume "\<not> is_ok rc \<and> (\<forall>s. rows ob s Pool d3 = rows ob s Pool d2)"
      with N C(1) W B commit show thesis by (intro unpublished) (auto elim: is_ok.elims)
    qed
  qed
qed

section \<open>Properties of the store\<close>

text \<open>What a write did to the versions of a tenant.\<close>

definition pg_written :: "'db Observer \<Rightarrow> string \<Rightarrow> TupleWrite list \<Rightarrow> TupleFilter list \<Rightarrow> 'db \<Rightarrow> 'db \<Rightarrow> bool" where
  "pg_written ob s ws ds d d' \<longleftrightarrow> last_tx ob s d' = last_tx ob s d + 1 \<and>
     pg_view ob s d' (last_tx ob s d') =
       {t \<in> pg_view ob s d (last_tx ob s d). \<not> selected ds t} \<union> Tuple_from ` set ws \<and>
     (\<forall>v\<le>last_tx ob s d. pg_view ob s d' v = pg_view ob s d v)"

lemma word_of_tx:
  "0 \<le> n \<Longrightarrow> n \<le> ACTIVE_TX_ID_i64 \<Longrightarrow> uint (word_of_int n :: u64) = n"
  by (simp add: uint_word_of_int_eq ACTIVE_TX_ID_i64_def take_bit_int_eq_self)

lemma sint_tx: "uint (w :: u64) \<le> ACTIVE_TX_ID_i64 \<Longrightarrow> sint w = uint w"
  unfolding sint_uint by (rule signed_take_bit_int_eq_self) (simp_all add: ACTIVE_TX_ID_i64_def order.trans [OF _ uint_ge_0])

lemma pg_write_versions:
  assumes "sql_laws db ob" "validate_schema_name s = Inr ()" "pg_inv ob s d" "pg_write db s d ws ds = (r, d')"
  shows "pg_inv ob s d'"
    and "r = Inr tok \<Longrightarrow> uint (value_of tok) = last_tx ob s d'"
    and "pg_written ob s ws ds d d' \<or> \<not> is_ok r \<and> pg_view ob s d' = pg_view ob s d"
    and "s' \<noteq> s \<Longrightarrow> pg_view ob s' d' = pg_view ob s' d \<and> last_tx ob s' d' = last_tx ob s' d"
proof -
  from assms(3) have i: "0 \<le> last_tx ob s d" "last_tx ob s d \<le> ACTIVE_TX_ID_i64"
    "rows_upto (last_tx ob s d) (rows ob s Pool d)" by (simp_all add: pg_inv_def)
  have "pg_inv ob s d' \<and> (\<forall>tok. r = Inr tok \<longrightarrow> uint (value_of tok) = last_tx ob s d') \<and>
    (pg_written ob s ws ds d d' \<or> \<not> is_ok r \<and> pg_view ob s d' = pg_view ob s d) \<and>
    (\<forall>s'. s' \<noteq> s \<longrightarrow> pg_view ob s' d' = pg_view ob s' d \<and> last_tx ob s' d' = last_tx ob s' d)"
    using assms(1,2,4)
  proof (cases rule: pg_write_cases)
    case published
    from published(2,3) have a: "last_tx ob s d + 1 < ACTIVE_TX_ID_i64" by simp
    note E = tx_rows_effect [OF i(3) a]
    have "pg_inv ob s d'" using E(1) published(1-3) i(1) by (simp add: pg_inv_def)
    moreover have "pg_written ob s ws ds d d'" using E(2,3) published(1,2) by (simp add: pg_written_def)
    moreover have "uint (value_of tok) = last_tx ob s d'" if "r = Inr tok" for tok
      using published(4) [OF that] published(2) i(1) a word_of_tx [of "last_tx ob s d + 1"] by simp
    ultimately show ?thesis using published(5) by simp
  next
    case unpublished
    from i unpublished(2-4) have "pg_inv ob s d'" by (auto simp: pg_inv_def intro: rows_upto_mono)
    with unpublished show ?thesis by auto
  qed
  then show "pg_inv ob s d'" "r = Inr tok \<Longrightarrow> uint (value_of tok) = last_tx ob s d'"
    "pg_written ob s ws ds d d' \<or> \<not> is_ok r \<and> pg_view ob s d' = pg_view ob s d"
    "s' \<noteq> s \<Longrightarrow> pg_view ob s' d' = pg_view ob s' d \<and> last_tx ob s' d' = last_tx ob s' d"
    by blast+
qed

text \<open>
  C38. A write of the PostgreSQL store is all or nothing, whatever statement fails: when it answers, the
  token names the new version, which holds the tuples of the last one without the deleted and with the
  written ones, and every earlier version is as before; when it reports an error, either nothing visible
  changed or, the commit itself having failed, all of it did. No other tenant is touched.
\<close>

theorem pg_write_atomic:
  assumes "sql_laws db ob" "pg_inv ob (schema_name_for_tenant t) d"
    and "pg_write db (schema_name_for_tenant t) d ws ds = (r, d')" "u \<noteq> t"
  shows "pg_inv ob (schema_name_for_tenant t) d' \<and>
    (case r of
       Inr tok \<Rightarrow> uint (value_of tok) = last_tx ob (schema_name_for_tenant t) d' \<and>
         pg_written ob (schema_name_for_tenant t) ws ds d d'
     | Inl e \<Rightarrow> pg_written ob (schema_name_for_tenant t) ws ds d d' \<or>
         pg_view ob (schema_name_for_tenant t) d' = pg_view ob (schema_name_for_tenant t) d) \<and>
    pg_view ob (schema_name_for_tenant u) d' = pg_view ob (schema_name_for_tenant u) d \<and>
    last_tx ob (schema_name_for_tenant u) d' = last_tx ob (schema_name_for_tenant u) d"
  using pg_write_versions [OF assms(1) schema_name_valid assms(2,3)] assms(4) by (cases r) auto

section \<open>Reads\<close>

lemma tuple_of_columns_of [simp]: "tuple_of_columns (columns_of t) = t"
  by (auto simp: tuple_of_columns_def columns_of_def Tuple_new_def ObjectRef_new_def direct_def userset_def split: option.splits)

lemma read_tuples_effect:
  assumes "sql_laws db ob" "validate_schema_name s = Inr ()" "read_tuples db Pool s f v None d = Inr ts"
  shows "set ts = {x \<in> pg_view ob s d v. matches f x}"
proof -
  obtain cs bs i where p: "push_filter f ([''created_tx_id <= $1'', ''deleted_tx_id > $1''], [], 2) = (map show_cond cs, bs, i)"
    "cs \<noteq> []" "\<And>r. list_all (cond_holds (SqlBigInt v # bs) r) cs \<longleftrightarrow>
      pr_created r \<le> v \<and> v < pr_deleted r \<and> matches f (pr_tuple r)"
    by (rule read_conditions) blast
  from assms(3) obtain out where o: "fetch_all_tuples db Pool \<lparr>sql = select_sql s (map show_cond cs) None,
      binds = SqlBigInt v # bs\<rparr> d = Inr out" and t: "ts = map tuple_of_columns out"
    by (auto simp: read_tuples_def p(1) and_then_Inr_iff)
  from assms(1) have "select_law db ob" by (simp add: sql_laws_def)
  with assms(2) p(2) o have "set out = (\<lambda>q. columns_of (pr_tuple q)) `
      {q \<in> rows ob s Pool d. list_all (cond_holds (SqlBigInt v # bs) q) cs}"
    unfolding select_law_sql Let_def by blast
  then show ?thesis by (auto simp: t visible_def p(3) image_image)
qed

lemma current_tx_id_effect:
  assumes "sql_laws db ob" "validate_schema_name s = Inr ()" "current_tx_id db Pool s d = Inr n"
  shows "n = last_tx ob s d"
  using assms by (simp add: sql_laws_def current_law_sql current_tx_id_def)

text \<open>The snapshot a read uses, where its token is not ahead of the sequence.\<close>

lemma pg_read_snapshot_effect:
  assumes l: "sql_laws db ob" and v: "validate_schema_name s = Inr ()" and i: "pg_inv ob s d"
    and t: "snap = None \<or> uint (value_of (the snap)) \<le> last_tx ob s d"
  shows "(\<exists>m. pg_read_snapshot db s snap d = Inl (Internal m)) \<or>
    pg_read_snapshot db s snap d = Inr (case snap of Some tok \<Rightarrow> uint (value_of tok) | None \<Rightarrow> last_tx ob s d)"
proof (cases "current_tx_id db Pool s d")
  case (Inl e)
  then have "\<exists>m. e = Internal m" by (auto simp: current_tx_id_def map_err_Inl_iff to_storage_error_def)
  with Inl show ?thesis by (auto simp: pg_read_snapshot_def split: option.splits)
next
  case (Inr n)
  note n = current_tx_id_effect [OF l v Inr]
  from i have b: "0 \<le> n" "n \<le> ACTIVE_TX_ID_i64" by (simp_all add: pg_inv_def n)
  show ?thesis
  proof (cases snap)
    case (Some tok)
    with t have le: "uint (value_of tok) \<le> n" by (simp add: n)
    then have "\<not> word_of_int n < value_of tok" using word_of_tx [OF b] by (simp add: word_less_def)
    moreover from le b(2) have "sint (value_of tok) = uint (value_of tok)" by (intro sint_tx) simp
    ultimately show ?thesis by (simp add: pg_read_snapshot_def Some Inr)
  qed (simp add: pg_read_snapshot_def Inr n)
qed

lemma pg_read_effect:
  assumes "sql_laws db ob" "validate_schema_name s = Inr ()" "pg_inv ob s d"
    and "snap = None \<or> uint (value_of (the snap)) \<le> last_tx ob s d"
  shows "case pg_read db s d f snap None of
      Inr ts \<Rightarrow> set ts = {x \<in> pg_view ob s d (case snap of Some tok \<Rightarrow> uint (value_of tok) | None \<Rightarrow> last_tx ob s d). matches f x}
    | Inl e \<Rightarrow> \<exists>m. e = Internal m"
proof -
  let ?v = "case snap of Some tok \<Rightarrow> uint (value_of tok) | None \<Rightarrow> last_tx ob s d"
  have "\<exists>m. e = Internal m" if "read_tuples db Pool s f ?v None d = Inl e" for e
    using that by (auto simp: read_tuples_def and_then_Inl_iff map_err_Inl_iff to_storage_error_def split: prod.splits)
  then show ?thesis
    using pg_read_snapshot_effect [OF assms] read_tuples_effect [OF assms(1,2), of f ?v d]
    by (auto simp: pg_read_def split: sum.splits)
qed

text \<open>
  C39. Read your writes with the PostgreSQL store: a read without limit at the token of a write that
  answered, on the database as the write left it, returns exactly the matching tuples of the new version,
  that is of the version before without the deleted and with the written tuples; it never finds its token
  ahead, and fails only when a statement does.
\<close>

theorem pg_read_own_write:
  assumes "sql_laws db ob" "pg_inv ob (schema_name_for_tenant t) d"
    and "pg_write db (schema_name_for_tenant t) d ws ds = (Inr tok, d')"
  shows "case pg_read db (schema_name_for_tenant t) d' f (Some tok) None of
      Inr ts \<Rightarrow> set ts = {x. matches f x \<and>
        (x \<in> pg_view ob (schema_name_for_tenant t) d (last_tx ob (schema_name_for_tenant t) d) \<and> \<not> selected ds x \<or>
         x \<in> Tuple_from ` set ws)}
    | Inl e \<Rightarrow> \<exists>m. e = Internal m"
proof -
  let ?s = "schema_name_for_tenant t"
  note W = pg_write_versions [OF assms(1) schema_name_valid assms(2,3)]
  have "uint (value_of tok) = last_tx ob ?s d'" "pg_written ob ?s ws ds d d'" using W(2) [OF refl] W(3) by simp_all
  with pg_read_effect [OF assms(1) schema_name_valid W(1), of "Some tok" f] show ?thesis
    by (auto simp: pg_written_def split: sum.splits)
qed

text \<open>
  A token is handed out before its version is complete: the sequence is outside the transaction, so from
  the draw of a write's number until its commit, another connection that asks for the snapshot gets the
  number of the write, and a read at that token answers the tuples from before the write.
\<close>

lemma pg_token_before_commit:
  assumes l: "sql_laws db ob" and v: "validate_schema_name s = Inr ()" and i: "pg_inv ob s d"
    and b: "begin_tx db d = (Inr x, d1)" and n: "next_tx_id db Tx s d1 = (Inr tx, d2)"
    and t: "pg_snapshot db s d2 = Inr tok"
  shows "uint (value_of tok) = last_tx ob s d + 1 \<and> pg_view ob s d2 (uint (value_of tok)) = pg_view ob s d (last_tx ob s d)"
proof -
  from l b have B: "rows ob s Pool d1 = rows ob s Pool d" "last_tx ob s d1 = last_tx ob s d"
    unfolding sql_laws_def transaction_law_def by blast+
  note N = next_tx_id_effect [OF l v n]
  have c: "last_tx ob s d2 = last_tx ob s d + 1" "last_tx ob s d + 1 < ACTIVE_TX_ID_i64" using N(5) [OF refl] B(2) by simp_all
  from t obtain m where "current_tx_id db Pool s d2 = Inr m" "value_of tok = word_of_int m"
    by (auto simp: pg_snapshot_def and_then_Inr_iff)
  with current_tx_id_effect [OF l v] c(1) have "value_of tok = word_of_int (last_tx ob s d + 1)" by metis
  with i c(2) have u: "uint (value_of tok) = last_tx ob s d + 1"
    using word_of_tx [of "last_tx ob s d + 1"] by (simp add: pg_inv_def)
  from i have up: "rows_upto (last_tx ob s d) (rows ob s Pool d)" by (simp add: pg_inv_def)
  have "rows_upto (last_tx ob s d + 1) (rows ob s Pool d)" by (rule rows_upto_mono [OF up]) simp
  from pg_visible_now [OF this c(2)] pg_visible_now [OF up] c(2) show ?thesis by (simp add: u N(1) B(1))
qed

end
