(* ===== verification/Fallible_Stores.thy ===== *)
theory Fallible_Stores
  imports Service_Machine
begin

text \<open>
  The service over stores whose operations may fail and that promise the tuples of a version as a set.
  Every operation of such a store may return an error; an error of a write leaves all of it or none, an
  error of a schema write leaves the stored text. That is enough for the decisions of the service: in every
  reachable state a check that answers, from a cache or not, decides the permission by the schema stored
  last over the tuples of the version it names. The in-memory factory is such a store, and so is the
  PostgreSQL one (\<open>Postgres_Service\<close>).
\<close>

section \<open>The contract\<close>

locale fallible_stores =
  fixes F :: "'f StoreFactory"
    and handle :: "TenantId \<Rightarrow> 'f Store"
    and current :: "TenantId \<Rightarrow> 'f \<Rightarrow> u64"
    and tuples_at :: "TenantId \<Rightarrow> 'f \<Rightarrow> u64 \<Rightarrow> Tuple set"
    and schema_text :: "TenantId \<Rightarrow> 'f \<Rightarrow> string option"
    and inv :: "'f \<Rightarrow> bool"
    and ready :: "TenantId \<Rightarrow> 'f \<Rightarrow> bool"
  assumes open_handle: "inv f \<Longrightarrow> fst (for_tenant F f t) = handle t"
    and open_ready: "inv f \<Longrightarrow> inv (snd (for_tenant F f t)) \<and> ready t (snd (for_tenant F f t))"
    and open_same: "inv f \<Longrightarrow> current u (snd (for_tenant F f t)) = current u f \<and>
      tuples_at u (snd (for_tenant F f t)) = tuples_at u f \<and> schema_text u (snd (for_tenant F f t)) = schema_text u f"
    and read_answer: "inv f \<Longrightarrow> store_read (handle t) f flt snap None = Inr ts \<Longrightarrow>
      snapshot_value (current t f) snap \<le> current t f \<and>
      set ts = {x \<in> tuples_at t f (snapshot_value (current t f) snap). matches flt x}"
    and snapshot_answer: "inv f \<Longrightarrow> store_snapshot (handle t) f = Inr tok \<Longrightarrow> tok = SnapshotToken (current t f)"
    and schema_answer: "inv f \<Longrightarrow> store_read_schema (handle t) f = Inr txt \<Longrightarrow> txt = schema_text t f"
    and write_effect: "inv f \<Longrightarrow> ready t f \<Longrightarrow> tx_room (current t f) \<Longrightarrow> store_write (handle t) f ws ds = (r, f') \<Longrightarrow>
      inv f' \<and> current t f \<le> current t f' \<and> (\<forall>v\<le>current t f. tuples_at t f' v = tuples_at t f v) \<and>
      (\<forall>u. schema_text u f' = schema_text u f) \<and>
      (\<forall>u. u \<noteq> t \<longrightarrow> current u f' = current u f \<and> tuples_at u f' = tuples_at u f)"
    and write_answer: "inv f \<Longrightarrow> ready t f \<Longrightarrow> tx_room (current t f) \<Longrightarrow> store_write (handle t) f ws ds = (Inr tok, f') \<Longrightarrow>
      value_of tok = current t f' \<and>
      tuples_at t f' (current t f') = {x \<in> tuples_at t f (current t f). \<not> selected ds x} \<union> Tuple_from ` set ws"
    and write_schema_effect: "inv f \<Longrightarrow> ready t f \<Longrightarrow> store_write_schema (handle t) f d = (r', f') \<Longrightarrow>
      inv f' \<and> (\<forall>u. current u f' = current u f \<and> tuples_at u f' = tuples_at u f) \<and>
      (\<forall>u. u \<noteq> t \<longrightarrow> schema_text u f' = schema_text u f) \<and>
      schema_text t f' = (if is_ok r' then Some d else schema_text t f)"

text \<open>The lists of a versioned store, read as sets, keep the contract.\<close>

sublocale tenant_stores \<subseteq> sets: fallible_stores F handle current "\<lambda>t f v. set (view t f v)" schema_text inv ready
proof unfold_locales
  fix f t ws ds r f'
  assume i: "inv f" "ready t f" and room: "tx_room (current t f)" and w: "store_write (handle t) f ws ds = (r, f')"
  from i have i': "inv f \<and> ready t f" by simp
  note others = write_others [OF w]
  from i' room show "inv f' \<and> current t f \<le> current t f' \<and> (\<forall>v\<le>current t f. set (view t f' v) = set (view t f v)) \<and>
      (\<forall>u. schema_text u f' = schema_text u f) \<and>
      (\<forall>u. u \<noteq> t \<longrightarrow> current u f' = current u f \<and> (\<lambda>v. set (view u f' v)) = (\<lambda>v. set (view u f v)))"
  proof (cases rule: st.write_cases [where ws = ws and ds = ds])
    case rejected
    with w i show ?thesis by simp
  next
    case (accepted g)
    with w have g: "g = f'" by simp
    have "schema_text u f' = schema_text u f" for u
      using others [of u] accepted(5) g by (cases "u = t") simp_all
    with accepted g others tx_roomD(1) [OF room] show ?thesis by (simp add: less_imp_le)
  qed
next
  fix f t ws ds tok f'
  assume i: "inv f" "ready t f" and room: "tx_room (current t f)" and w: "store_write (handle t) f ws ds = (Inr tok, f')"
  from i have i': "inv f \<and> ready t f" by simp
  from i' room show "value_of tok = current t f' \<and>
      set (view t f' (current t f')) = {x \<in> set (view t f (current t f)). \<not> selected ds x} \<union> Tuple_from ` set ws"
    by (cases rule: st.write_cases [where ws = ws and ds = ds]) (use w in \<open>auto simp: set_apply_write\<close>)
next
  fix f t d r f'
  assume i: "inv f" "ready t f" and w: "store_write_schema (handle t) f d = (r, f')"
  from i have i': "inv f \<and> ready t f" by simp
  note others = write_schema_others [OF w]
  from st.schema_written [OF i', of d] w have s: "r = Inr ()" "inv f'" "schema_text t f' = Some d"
    "current t f' = current t f" "view t f' = view t f" by auto
  have "current u f' = current u f \<and> view u f' = view u f" for u
    using others [of u] s by (cases "u = t") simp_all
  with s others show "inv f' \<and> (\<forall>u. current u f' = current u f \<and> (\<lambda>v. set (view u f' v)) = (\<lambda>v. set (view u f v))) \<and>
      (\<forall>u. u \<noteq> t \<longrightarrow> schema_text u f' = schema_text u f) \<and>
      schema_text t f' = (if is_ok r then Some d else schema_text t f)" by simp
qed (use for_tenant_ready for_tenant_same in \<open>auto simp: for_tenant_handle st.read_cases st.snapshot_current st.schema_read
  split: if_splits\<close>)

interpretation mem_sets: fallible_stores InMemoryStoreFactory tenant_handle
    "\<lambda>t stores. current_tx (tenant_state stores t)" "\<lambda>t stores v. set (mem_view (tenant_state stores t) v)"
    "\<lambda>t stores. schema_of (tenant_state stores t)" stores_inv "\<lambda>t stores. t \<in> dom stores"
  by (rule mem_factory.sets.fallible_stores_axioms)

section \<open>What a decision means\<close>

context fallible_stores
begin

definition stored_schema :: "('f, 'sc, 'cc) Env \<Rightarrow> TenantId \<Rightarrow> 'f \<Rightarrow> Schema \<Rightarrow> bool" where
  "stored_schema env t f S \<longleftrightarrow> (\<exists>txt. schema_text t f = Some txt \<and> parse_schema (env_pest_error env) txt = Inr S)"

text \<open>
  The decision on a request: the stored schema has the permission, and the answer is its least reading over
  the tuples of the version. A version that is not there yet is one the engine did not read, so the answer
  is that of any tuples.
\<close>

definition decides :: "('f, 'sc, 'cc) Env \<Rightarrow> TenantId \<Rightarrow> 'f \<Rightarrow> CheckRequest \<Rightarrow> bool \<Rightarrow> bool" where
  "decides env t f req b \<longleftrightarrow>
     (\<exists>S r. stored_schema env t f S \<and> permission_rule S (cr_object_type req) (cr_permission req) = Some r \<and>
        (plain_exclusions S \<longrightarrow>
           (\<forall>T. (snapshot_value (current t f) (cr_snapshot req) \<le> current t f \<longrightarrow>
                   T = tuples_at t f (snapshot_value (current t f) (cr_snapshot req))) \<longrightarrow>
              (b \<longleftrightarrow> granted S T (cr_subject_type req) (cr_subject_id req) r (cr_object_type req) (cr_object_id req)))))"

lemma store_source:
  assumes "inv f"
  shows "tuple_source (StoreTupleReader (handle t) f)
    (\<lambda>snap. if snapshot_value (current t f) snap \<le> current t f then tuples_at t f (snapshot_value (current t f) snap) else T)"
  by unfold_locales (auto simp: StoreTupleReader_def map_err_Inr_iff dest: read_answer [OF assms])

lemma check_decides:
  assumes i: "inv f" and S: "stored_schema env t f S"
    and c: "check (engine_at (handle t) f cfg S) req = Inr res"
  shows "decides env t f req (allowed res)"
proof -
  from c obtain r where r: "permission_rule S (cr_object_type req) (cr_permission req) = Some r"
    by (auto simp: check_def permission_rule_def result_simps)
  let ?v = "snapshot_value (current t f) (cr_snapshot req)"
  have "allowed res \<longleftrightarrow> granted S T (cr_subject_type req) (cr_subject_id req) r (cr_object_type req) (cr_object_id req)"
    if p: "plain_exclusions S" and T: "?v \<le> current t f \<Longrightarrow> T = tuples_at t f ?v" for T
  proof -
    from p have "plain_exclusions (ce_schema (engine_at (handle t) f cfg S))" by simp
    then show ?thesis
      by (rule tuple_source.check_granted [OF store_source [OF i, of t T] engine_at_sel(1) _ c]) (use T r in auto)
  qed
  with S r show ?thesis unfolding decides_def by blast
qed

text \<open>The data of every tenant as it was, and the data with newer versions.\<close>

definition same_data :: "'f \<Rightarrow> 'f \<Rightarrow> bool" where
  "same_data f f' \<longleftrightarrow> (\<forall>u. current u f' = current u f \<and> tuples_at u f' = tuples_at u f \<and> schema_text u f' = schema_text u f)"

definition newer :: "'f \<Rightarrow> 'f \<Rightarrow> bool" where
  "newer f f' \<longleftrightarrow> (\<forall>u. schema_text u f' = schema_text u f \<and> current u f \<le> current u f' \<and>
     (\<forall>v\<le>current u f. tuples_at u f' v = tuples_at u f v))"

lemma same_data_refl [simp]: "same_data f f"
  by (simp add: same_data_def)

lemma same_data_newer: "same_data f f' \<Longrightarrow> newer f f'"
  by (simp add: same_data_def newer_def)

lemma same_data_stored: "same_data f f' \<Longrightarrow> stored_schema env t f' S = stored_schema env t f S"
  by (simp add: same_data_def stored_schema_def)

lemma decides_same: "same_data f f' \<Longrightarrow> decides env t f' req b = decides env t f req b"
  by (simp add: same_data_def decides_def stored_schema_def)

text \<open>A decision at a named version is as good in every later state with the same schema.\<close>

lemma decides_newer:
  assumes n: "newer f f'" and d: "decides env t f req b" and s: "cr_snapshot req = Some snap"
  shows "decides env t f' req b"
proof -
  from n have st: "stored_schema env t f' S = stored_schema env t f S" for S by (simp add: newer_def stored_schema_def)
  from n have v: "value_of snap \<le> current t f \<Longrightarrow> value_of snap \<le> current t f' \<and>
      tuples_at t f' (value_of snap) = tuples_at t f (value_of snap)" for t
    by (metis newer_def order_trans)
  from d obtain S r where "stored_schema env t f S" "permission_rule S (cr_object_type req) (cr_permission req) = Some r"
    and g: "plain_exclusions S \<Longrightarrow> (value_of snap \<le> current t f \<Longrightarrow> T = tuples_at t f (value_of snap)) \<Longrightarrow>
      (b \<longleftrightarrow> granted S T (cr_subject_type req) (cr_subject_id req) r (cr_object_type req) (cr_object_id req))" for T
    unfolding decides_def by (auto simp: s snapshot_value_def)
  then show ?thesis unfolding decides_def st
    by (intro exI [of _ S] exI [of _ r]) (use v in \<open>auto simp: s snapshot_value_def\<close>)
qed

section \<open>The invariant of the service\<close>

definition sound :: "('f, 'sc, 'cc) Env \<Rightarrow> ('sc \<Rightarrow> TenantId \<rightharpoonup> Schema) \<Rightarrow> ('cc \<Rightarrow> CheckCacheKey \<rightharpoonup> bool) \<Rightarrow>
    ('f, 'sc, 'cc) AuthzService \<Rightarrow> bool" where
  "sound env K C svc \<longleftrightarrow> env_factory env = F \<and> cache_laws (env_schema_cache env) K \<and>
     cache_laws (env_check_cache env) C \<and> inv (factory svc) \<and>
     (\<forall>t S. K (schema_cache svc) t = Some S \<longrightarrow> stored_schema env t (factory svc) S) \<and>
     (\<forall>k b. C (check_cache svc) k = Some b \<longrightarrow> decides env (cck_tenant_id k) (factory svc) (key_request k) b)"

lemma soundD:
  assumes "sound env K C svc"
  shows "env_factory env = F" "cache_laws (env_schema_cache env) K" "cache_laws (env_check_cache env) C" "inv (factory svc)"
    "K (schema_cache svc) t = Some S \<Longrightarrow> stored_schema env t (factory svc) S"
    "C (check_cache svc) k = Some b \<Longrightarrow> decides env (cck_tenant_id k) (factory svc) (key_request k) b"
  using assms by (simp_all add: sound_def)

lemma key_request_snapshot [simp]: "cr_snapshot (key_request k) = Some (cck_snapshot k)"
  by (simp add: key_request_def)

text \<open>Bookkeeping and fewer cached entries keep the invariant; so do newer versions.\<close>

lemma sound_newer:
  assumes s: "sound env K C svc" and i: "inv (factory svc')" and n: "newer (factory svc) (factory svc')"
    and "\<And>t S. K (schema_cache svc') t = Some S \<Longrightarrow> K (schema_cache svc) t = Some S"
    and "\<And>k b. C (check_cache svc') k = Some b \<Longrightarrow> C (check_cache svc) k = Some b"
  shows "sound env K C svc'"
proof -
  from n have st: "stored_schema env t (factory svc') S = stored_schema env t (factory svc) S" for t S
    by (simp add: newer_def stored_schema_def)
  from s i assms(4,5) show ?thesis
    by (auto simp: sound_def st intro: decides_newer [OF n])
qed

lemma newer_refl [simp]: "newer f f"
  by (simp add: newer_def)

lemma sound_open:
  assumes "sound env K C svc"
  obtains f1 where "open_store env t svc = (handle t, svc\<lparr>factory := f1\<rparr>)" "inv f1" "ready t f1"
    "same_data (factory svc) f1" "sound env K C (svc\<lparr>factory := f1\<rparr>)"
proof -
  note D = soundD(1,4) [OF assms]
  let ?f = "snd (for_tenant F (factory svc) t)"
  have same: "same_data (factory svc) ?f" using open_same [OF D(2)] by (simp add: same_data_def)
  show thesis
  proof (rule that [of ?f])
    show "open_store env t svc = (handle t, svc\<lparr>factory := ?f\<rparr>)"
      using open_handle [OF D(2), of t] by (cases "for_tenant F (factory svc) t") (simp add: open_store_def D(1))
    show "sound env K C (svc\<lparr>factory := ?f\<rparr>)"
      by (rule sound_newer [OF assms]) (use open_ready [OF D(2)] same_data_newer [OF same] in auto)
  qed (use open_ready [OF D(2)] same in auto)
qed

lemma load_stored: "inv f \<Longrightarrow> load_schema env (handle t) f = Inr S \<Longrightarrow> stored_schema env t f S"
  by (auto simp: load_schema_def stored_schema_def result_simps dest!: schema_answer intro: sym)

lemma sound_load:
  assumes s: "sound env K C svc" and l: "load_schema_cached env t (handle t) svc = (r, svc')"
  shows "sound env K C svc'" "factory svc' = factory svc" "engine_config svc' = engine_config svc"
    "r = Inr S \<Longrightarrow> stored_schema env t (factory svc) S"
proof -
  note K = soundD(2) [OF s]
  obtain o' c where g: "cache_get (env_schema_cache env) (schema_cache svc) t = (o', c)" by fastforce
  have old: "sound env K C (on_metrics h (svc\<lparr>schema_cache := c\<rparr>))" for h
    by (rule sound_newer [OF s]) (use soundD(4) [OF s] cache_lawsD(3) [OF K g] in auto)
  have "sound env K C svc' \<and> factory svc' = factory svc \<and> engine_config svc' = engine_config svc \<and>
    (\<forall>S. r = Inr S \<longrightarrow> stored_schema env t (factory svc) S)"
  proof (cases o')
    case (Some S)
    with g cache_lawsD(2) [OF K] have "stored_schema env t (factory svc) S" by (intro soundD(5) [OF s]) simp
    with l g Some old show ?thesis by (auto simp: load_schema_cached_def)
  next
    case None
    let ?m = "on_metrics record_schema_cache_miss (svc\<lparr>schema_cache := c\<rparr>)"
    show ?thesis
    proof (cases "load_schema env (handle t) (factory svc)")
      case (Inl e)
      with l g None old show ?thesis by (auto simp: load_schema_cached_def Let_def)
    next
      case (Inr S)
      note st = load_stored [OF soundD(4) [OF s] Inr]
      from old [of record_schema_cache_miss] st
      have "sound env K C (?m\<lparr>schema_cache := cache_insert (env_schema_cache env) (schema_cache ?m) t S\<rparr>)"
        by (auto simp: sound_def dest!: cache_lawsD(4) [OF K])
      with l g None Inr st show ?thesis by (auto simp: load_schema_cached_def Let_def)
    qed
  qed
  then show "sound env K C svc'" "factory svc' = factory svc" "engine_config svc' = engine_config svc"
    "r = Inr S \<Longrightarrow> stored_schema env t (factory svc) S" by blast+
qed

section \<open>The methods\<close>

lemma fallible_check_permission:
  assumes s: "sound env K C svc" and c: "check_permission env t input svc = (r, svc')"
  shows "sound env K C svc'" "same_data (factory svc) (factory svc')"
    "r = Inr out \<Longrightarrow> decides env t (factory svc) (check_request_of input (cpo_snapshot out)) (cpo_allowed out)"
proof -
  obtain f1 where o: "open_store env t svc = (handle t, svc\<lparr>factory := f1\<rparr>)" and i: "inv f1"
    and same: "same_data (factory svc) f1" and s1: "sound env K C (svc\<lparr>factory := f1\<rparr>)"
    by (rule sound_open [OF s])
  note C = soundD(3) [OF s]
  have "sound env K C svc' \<and> factory svc' = f1 \<and>
    (\<forall>out. r = Inr out \<longrightarrow> decides env t f1 (check_request_of input (cpo_snapshot out)) (cpo_allowed out))"
  proof (cases "resolve_snapshot (handle t) f1 (cpi_consistency input)")
    case (Inl e)
    with c o s1 show ?thesis by (auto simp: check_permission_def)
  next
    case (Inr snapshot)
    show ?thesis
    proof (cases snapshot)
      case None
      obtain rl svc2 where l: "load_schema_cached env t (handle t) (svc\<lparr>factory := f1\<rparr>) = (rl, svc2)" by fastforce
      note L = sound_load [OF s1 l]
      from c o Inr None l L(1-3) check_decides [OF i, of env t _ "engine_config svc" "check_request_of input None"] L(4)
      show ?thesis
        by (auto simp: check_permission_def Let_def engine_at_def split: sum.splits)
    next
      case (Some snap)
      let ?k = "cache_key_of t input snap"
      obtain o' cc where g: "cache_get (env_check_cache env) (check_cache svc) ?k = (o', cc)" by fastforce
      have old: "sound env K C (on_metrics h (svc\<lparr>factory := f1, check_cache := cc\<rparr>))" for h
        by (rule sound_newer [OF s1]) (use i cache_lawsD(3) [OF C g] in auto)
      show ?thesis
      proof (cases o')
        case hit: (Some b)
        with g cache_lawsD(2) [OF C] have "decides env (cck_tenant_id ?k) f1 (key_request ?k) b"
          by (intro soundD(6) [OF s1, simplified]) simp
        with c o Inr Some g hit old show ?thesis by (auto simp: check_permission_def)
      next
        case miss: None
        obtain rl svc2 where l: "load_schema_cached env t (handle t)
            (on_metrics record_check_cache_miss (svc\<lparr>factory := f1, check_cache := cc\<rparr>)) = (rl, svc2)" by fastforce
        note L = sound_load [OF old l]
        have ins: "sound env K C (svc2\<lparr>check_cache := cache_insert (env_check_cache env) (check_cache svc2) ?k (allowed res)\<rparr>)"
          if "decides env t f1 (check_request_of input (Some snap)) (allowed res)" for res
          using L(1,2) that by (auto simp: sound_def dest!: cache_lawsD(4) [OF C])
        show ?thesis
        proof (cases rl)
          case (Inl e)
          with c o Inr Some g miss l L(1,2) show ?thesis by (auto simp: check_permission_def)
        next
          case S: (Inr S)
          let ?e = "CheckEngine_new (StoreTupleReader (handle t) f1) S (engine_config svc)"
          show ?thesis
          proof (cases "check ?e (check_request_of input (Some snap))")
            case (Inl e)
            with c o Inr Some g miss l L(1-3) S show ?thesis by (auto simp: check_permission_def Let_def)
          next
            case res: (Inr res)
            from L(4) [OF S] have "stored_schema env t f1 S" by simp
            from check_decides [OF i this, of "engine_config svc", unfolded engine_at_def, OF res]
            have d: "decides env t f1 (check_request_of input (Some snap)) (allowed res)" .
            with c o Inr Some g miss l L(2,3) S res ins [OF d] show ?thesis
              by (auto simp: check_permission_def Let_def)
          qed
        qed
      qed
    qed
  qed
  then show "sound env K C svc'" "same_data (factory svc) (factory svc')"
    "r = Inr out \<Longrightarrow> decides env t (factory svc) (check_request_of input (cpo_snapshot out)) (cpo_allowed out)"
    using same by (auto simp: decides_same [OF same])
qed

text \<open>The other reading methods touch the schema cache at most.\<close>

lemma fallible_expand_permission_tree:
  assumes s: "sound env K C svc" and c: "expand_permission_tree env t input svc = (r, svc')"
  shows "sound env K C svc'" "same_data (factory svc) (factory svc')"
proof -
  obtain f1 where o: "open_store env t svc = (handle t, svc\<lparr>factory := f1\<rparr>)"
    and same: "same_data (factory svc) f1" and s1: "sound env K C (svc\<lparr>factory := f1\<rparr>)"
    by (rule sound_open [OF s])
  obtain rl svc2 where l: "load_schema_cached env t (handle t) (svc\<lparr>factory := f1\<rparr>) = (rl, svc2)" by fastforce
  from c o l s1 sound_load [OF s1 l] have "sound env K C svc' \<and> factory svc' = f1"
    by (auto simp: expand_permission_tree_def Let_def split: sum.splits)
  with same show "sound env K C svc'" "same_data (factory svc) (factory svc')" by auto
qed

lemma fallible_lookup_subjects:
  assumes s: "sound env K C svc" and c: "lookup_subjects env t input svc = (r, svc')"
  shows "sound env K C svc'" "same_data (factory svc) (factory svc')"
proof -
  obtain rx svcx where x: "expand_permission_tree env t
      \<lparr>epi_object_type = lsi_object_type input, epi_object_id = lsi_object_id input,
       epi_permission = lsi_permission input, epi_consistency = lsi_consistency input\<rparr> svc = (rx, svcx)" by fastforce
  with c have "svc' = svcx" by (auto simp: lookup_subjects_def Let_def split: sum.splits)
  with fallible_expand_permission_tree [OF s x] show "sound env K C svc'" "same_data (factory svc) (factory svc')" by simp_all
qed

lemma lookup_loop_check:
  assumes "lookup_loop e input snap limit results ids = Inr out" "oi \<in> set out" "oi \<notin> set results"
  shows "\<exists>res. allowed res \<and> check e \<lparr>cr_object_type = lri_resource_type input, cr_object_id = oi,
    cr_permission = lri_permission input, cr_subject_type = lri_subject_type input,
    cr_subject_id = lri_subject_id input, cr_snapshot = snap\<rparr> = Inr res"
  using assms
proof (induction e input snap limit results ids rule: lookup_loop.induct)
  case (2 e input snap limit results oi' rest)
  from "2.prems"(1) have "\<not> length results \<ge> limit" using "2.prems"(2,3) by auto
  with "2.prems"(1) obtain res where c: "check e \<lparr>cr_object_type = lri_resource_type input, cr_object_id = oi',
      cr_permission = lri_permission input, cr_subject_type = lri_subject_type input,
      cr_subject_id = lri_subject_id input, cr_snapshot = snap\<rparr> = Inr res"
    and l: "lookup_loop e input snap limit (if allowed res then results @ [oi'] else results) rest = Inr out"
    by (auto simp: result_simps)
  show ?case
  proof (cases "oi = oi' \<and> allowed res")
    case True
    with c show ?thesis by auto
  next
    case False
    with "2.prems"(3) have "oi \<notin> set (if allowed res then results @ [oi'] else results)" by auto
    from "2.IH" [OF \<open>\<not> length results \<ge> limit\<close> c l "2.prems"(2) this] show ?thesis .
  qed
qed simp

lemma fallible_lookup_resources:
  assumes s: "sound env K C svc" and c: "lookup_resources env t input svc = (r, svc')"
  shows "sound env K C svc'" "same_data (factory svc) (factory svc')"
    "r = Inr out \<Longrightarrow> oi \<in> set (lro_resource_ids out) \<Longrightarrow>
       decides env t (factory svc) \<lparr>cr_object_type = lri_resource_type input, cr_object_id = oi,
         cr_permission = lri_permission input, cr_subject_type = lri_subject_type input,
         cr_subject_id = lri_subject_id input, cr_snapshot = lro_snapshot out\<rparr> True"
proof -
  obtain f1 where o: "open_store env t svc = (handle t, svc\<lparr>factory := f1\<rparr>)" and i: "inv f1"
    and same: "same_data (factory svc) f1" and s1: "sound env K C (svc\<lparr>factory := f1\<rparr>)"
    by (rule sound_open [OF s])
  obtain rl svc2 where l: "load_schema_cached env t (handle t) (svc\<lparr>factory := f1\<rparr>) = (rl, svc2)" by fastforce
  note L = sound_load [OF s1 l]
  from c o l s1 L(1,2) have "sound env K C svc' \<and> factory svc' = f1"
    by (auto simp: lookup_resources_def Let_def split: sum.splits)
  with same show "sound env K C svc'" "same_data (factory svc) (factory svc')" by auto
  assume r: "r = Inr out" and oi: "oi \<in> set (lro_resource_ids out)"
  from c r o l L(2,3) obtain S ids where S: "rl = Inr S"
    and loop: "lookup_loop (engine_at (handle t) f1 (engine_config svc) S) input (lro_snapshot out)
      (case lri_limit input of Some n \<Rightarrow> n | None \<Rightarrow> 1000) [] ids = Inr (lro_resource_ids out)"
    by (auto simp: lookup_resources_def Let_def engine_at_def result_simps split: sum.splits)
  from lookup_loop_check [OF loop oi] obtain res where "allowed res"
    and k: "check (engine_at (handle t) f1 (engine_config svc) S) \<lparr>cr_object_type = lri_resource_type input, cr_object_id = oi,
      cr_permission = lri_permission input, cr_subject_type = lri_subject_type input,
      cr_subject_id = lri_subject_id input, cr_snapshot = lro_snapshot out\<rparr> = Inr res" by auto
  with check_decides [OF i _ k] L(4) [OF S] show "decides env t (factory svc) \<lparr>cr_object_type = lri_resource_type input,
      cr_object_id = oi, cr_permission = lri_permission input, cr_subject_type = lri_subject_type input,
      cr_subject_id = lri_subject_id input, cr_snapshot = lro_snapshot out\<rparr> True"
    by (simp add: decides_same [OF same])
qed

text \<open>
  A relationship write: an error may leave newer versions behind and the cached decisions are kept, which is
  sound because they are for versions that stay.
\<close>

lemma fallible_write_relationships:
  assumes s: "sound env K C svc" and room: "tx_room (current t (factory svc))"
    and c: "write_relationships env t ws ds svc = (r, svc')"
  shows "sound env K C svc'" "newer (factory svc) (factory svc')"
    "u \<noteq> t \<Longrightarrow> current u (factory svc') = current u (factory svc) \<and> tuples_at u (factory svc') = tuples_at u (factory svc)"
    "r = Inr tok \<Longrightarrow> value_of tok = current t (factory svc') \<and> tuples_at t (factory svc') (value_of tok) =
       {x \<in> tuples_at t (factory svc) (current t (factory svc)). \<not> selected ds x} \<union> Tuple_from ` set ws"
proof -
  obtain f1 where o: "open_store env t svc = (handle t, svc\<lparr>factory := f1\<rparr>)" and i: "inv f1" "ready t f1"
    and same: "same_data (factory svc) f1" and s1: "sound env K C (svc\<lparr>factory := f1\<rparr>)"
    by (rule sound_open [OF s])
  from same room have room1: "tx_room (current t f1)" by (simp add: same_data_def)
  obtain rw f2 where w: "store_write (handle t) f1 ws ds = (rw, f2)" by fastforce
  note E = write_effect [OF i room1 w]
  have n: "newer f1 f2"
    unfolding newer_def
  proof (intro allI)
    fix u
    from E show "schema_text u f2 = schema_text u f1 \<and> current u f1 \<le> current u f2 \<and>
        (\<forall>v\<le>current u f1. tuples_at u f2 v = tuples_at u f1 v)" by (cases "u = t") simp_all
  qed
  have f2: "factory svc' = f2" using c o w by (auto simp: write_relationships_def Let_def emit_def split: sum.splits)
  show "sound env K C svc'"
  proof (rule sound_newer [OF s1])
    show "inv (factory svc')" "newer (factory (svc\<lparr>factory := f1\<rparr>)) (factory svc')" using E n by (simp_all add: f2)
  next
    fix k b
    assume "C (check_cache svc') k = Some b"
    then show "C (check_cache (svc\<lparr>factory := f1\<rparr>)) k = Some b"
      using c o w cache_lawsD(6) [OF soundD(3) [OF s]]
      by (auto simp: write_relationships_def Let_def emit_def split: sum.splits)
  next
    fix u S
    assume "K (schema_cache svc') u = Some S"
    then show "K (schema_cache (svc\<lparr>factory := f1\<rparr>)) u = Some S"
      using c o w by (auto simp: write_relationships_def Let_def emit_def split: sum.splits)
  qed
  show "newer (factory svc) (factory svc')" using n same by (simp add: f2 same_data_def newer_def)
  show "u \<noteq> t \<Longrightarrow> current u (factory svc') = current u (factory svc) \<and> tuples_at u (factory svc') = tuples_at u (factory svc)"
    using E same by (simp add: f2 same_data_def)
  assume "r = Inr tok"
  with c o w have "rw = Inr tok" by (auto simp: write_relationships_def Let_def split: sum.splits)
  from write_answer [OF i room1 w [unfolded this]] same
  show "value_of tok = current t (factory svc') \<and> tuples_at t (factory svc') (value_of tok) =
       {x \<in> tuples_at t (factory svc) (current t (factory svc)). \<not> selected ds x} \<union> Tuple_from ` set ws"
    by (simp add: f2 same_data_def)
qed

text \<open>A schema write: what it stored it also dropped from the caches.\<close>

lemma fallible_write_schema:
  assumes s: "sound env K C svc" and c: "write_schema env t new_text force svc = (r, svc')"
  shows "sound env K C svc'" "u \<noteq> t \<Longrightarrow> schema_text u (factory svc') = schema_text u (factory svc)"
    "current u (factory svc') = current u (factory svc) \<and> tuples_at u (factory svc') = tuples_at u (factory svc)"
    "schema_text t (factory svc') = (if is_ok r then Some new_text else schema_text t (factory svc))"
proof -
  obtain f1 where o: "open_store env t svc = (handle t, svc\<lparr>factory := f1\<rparr>)" and i: "inv f1" "ready t f1"
    and same: "same_data (factory svc) f1" and s1: "sound env K C (svc\<lparr>factory := f1\<rparr>)"
    by (rule sound_open [OF s])
  obtain rw f2 where w: "store_write_schema (handle t) f1 new_text = (rw, f2)" by fastforce
  note E = write_schema_effect [OF i w] and K = soundD(2) [OF s] and C = soundD(3) [OF s]
  let ?svc2 = "svc\<lparr>factory := f2, schema_cache := cache_invalidate (env_schema_cache env) (schema_cache svc) t,
     check_cache := cache_invalidate_all (env_check_cache env) (check_cache svc)\<rparr>"
  from c o w consider (unchanged) "\<not> is_ok r" "svc' = svc \<or> svc' = svc\<lparr>factory := f1\<rparr>"
    | (failed) "\<not> is_ok r" "\<not> is_ok rw" "svc' = svc\<lparr>factory := f2\<rparr>"
    | (written) ev where "is_ok r" "is_ok rw" "svc' = emit ev ?svc2"
    by (auto simp: write_schema_def Let_def split: sum.splits prod.splits)
  then have "sound env K C svc' \<and> (\<forall>u. u \<noteq> t \<longrightarrow> schema_text u (factory svc') = schema_text u (factory svc)) \<and>
    (\<forall>u. current u (factory svc') = current u (factory svc) \<and> tuples_at u (factory svc') = tuples_at u (factory svc)) \<and>
    schema_text t (factory svc') = (if is_ok r then Some new_text else schema_text t (factory svc))"
  proof cases
    case unchanged
    with s s1 same show ?thesis by (auto simp: same_data_def)
  next
    case failed
    have e: "schema_text u f2 = schema_text u f1" for u using E failed(2) by (cases "u = t") simp_all
    then have "newer f1 f2" using E by (simp add: newer_def)
    with E have "sound env K C (svc\<lparr>factory := f2\<rparr>)" by (intro sound_newer [OF s1]) simp_all
    with E e failed same show ?thesis by (simp add: same_data_def)
  next
    case (written ev)
    have st: "stored_schema env u f2 S" if "K (cache_invalidate (env_schema_cache env) (schema_cache svc) t) u = Some S" for u S
      using cache_lawsD(5) [OF K that] soundD(5) [OF s, of u S] E same by (auto simp: stored_schema_def same_data_def)
    have "sound env K C ?svc2"
      using s E st by (simp add: sound_def cache_lawsD(6) [OF C])
    then have "sound env K C svc'" by (simp add: written(3) sound_def)
    with E same written show ?thesis by (simp add: same_data_def)
  qed
  then show "sound env K C svc'" "u \<noteq> t \<Longrightarrow> schema_text u (factory svc') = schema_text u (factory svc)"
    "current u (factory svc') = current u (factory svc) \<and> tuples_at u (factory svc') = tuples_at u (factory svc)"
    "schema_text t (factory svc') = (if is_ok r then Some new_text else schema_text t (factory svc))" by blast+
qed

section \<open>Reachable states\<close>

lemma sound_step:
  assumes s: "sound env K C svc" and room: "has_room current req (factory svc)"
  shows "sound env K C (svc_step env req svc)"
proof (cases req)
  case (WriteRelationships t ws ds)
  with room have "tx_room (current t (factory svc))" by simp
  from fallible_write_relationships(1) [OF s this] WriteRelationships show ?thesis
    by (cases "write_relationships env t ws ds svc") simp
next
  case (WriteSchema t d force)
  with fallible_write_schema(1) [OF s] show ?thesis by (cases "write_schema env t d force svc") simp
next
  case (CheckPermission t input)
  with fallible_check_permission(1) [OF s] show ?thesis by (cases "check_permission env t input svc") simp
next
  case (ExpandPermissionTree t input)
  with fallible_expand_permission_tree(1) [OF s] show ?thesis by (cases "expand_permission_tree env t input svc") simp
next
  case (LookupSubjects t input)
  with fallible_lookup_subjects(1) [OF s] show ?thesis by (cases "lookup_subjects env t input svc") simp
next
  case (LookupResources t input)
  with fallible_lookup_resources(1) [OF s] show ?thesis by (cases "lookup_resources env t input svc") simp
next
  case (ReadRelationships t f c l)
  obtain f1 where "open_store env t svc = (handle t, svc\<lparr>factory := f1\<rparr>)" "sound env K C (svc\<lparr>factory := f1\<rparr>)"
    by (rule sound_open [OF s])
  with ReadRelationships show ?thesis by (simp add: read_relationships_def)
next
  case (ReadSchema t)
  obtain f1 where "open_store env t svc = (handle t, svc\<lparr>factory := f1\<rparr>)" "sound env K C (svc\<lparr>factory := f1\<rparr>)"
    by (rule sound_open [OF s])
  with ReadSchema show ?thesis by (simp add: read_schema_def)
qed

text \<open>No request takes a version away or changes it.\<close>

definition keeps_versions :: "'f \<Rightarrow> 'f \<Rightarrow> bool" where
  "keeps_versions f f' \<longleftrightarrow> (\<forall>u. current u f \<le> current u f' \<and> (\<forall>v\<le>current u f. tuples_at u f' v = tuples_at u f v))"

lemma keeps_versions_trans: "keeps_versions f g \<Longrightarrow> keeps_versions g h \<Longrightarrow> keeps_versions f h"
  unfolding keeps_versions_def by (metis order_trans)

lemma newer_keeps: "newer f f' \<Longrightarrow> keeps_versions f f'"
  by (simp add: newer_def keeps_versions_def)

lemma same_keeps: "same_data f f' \<Longrightarrow> keeps_versions f f'"
  by (simp add: same_data_def keeps_versions_def)

lemma keeps_versions_step:
  assumes s: "sound env K C svc" and room: "has_room current req (factory svc)"
  shows "keeps_versions (factory svc) (factory (svc_step env req svc))"
proof (cases req)
  case (WriteRelationships t ws ds)
  with room have "tx_room (current t (factory svc))" by simp
  from newer_keeps [OF fallible_write_relationships(2) [OF s this]] WriteRelationships show ?thesis
    by (cases "write_relationships env t ws ds svc") simp
next
  case (WriteSchema t d force)
  with fallible_write_schema(3) [OF s] show ?thesis
    by (cases "write_schema env t d force svc") (simp add: keeps_versions_def)
next
  case (CheckPermission t input)
  with same_keeps [OF fallible_check_permission(2) [OF s]] show ?thesis by (cases "check_permission env t input svc") simp
next
  case (ExpandPermissionTree t input)
  with same_keeps [OF fallible_expand_permission_tree(2) [OF s]] show ?thesis
    by (cases "expand_permission_tree env t input svc") simp
next
  case (LookupSubjects t input)
  with same_keeps [OF fallible_lookup_subjects(2) [OF s]] show ?thesis by (cases "lookup_subjects env t input svc") simp
next
  case (LookupResources t input)
  with same_keeps [OF fallible_lookup_resources(2) [OF s]] show ?thesis by (cases "lookup_resources env t input svc") simp
next
  case (ReadRelationships t f c l)
  obtain f1 where "open_store env t svc = (handle t, svc\<lparr>factory := f1\<rparr>)" "same_data (factory svc) f1"
    by (rule sound_open [OF s])
  with ReadRelationships show ?thesis by (simp add: read_relationships_def same_keeps)
next
  case (ReadSchema t)
  obtain f1 where "open_store env t svc = (handle t, svc\<lparr>factory := f1\<rparr>)" "same_data (factory svc) f1"
    by (rule sound_open [OF s])
  with ReadSchema show ?thesis by (simp add: read_schema_def same_keeps)
qed

text \<open>A request of one tenant leaves the data of the others.\<close>

definition same_tenant :: "TenantId \<Rightarrow> 'f \<Rightarrow> 'f \<Rightarrow> bool" where
  "same_tenant u f f' \<longleftrightarrow> current u f' = current u f \<and> tuples_at u f' = tuples_at u f \<and> schema_text u f' = schema_text u f"

lemma same_data_tenant: "same_data f f' \<Longrightarrow> same_tenant u f f'"
  by (simp add: same_data_def same_tenant_def)

lemma step_others:
  assumes s: "sound env K C svc" and room: "has_room current req (factory svc)" and u: "u \<noteq> request_tenant req"
  shows "same_tenant u (factory svc) (factory (svc_step env req svc))"
proof (cases req)
  case (WriteRelationships t ws ds)
  with room have rm: "tx_room (current t (factory svc))" by simp
  obtain r svc' where w: "write_relationships env t ws ds svc = (r, svc')" by fastforce
  from fallible_write_relationships(2,3) [OF s rm w] u WriteRelationships w show ?thesis
    by (simp add: same_tenant_def newer_def)
next
  case (WriteSchema t d force)
  with fallible_write_schema(2,3) [OF s] u show ?thesis
    by (cases "write_schema env t d force svc") (simp add: same_tenant_def)
next
  case (CheckPermission t input)
  with fallible_check_permission(2) [OF s] show ?thesis
    by (cases "check_permission env t input svc") (simp add: same_data_tenant)
next
  case (ExpandPermissionTree t input)
  with fallible_expand_permission_tree(2) [OF s] show ?thesis
    by (cases "expand_permission_tree env t input svc") (simp add: same_data_tenant)
next
  case (LookupSubjects t input)
  with fallible_lookup_subjects(2) [OF s] show ?thesis
    by (cases "lookup_subjects env t input svc") (simp add: same_data_tenant)
next
  case (LookupResources t input)
  with fallible_lookup_resources(2) [OF s] show ?thesis
    by (cases "lookup_resources env t input svc") (simp add: same_data_tenant)
next
  case (ReadRelationships t f c l)
  obtain f1 where "open_store env t svc = (handle t, svc\<lparr>factory := f1\<rparr>)" "same_data (factory svc) f1"
    by (rule sound_open [OF s])
  with ReadRelationships show ?thesis by (simp add: read_relationships_def same_data_tenant)
next
  case (ReadSchema t)
  obtain f1 where "open_store env t svc = (handle t, svc\<lparr>factory := f1\<rparr>)" "same_data (factory svc) f1"
    by (rule sound_open [OF s])
  with ReadSchema show ?thesis by (simp add: read_schema_def same_data_tenant)
qed

lemma keeps_versions_reachable:
  "svc_reachable env current svc0 svc \<Longrightarrow> sound env K C svc0 \<Longrightarrow>
     sound env K C svc \<and> keeps_versions (factory svc0) (factory svc)"
proof (induction rule: svc_reachable.induct)
  case (request svc req)
  then have s: "sound env K C svc" and k: "keeps_versions (factory svc0) (factory svc)" by simp_all
  from sound_step [OF s request.hyps(2)] keeps_versions_trans [OF k keeps_versions_step [OF s request.hyps(2)]]
  show ?case ..
qed (simp add: keeps_versions_def)

lemma sound_start:
  assumes "env_factory env = F" "cache_laws (env_schema_cache env) K" "cache_laws (env_check_cache env) C" "inv f"
  shows "sound env K C (with_cache_config env f ec sl cc)"
  using assms by (simp add: sound_def with_cache_config_def cache_lawsD(1))

text \<open>
  Read your writes through checks: a check that names the token of a write, however much later, is decided
  over the tuples the write left, by the schema of its own time.
\<close>

lemma check_after_write:
  assumes s: "sound env K C svc" and room: "tx_room (current t (factory svc))"
    and w: "write_relationships env t ws ds svc = (Inr tok, svc1)" and r: "svc_reachable env current svc1 svc2"
    and c: "check_permission env t input svc2 = (Inr out, svc3)" and p: "cpo_snapshot out = Some tok"
  shows "\<exists>S r. stored_schema env t (factory svc2) S \<and> permission_rule S (cpi_object_type input) (cpi_permission input) = Some r \<and>
    (plain_exclusions S \<longrightarrow> (cpo_allowed out \<longleftrightarrow> granted S
       ({x \<in> tuples_at t (factory svc) (current t (factory svc)). \<not> selected ds x} \<union> Tuple_from ` set ws)
       (cpi_subject_type input) (cpi_subject_id input) r (cpi_object_type input) (cpi_object_id input)))"
proof -
  note W = fallible_write_relationships [OF s room w]
  from W(4) [OF refl] have tok: "value_of tok = current t (factory svc1)"
    and v: "tuples_at t (factory svc1) (value_of tok) =
      {x \<in> tuples_at t (factory svc) (current t (factory svc)). \<not> selected ds x} \<union> Tuple_from ` set ws" by blast+
  from keeps_versions_reachable [OF r W(1)] have s2: "sound env K C svc2"
    and k: "keeps_versions (factory svc1) (factory svc2)" by simp_all
  from fallible_check_permission(3) [OF s2 c refl]
  have d: "decides env t (factory svc2) (check_request_of input (Some tok)) (cpo_allowed out)" by (simp add: p)
  from k tok v have le: "value_of tok \<le> current t (factory svc2)" and e: "tuples_at t (factory svc2) (value_of tok) =
      {x \<in> tuples_at t (factory svc) (current t (factory svc)). \<not> selected ds x} \<union> Tuple_from ` set ws"
    by (auto simp: keeps_versions_def)
  from d le e show ?thesis
    by (auto simp: decides_def check_request_of_def snapshot_value_def)
qed

text \<open>The decision of a check at a version the state has, in full.\<close>

lemma decides_granted:
  assumes "decides env t f req b" "snapshot_value (current t f) (cr_snapshot req) \<le> current t f \<Longrightarrow>
      T = tuples_at t f (snapshot_value (current t f) (cr_snapshot req))"
  obtains stored S r where "schema_text t f = Some stored" "parse_schema (env_pest_error env) stored = Inr S"
    "permission_rule S (cr_object_type req) (cr_permission req) = Some r"
    "plain_exclusions S \<Longrightarrow>
       (b \<longleftrightarrow> granted S T (cr_subject_type req) (cr_subject_id req) r (cr_object_type req) (cr_object_id req))"
  using assms unfolding decides_def stored_schema_def by blast

end

end
