(* ===== verification/Postgres_Service.thy ===== *)
theory Postgres_Service
  imports Postgres_Correct Fallible_Stores
begin

text \<open>
  The service over the PostgreSQL store, as \<open>run_serve\<close> pairs them. Given the laws of the statements, the
  factory keeps the contract of \<open>fallible_stores\<close>, whatever statement fails; the decisions of the service
  over PostgreSQL follow from it.
\<close>

section \<open>Schema definitions\<close>

text \<open>The two statements on schema definitions, as text.\<close>

definition insert_schema_stmt :: "string \<Rightarrow> string" where
  "insert_schema_stmt schema = ''
        INSERT INTO '' @ schema @ ''.schema_definitions (definition)
        VALUES ($1)
        ''"

definition latest_schema_stmt :: "string \<Rightarrow> string" where
  "latest_schema_stmt schema = ''
        SELECT definition FROM '' @ schema @ ''.schema_definitions
        ORDER BY created_at DESC
        LIMIT 1
        ''"

lemma schema_statement_texts: "insert_schema_sql = insert_schema_stmt" "latest_schema_sql = latest_schema_stmt"
  by (simp_all add: fun_eq_iff insert_schema_sql_def insert_schema_stmt_def latest_schema_sql_def latest_schema_stmt_def)

text \<open>
  The rows of a tenant's \<open>schema_definitions\<close> with their \<open>created_at\<close>, in the order of insertion. An insertion
  outside a transaction adds its row with the time of the statement, and adds nothing when it fails; the
  clock of the database moves forward between two schema writes of a tenant. The selection returns a row
  that was created last. Statements on tuples leave the definitions alone.
\<close>

type_synonym 'db Definitions = "string \<Rightarrow> 'db \<Rightarrow> (string \<times> int) list"

definition schema_insert_law :: "'db Sqlx \<Rightarrow> 'db Observer \<Rightarrow> 'db Definitions \<Rightarrow> bool" where
  "schema_insert_law db ob defs \<longleftrightarrow> (\<forall>s x d r d'. validate_schema_name s = Inr () \<longrightarrow>
     execute db Pool \<lparr>sql = insert_schema_stmt s, binds = [SqlText (Some x)]\<rparr> d = (r, d') \<longrightarrow>
     (\<forall>s'. rows ob s' Pool d' = rows ob s' Pool d \<and> last_tx ob s' d' = last_tx ob s' d \<and>
        (s' \<noteq> s \<longrightarrow> defs s' d' = defs s' d)) \<and>
     (if is_ok r then \<exists>now. defs s d' = defs s d @ [(x, now)] \<and> (\<forall>(y, at)\<in>set (defs s d). at < now)
      else defs s d' = defs s d))"

definition schema_select_law :: "'db Sqlx \<Rightarrow> 'db Definitions \<Rightarrow> bool" where
  "schema_select_law db defs \<longleftrightarrow> (\<forall>s d out. validate_schema_name s = Inr () \<longrightarrow>
     fetch_optional_text db Pool \<lparr>sql = latest_schema_stmt s, binds = []\<rparr> d = Inr out \<longrightarrow>
     (case out of
        None \<Rightarrow> defs s d = []
      | Some x \<Rightarrow> \<exists>at. (x, at) \<in> set (defs s d) \<and> (\<forall>(y, at')\<in>set (defs s d). at' \<le> at)))"

definition tuple_statements_law :: "'db Sqlx \<Rightarrow> 'db Definitions \<Rightarrow> bool" where
  "tuple_statements_law db defs \<longleftrightarrow>
     (\<forall>s d s'. validate_schema_name s = Inr () \<longrightarrow>
        (\<forall>cs bs. defs s' (snd (execute db Tx \<lparr>sql = update_stmt s cs, binds = bs\<rparr> d)) = defs s' d) \<and>
        (\<forall>bs. defs s' (snd (execute db Tx \<lparr>sql = insert_stmt s, binds = bs\<rparr> d)) = defs s' d) \<and>
        defs s' (snd (fetch_one_i64 db Tx \<lparr>sql = nextval_stmt s, binds = []\<rparr> d)) = defs s' d) \<and>
     (\<forall>d s'. defs s' (snd (begin_tx db d)) = defs s' d \<and> defs s' (snd (commit_tx db d)) = defs s' d \<and>
        defs s' (rollback_tx db d) = defs s' d)"

definition schema_laws :: "'db Sqlx \<Rightarrow> 'db Observer \<Rightarrow> 'db Definitions \<Rightarrow> bool" where
  "schema_laws db ob defs \<longleftrightarrow> schema_insert_law db ob defs \<and> schema_select_law db defs \<and> tuple_statements_law db defs"

lemmas schema_insert_law_sql = schema_insert_law_def [folded schema_statement_texts]
lemmas schema_select_law_sql = schema_select_law_def [folded schema_statement_texts]
lemmas tuple_statements_law_sql = tuple_statements_law_def [folded statement_texts]

lemma snd_run_then: "(\<And>a d. defs s (snd (k a d)) = defs s d) \<Longrightarrow> defs s (snd (run_then m k)) = defs s (snd m)"
  by (auto simp: run_then_def split: prod.splits sum.splits)

lemma tuple_statements_defs:
  assumes "tuple_statements_law db defs" "validate_schema_name s = Inr ()"
  shows "defs s' (snd (execute db Tx \<lparr>sql = update_sql s cs, binds = bs\<rparr> d)) = defs s' d"
    "defs s' (snd (execute db Tx \<lparr>sql = insert_sql s, binds = bs\<rparr> d)) = defs s' d"
    "defs s' (snd (fetch_one_i64 db Tx \<lparr>sql = nextval_sql s, binds = []\<rparr> d)) = defs s' d"
    "defs s' (snd (begin_tx db d)) = defs s' d" "defs s' (snd (commit_tx db d)) = defs s' d" "defs s' (rollback_tx db d) = defs s' d"
  using assms unfolding tuple_statements_law_sql by blast+

lemma pg_write_defs:
  assumes l: "tuple_statements_law db defs" "validate_schema_name s = Inr ()"
  shows "defs s' (snd (pg_write db s d ws ds)) = defs s' d"
proof -
  note t = tuple_statements_defs [OF l]
  have del: "defs s' (snd (delete_all db s fs tx d)) = defs s' d" for fs tx d
    using t(1) by (induction fs arbitrary: d)
      (simp_all add: snd_run_then delete_matching_tuples_def split: prod.splits, metis snd_conv)
  have ins: "defs s' (snd (insert_all db s ws tx d)) = defs s' d" for ws tx d
    using t(2) by (induction ws arbitrary: d)
      (simp_all add: snd_run_then insert_tuple_def split: prod.splits, metis snd_conv)
  have nxt: "defs s' (snd (next_tx_id db Tx s d)) = defs s' d" for d
    using t(3) [of s' d] by (auto simp: next_tx_id_def split: prod.splits sum.splits)
  have w: "defs s' (snd (write_in_tx db s ws ds d)) = defs s' d" for d
    unfolding write_in_tx_def by (simp add: snd_run_then del ins nxt)
  show ?thesis
    using t(4) [of s' d] w t(5,6)
    by (auto simp: pg_write_def split: prod.splits sum.splits) (metis snd_conv)+
qed

section \<open>The factory keeps the contract\<close>

abbreviation pg_current :: "'db Observer \<Rightarrow> TenantId \<Rightarrow> 'db PostgresStoreFactory \<Rightarrow> u64" where
  "pg_current ob t fac \<equiv> word_of_int (last_tx ob (schema_name_for_tenant t) (pool fac))"

abbreviation pg_tuples :: "'db Observer \<Rightarrow> TenantId \<Rightarrow> 'db PostgresStoreFactory \<Rightarrow> u64 \<Rightarrow> Tuple set" where
  "pg_tuples ob t fac v \<equiv> pg_view ob (schema_name_for_tenant t) (pool fac) (uint v)"

definition latest :: "(string \<times> int) list \<Rightarrow> string option" where
  "latest D = (if D = [] then None else Some (fst (last D)))"

abbreviation pg_schema_text :: "'db Definitions \<Rightarrow> TenantId \<Rightarrow> 'db PostgresStoreFactory \<Rightarrow> string option" where
  "pg_schema_text defs t fac \<equiv> latest (defs (schema_name_for_tenant t) (pool fac))"

definition factory_inv :: "'db Observer \<Rightarrow> 'db Definitions \<Rightarrow> 'db PostgresStoreFactory \<Rightarrow> bool" where
  "factory_inv ob defs fac \<longleftrightarrow>
     (\<forall>t. pg_inv ob (schema_name_for_tenant t) (pool fac) \<and>
        sorted_wrt (<) (map snd (defs (schema_name_for_tenant t) (pool fac)))) \<and>
     (\<forall>t s. schemas fac t = Some s \<longrightarrow> s = schema_name_for_tenant t)"

lemma factory_inv_tenant: "factory_inv ob defs fac \<Longrightarrow> tenant_schema fac t = schema_name_for_tenant t"
  by (auto simp: factory_inv_def tenant_schema_def split: option.splits)

lemma uint_pg_current: "pg_inv ob (schema_name_for_tenant t) (pool fac) \<Longrightarrow>
    uint (pg_current ob t fac) = last_tx ob (schema_name_for_tenant t) (pool fac)"
  by (simp add: pg_inv_def word_of_tx)

text \<open>The room a write needs is always there: the sequence ends long before \<open>u64::MAX\<close>.\<close>

lemma pg_has_room: "factory_inv ob defs fac \<Longrightarrow> has_room (pg_current ob) req fac"
proof (cases req)
  case (WriteRelationships t ws ds)
  assume "factory_inv ob defs fac"
  then have i: "pg_inv ob (schema_name_for_tenant t) (pool fac)" by (simp add: factory_inv_def)
  from uint_pg_current [OF i] i have "uint (pg_current ob t fac) < 18446744073709551614"
    by (simp add: pg_inv_def ACTIVE_TX_ID_i64_def)
  then have "unat (pg_current ob t fac) < 18446744073709551614" unfolding unat_eq_nat_uint by linarith
  with WriteRelationships show ?thesis by (simp add: tx_room_unat)
qed simp_all

text \<open>A row created last is the last one, where times grow.\<close>

lemma latest_newest:
  assumes "sorted_wrt (<) (map snd D)" "(x, at) \<in> set D" "\<forall>(y, at')\<in>set D. at' \<le> (at :: int)"
  shows "latest D = Some x"
proof -
  from assms(2) obtain D' y b where D: "D = D' @ [(y, b)]" by (cases D rule: rev_cases) auto
  with assms have "b \<le> at" by auto
  with assms(1,2) D have "(x, at) = (y, b)" by (fastforce simp: sorted_wrt_append)
  with D show ?thesis by (simp add: latest_def)
qed

lemma pg_read_schema_answer:
  assumes l: "schema_laws db ob defs" and i: "factory_inv ob defs fac"
    and r: "pg_read_schema db (schema_name_for_tenant t) (pool fac) = Inr out"
  shows "out = pg_schema_text defs t fac"
proof -
  let ?s = "schema_name_for_tenant t"
  from r have "fetch_optional_text db Pool \<lparr>sql = latest_schema_sql ?s, binds = []\<rparr> (pool fac) = Inr out"
    by (simp add: pg_read_schema_def read_latest_schema_def map_err_Inr_iff)
  with l have "case out of None \<Rightarrow> defs ?s (pool fac) = []
      | Some x \<Rightarrow> \<exists>at. (x, at) \<in> set (defs ?s (pool fac)) \<and> (\<forall>(y, at')\<in>set (defs ?s (pool fac)). at' \<le> at)"
    by (simp add: schema_laws_def schema_select_law_sql)
  moreover from i have "sorted_wrt (<) (map snd (defs ?s (pool fac)))" by (simp add: factory_inv_def)
  ultimately show ?thesis by (auto simp: latest_def [of "[]"] latest_newest split: option.splits)
qed

lemma pg_read_current:
  assumes l: "sql_laws db ob" and i: "pg_inv ob (schema_name_for_tenant t) (pool fac)"
    and r: "pg_read db (schema_name_for_tenant t) (pool fac) f snap None = Inr ts"
  shows "snapshot_value (pg_current ob t fac) snap \<le> pg_current ob t fac \<and>
    set ts = {x \<in> pg_tuples ob t fac (snapshot_value (pg_current ob t fac) snap). matches f x}"
proof -
  let ?s = "schema_name_for_tenant t"
  note u = uint_pg_current [OF i]
  have le: "snap = None \<or> uint (value_of (the snap)) \<le> last_tx ob ?s (pool fac)"
  proof (cases snap)
    case (Some tok)
    with r obtain n where n: "current_tx_id db Pool ?s (pool fac) = Inr n" and "\<not> word_of_int n < value_of tok"
      by (auto simp: pg_read_def pg_read_snapshot_def and_then_Inr_iff Let_def split: if_splits)
    with current_tx_id_effect [OF l schema_name_valid n] u Some show ?thesis by (simp add: word_less_def not_less)
  qed simp
  then have "snapshot_value (pg_current ob t fac) snap \<le> pg_current ob t fac"
    using u by (cases snap) (simp_all add: snapshot_value_def word_le_def)
  with pg_read_effect [OF l schema_name_valid i le, of f] r u show ?thesis
    by (cases snap) (simp_all add: snapshot_value_def)
qed

lemma pg_write_mono:
  assumes "sql_laws db ob" "validate_schema_name s = Inr ()" "pg_write db s d ws ds = (r, d')"
  shows "last_tx ob s d \<le> last_tx ob s d'"
  using assms by (cases rule: pg_write_cases) simp_all

text \<open>What a write of a tenant's store does to the factory's database.\<close>

lemma pg_store_write:
  assumes l: "sql_laws db ob" "schema_laws db ob defs" and i: "factory_inv ob defs fac"
    and w: "store_write (pg_handle db (schema_name_for_tenant t)) fac ws ds = (r, fac')"
  shows "factory_inv ob defs fac'" "pg_current ob t fac \<le> pg_current ob t fac'"
    "v \<le> pg_current ob t fac \<Longrightarrow> pg_tuples ob t fac' v = pg_tuples ob t fac v"
    "pg_schema_text defs u fac' = pg_schema_text defs u fac"
    "u \<noteq> t \<Longrightarrow> pg_current ob u fac' = pg_current ob u fac \<and> pg_tuples ob u fac' = pg_tuples ob u fac"
    "r = Inr tok \<Longrightarrow> value_of tok = pg_current ob t fac' \<and> pg_tuples ob t fac' (pg_current ob t fac') =
       {x \<in> pg_tuples ob t fac (pg_current ob t fac). \<not> selected ds x} \<union> Tuple_from ` set ws"
proof -
  let ?s = "schema_name_for_tenant t"
  obtain d' where p: "pg_write db ?s (pool fac) ws ds = (r, d')" and f: "fac' = fac\<lparr>pool := d'\<rparr>"
    using w by (cases "pg_write db ?s (pool fac) ws ds") (simp add: pg_handle_def on_pool_def)
  from i have i': "pg_inv ob (schema_name_for_tenant u) (pool fac)" for u by (simp add: factory_inv_def)
  note W = pg_write_versions [OF l(1) schema_name_valid i' p] and m = pg_write_mono [OF l(1) schema_name_valid p]
  have d: "defs s' d' = defs s' (pool fac)" for s'
    using pg_write_defs [of db defs ?s s' "pool fac" ws ds] l(2) p by (simp add: schema_laws_def)
  have rows: "rows ob (schema_name_for_tenant u) Pool d' = rows ob (schema_name_for_tenant u) Pool (pool fac) \<and>
      last_tx ob (schema_name_for_tenant u) d' = last_tx ob (schema_name_for_tenant u) (pool fac)" if "u \<noteq> t" for u
    using l(1) schema_name_valid p by (cases rule: pg_write_cases) (use that in auto)
  have "pg_inv ob (schema_name_for_tenant u) d'" for u
    using W(1) i' [of u] rows [of u] by (cases "u = t") (simp_all add: pg_inv_def)
  with i show i2: "factory_inv ob defs fac'" by (simp add: factory_inv_def f d)
  have u1: "uint (pg_current ob u fac) = last_tx ob (schema_name_for_tenant u) (pool fac)" for u
    by (rule uint_pg_current) (rule i')
  have u2: "uint (pg_current ob u fac') = last_tx ob (schema_name_for_tenant u) d'" for u
    using uint_pg_current [of ob u fac'] i2 by (simp add: f factory_inv_def)
  show "pg_current ob t fac \<le> pg_current ob t fac'" using m u1 u2 by (simp add: word_le_def)
  show "pg_tuples ob t fac' v = pg_tuples ob t fac v" if "v \<le> pg_current ob t fac"
    using W(3) that u1 by (auto simp: pg_written_def f word_le_def fun_eq_iff)
  show "pg_schema_text defs u fac' = pg_schema_text defs u fac" by (simp add: f d)
  show "u \<noteq> t \<Longrightarrow> pg_current ob u fac' = pg_current ob u fac \<and> pg_tuples ob u fac' = pg_tuples ob u fac"
    using rows [of u] by (simp add: f)
  assume r: "r = Inr tok"
  from W(2) [OF r] u2 have "value_of tok = pg_current ob t fac'" by (simp add: word_uint_eq_iff)
  moreover from W(3) r have "pg_written ob ?s ws ds (pool fac) d'" by simp
  then have "pg_view ob ?s d' (last_tx ob ?s d') =
      {x \<in> pg_view ob ?s (pool fac) (last_tx ob ?s (pool fac)). \<not> selected ds x} \<union> Tuple_from ` set ws"
    unfolding pg_written_def by blast
  ultimately show "value_of tok = pg_current ob t fac' \<and> pg_tuples ob t fac' (pg_current ob t fac') =
       {x \<in> pg_tuples ob t fac (pg_current ob t fac). \<not> selected ds x} \<union> Tuple_from ` set ws"
    unfolding u1 u2 by (simp add: f)
qed

lemma pg_store_write_schema:
  assumes l: "schema_laws db ob defs" and i: "factory_inv ob defs fac"
    and w: "store_write_schema (pg_handle db (schema_name_for_tenant t)) fac x = (r, fac')"
  shows "factory_inv ob defs fac'" "pg_current ob u fac' = pg_current ob u fac" "pg_tuples ob u fac' = pg_tuples ob u fac"
    "u \<noteq> t \<Longrightarrow> pg_schema_text defs u fac' = pg_schema_text defs u fac"
    "pg_schema_text defs t fac' = (if is_ok r then Some x else pg_schema_text defs t fac)"
proof -
  let ?s = "schema_name_for_tenant t"
  obtain r0 d' where e: "execute db Pool \<lparr>sql = insert_schema_sql ?s, binds = [SqlText (Some x)]\<rparr> (pool fac) = (r0, d')"
    by fastforce
  have f: "fac' = fac\<lparr>pool := d'\<rparr>" and r: "is_ok r = is_ok r0"
    using w e by (cases r0; auto simp: pg_handle_def on_pool_def pg_write_schema_def write_schema_definition_def)+
  from l e have E: "rows ob s' Pool d' = rows ob s' Pool (pool fac)" "last_tx ob s' d' = last_tx ob s' (pool fac)"
      "s' \<noteq> ?s \<Longrightarrow> defs s' d' = defs s' (pool fac)"
      "if is_ok r0 then \<exists>now. defs ?s d' = defs ?s (pool fac) @ [(x, now)] \<and> (\<forall>(y, at)\<in>set (defs ?s (pool fac)). at < now)
       else defs ?s d' = defs ?s (pool fac)" for s'
    unfolding schema_laws_def schema_insert_law_sql using schema_name_valid [of t] by blast+
  have "sorted_wrt (<) (map snd (defs (schema_name_for_tenant u) d'))" for u
  proof (cases "u = t")
    case True
    with E(4) i show ?thesis
      by (auto simp: factory_inv_def sorted_wrt_append split: if_splits) fastforce
  next
    case False
    with E(3) [of "schema_name_for_tenant u"] i show ?thesis by (simp add: factory_inv_def)
  qed
  with i show "factory_inv ob defs fac'" by (simp add: factory_inv_def f pg_inv_def E(1,2))
  show "pg_current ob u fac' = pg_current ob u fac" "pg_tuples ob u fac' = pg_tuples ob u fac"
    by (simp_all add: f E(1,2))
  show "u \<noteq> t \<Longrightarrow> pg_schema_text defs u fac' = pg_schema_text defs u fac" by (simp add: f E(3))
  show "pg_schema_text defs t fac' = (if is_ok r then Some x else pg_schema_text defs t fac)"
    using E(4) by (auto simp: f r latest_def split: if_splits)
qed

lemma pg_fallible_stores:
  assumes l: "sql_laws db ob" "schema_laws db ob defs"
  shows "fallible_stores (PostgresStoreFactory_ops db) (\<lambda>t. pg_handle db (schema_name_for_tenant t)) (pg_current ob)
    (pg_tuples ob) (pg_schema_text defs) (factory_inv ob defs) (\<lambda>t fac. True)"
proof (unfold_locales, goal_cases)
  case (4 fac t f snap ts)
  then show ?case using pg_read_current [OF l(1), of t fac f snap ts] by (simp add: factory_inv_def pg_handle_def)
next
  case (5 fac t tok)
  then obtain n where "current_tx_id db Pool (schema_name_for_tenant t) (pool fac) = Inr n" "tok = SnapshotToken (word_of_int n)"
    by (auto simp: pg_handle_def pg_snapshot_def and_then_Inr_iff)
  with current_tx_id_effect [OF l(1) schema_name_valid this(1)] show ?case by simp
next
  case (6 fac t out)
  then show ?case using pg_read_schema_answer [OF l(2), of fac t out] by (simp add: pg_handle_def)
next
  case (7 fac t ws ds r fac')
  then show ?case using pg_store_write [OF l 7(1) 7(4)] by blast
next
  case (8 fac t ws ds tok fac')
  then show ?case using pg_store_write(6) [OF l 8(1) 8(4)] by blast
next
  case (9 fac t x r fac')
  then show ?case using pg_store_write_schema [OF l(2) 9(1) 9(3)] by blast
qed (simp_all add: PostgresStoreFactory_ops_def factory_inv_tenant)

section \<open>The service over PostgreSQL\<close>

text \<open>
  A service over the factory, on a database that keeps the laws and whose tables are consistent, in a state
  some sequence of requests leads to; every statement of every request may have failed.
\<close>

definition pg_serving ::
  "('db PostgresStoreFactory, 'sc, 'cc) Env \<Rightarrow> ('sc \<Rightarrow> TenantId \<rightharpoonup> Schema) \<Rightarrow> ('cc \<Rightarrow> CheckCacheKey \<rightharpoonup> bool) \<Rightarrow>
     'db Sqlx \<Rightarrow> 'db Observer \<Rightarrow> 'db Definitions \<Rightarrow> ('db PostgresStoreFactory, 'sc, 'cc) AuthzService \<Rightarrow> bool" where
  "pg_serving env K C db ob defs svc \<longleftrightarrow> sql_laws db ob \<and> schema_laws db ob defs \<and>
     env_factory env = PostgresStoreFactory_ops db \<and>
     cache_laws (env_schema_cache env) K \<and> cache_laws (env_check_cache env) C \<and>
     (\<exists>d ec sl cc. factory_inv ob defs (PostgresStoreFactory_new d) \<and>
        svc_reachable env (pg_current ob) (with_cache_config env (PostgresStoreFactory_new d) ec sl cc) svc)"

lemma pg_serving_sound:
  assumes "pg_serving env K C db ob defs svc"
  shows "fallible_stores (PostgresStoreFactory_ops db) (\<lambda>t. pg_handle db (schema_name_for_tenant t)) (pg_current ob)
      (pg_tuples ob) (pg_schema_text defs) (factory_inv ob defs) (\<lambda>t fac. True)" (is ?laws)
    and "fallible_stores.sound (PostgresStoreFactory_ops db) (pg_current ob) (pg_tuples ob) (pg_schema_text defs)
      (factory_inv ob defs) env K C svc"
proof -
  from assms have l: "sql_laws db ob" "schema_laws db ob defs" and e: "env_factory env = PostgresStoreFactory_ops db"
    "cache_laws (env_schema_cache env) K" "cache_laws (env_check_cache env) C" by (simp_all add: pg_serving_def)
  from assms obtain d ec sl cc where i: "factory_inv ob defs (PostgresStoreFactory_new d)"
    and r: "svc_reachable env (pg_current ob) (with_cache_config env (PostgresStoreFactory_new d) ec sl cc) svc"
    by (auto simp: pg_serving_def)
  show L: ?laws by (rule pg_fallible_stores [OF l])
  from fallible_stores.keeps_versions_reachable [OF L r fallible_stores.sound_start [OF L e i]]
  show "fallible_stores.sound (PostgresStoreFactory_ops db) (pg_current ob) (pg_tuples ob) (pg_schema_text defs)
      (factory_inv ob defs) env K C svc" by simp
qed

lemma pg_serving_room:
  assumes "pg_serving env K C db ob defs svc"
  shows "has_room (pg_current ob) req (factory svc)"
  using pg_serving_sound [OF assms] by (intro pg_has_room) (auto dest: fallible_stores.soundD(4))

lemma pg_serving_step: "pg_serving env K C db ob defs svc \<Longrightarrow> pg_serving env K C db ob defs (svc_step env req svc)"
  using pg_serving_room [of env K C db ob defs svc req] unfolding pg_serving_def by (blast intro: svc_reachable.request)



end
