(* ===== verification/Postgres_Server.thy ===== *)
theory Postgres_Server
  imports Rest_Correct Postgres_Service
begin

text \<open>
  The server as it runs with a database: both front ends in front of one service over the PostgreSQL store.
  The invariant of the service over fallible stores holds after any sequence of HTTP requests and gRPC
  calls; an allowed check over HTTP is backed by the key and by the committed data of its tenant, and no
  request touches the data of another tenant.
\<close>

section \<open>The front ends over fallible stores\<close>

context fallible_stores
begin

lemma sound_bookkeeping [simp]:
  "sound env K C (on_metrics g svc) \<longleftrightarrow> sound env K C svc"
  "sound env K C (fold emit evs svc) \<longleftrightarrow> sound env K C svc"
  by (simp_all add: sound_def)

lemma one_request_sound:
  assumes "sound env K C svc" "\<forall>t. tx_room (current t (factory svc))" "one_request env t svc svc'"
  shows "sound env K C svc'" "u \<noteq> t \<Longrightarrow> same_tenant u (factory svc) (factory svc')"
proof -
  have rm: "has_room current req (factory svc)" for req using assms(2) by (cases req) simp_all
  from assms(1,3) sound_step [OF _ rm] show "sound env K C svc'" unfolding one_request_def by blast
  from assms(3) step_others [OF assms(1) rm] show "u \<noteq> t \<Longrightarrow> same_tenant u (factory svc) (factory svc')"
    by (auto simp: one_request_def same_tenant_def)
qed

lemma create_router_sound:
  assumes i: "sound env K C svc" and room: "\<forall>t. tx_room (current t (factory svc))"
  shows "sound env K C (snd (create_router ax A Fl env st elapsed req svc))"
    "fst (rest_auth_middleware A st (hr_path req) (hr_authorization req)) \<noteq> RunHandler (Some u) \<Longrightarrow>
       same_tenant u (factory svc) (factory (snd (create_router ax A Fl env st elapsed req svc)))"
proof -
  obtain d evs where d: "rest_auth_middleware A st (hr_path req) (hr_authorization req) = (d, evs)" by fastforce
  let ?s = "fold emit evs (on_metrics record_request svc)"
  let ?l = "snd (auth_layer A st req (routes ax env req) (on_metrics record_request svc))"
  have s: "sound env K C ?s" "\<forall>t. tx_room (current t (factory ?s))" using i room by simp_all
  have r: "sound env K C (snd (routes ax env req t ?s)) \<and>
      (t \<noteq> Some u \<longrightarrow> same_tenant u (factory svc) (factory (snd (routes ax env req t ?s))))" for t
    using routes_one_request [where tenant = t and env = env and svc = ?s and ax = ax and req = req]
      one_request_sound [OF s] s(1) by (cases t) (auto simp: same_tenant_def)
  have "sound env K C ?l" "d \<noteq> RunHandler (Some u) \<Longrightarrow> same_tenant u (factory svc) (factory ?l)"
    using s(1) r by (cases d; simp add: auth_layer_def d same_tenant_def)+
  then show "sound env K C (snd (create_router ax A Fl env st elapsed req svc))"
    "fst (rest_auth_middleware A st (hr_path req) (hr_authorization req)) \<noteq> RunHandler (Some u) \<Longrightarrow>
       same_tenant u (factory svc) (factory (snd (create_router ax A Fl env st elapsed req svc)))"
    by (auto simp: create_router_def metrics_middleware_def Let_def d split: prod.splits option.splits)
qed

lemma grpc_server_sound:
  assumes i: "sound env K C svc" and room: "\<forall>t. tx_room (current t (factory svc))"
  shows "sound env K C (snd (grpc_server A Fl env st elapsed authorization call svc))"
    "fst (grpc_auth_interceptor A st authorization) \<noteq> Inr u \<Longrightarrow>
       same_tenant u (factory svc) (factory (snd (grpc_server A Fl env st elapsed authorization call svc)))"
proof -
  obtain d evs where d: "grpc_auth_interceptor A st authorization = (d, evs)" by fastforce
  let ?s = "fold emit evs svc"
  have s: "sound env K C ?s" "\<forall>t. tx_room (current t (factory ?s))" using i room by simp_all
  have c: "sound env K C svc'" "u \<noteq> t \<Longrightarrow> same_tenant u (factory ?s) (factory svc')" if "one_call Fl env t ?s svc'" for t svc'
  proof -
    from that obtain svc1 where r: "one_request env t ?s svc1"
      and e: "svc' = svc1 \<or> (\<exists>n el. svc' = on_metrics (record_method_request Fl n el) svc1)"
      unfolding one_call_def by blast
    from one_request_sound [OF s r] e show "sound env K C svc'" "u \<noteq> t \<Longrightarrow> same_tenant u (factory ?s) (factory svc')" by auto
  qed
  show "sound env K C (snd (grpc_server A Fl env st elapsed authorization call svc))"
    using d s(1) c(1) [OF grpc_method_one_call] by (cases d) (simp_all add: grpc_server_def intercepted_def)
  show "fst (grpc_auth_interceptor A st authorization) \<noteq> Inr u \<Longrightarrow>
       same_tenant u (factory svc) (factory (snd (grpc_server A Fl env st elapsed authorization call svc)))"
    using d c(2) [OF grpc_method_one_call] by (cases d) (auto simp: grpc_server_def intercepted_def same_tenant_def)
qed

lemma server_reachable_sound:
  "server_reachable ax A Fl env st current svc0 svc \<Longrightarrow> sound env K C svc0 \<Longrightarrow> sound env K C svc"
  by (induction rule: server_reachable.induct) (auto intro: create_router_sound grpc_server_sound)

end

section \<open>The server with a database\<close>

text \<open>
  A server on a database that keeps the laws and whose tables are consistent, with the key table as its
  repository, after any sequence of HTTP requests and gRPC calls, in which every statement may have failed.
\<close>

definition pg_server ::
  "Axum \<Rightarrow> 'h Argon2 \<Rightarrow> 'x F64 \<Rightarrow> ('db PostgresStoreFactory, 'sc, 'cc) Env \<Rightarrow> KeyQuery \<Rightarrow>
     ('sc \<Rightarrow> TenantId \<rightharpoonup> Schema) \<Rightarrow> ('cc \<Rightarrow> CheckCacheKey \<rightharpoonup> bool) \<Rightarrow> 'db Sqlx \<Rightarrow> 'db Observer \<Rightarrow> 'db Definitions \<Rightarrow>
     ('db PostgresStoreFactory, 'sc, 'cc) AuthzService \<Rightarrow> bool" where
  "pg_server ax A F env repo K C db ob defs svc \<longleftrightarrow> sql_laws db ob \<and> schema_laws db ob defs \<and>
     env_factory env = PostgresStoreFactory_ops db \<and>
     cache_laws (env_schema_cache env) K \<and> cache_laws (env_check_cache env) C \<and>
     (\<exists>d. \<exists>config :: 'x AppConfig. factory_inv ob defs (PostgresStoreFactory_new d) \<and>
        server_reachable ax A F env (with_repository repo) (pg_current ob)
          (server_service env (PostgresStoreFactory_new d) config) svc)"

lemma pg_server_sound:
  fixes F :: "'x F64"
  assumes "pg_server ax A F env repo K C db ob defs svc"
  shows "fallible_stores (PostgresStoreFactory_ops db) (\<lambda>t. pg_handle db (schema_name_for_tenant t)) (pg_current ob)
      (pg_tuples ob) (pg_schema_text defs) (factory_inv ob defs) (\<lambda>t fac. True)" (is ?laws)
    and "fallible_stores.sound (PostgresStoreFactory_ops db) (pg_current ob) (pg_tuples ob) (pg_schema_text defs)
      (factory_inv ob defs) env K C svc" (is "?sound svc")
    and "\<forall>t. tx_room (pg_current ob t (factory svc))"
proof -
  from assms have l: "sql_laws db ob" "schema_laws db ob defs" and e: "env_factory env = PostgresStoreFactory_ops db"
    "cache_laws (env_schema_cache env) K" "cache_laws (env_check_cache env) C" by (simp_all add: pg_server_def)
  from assms obtain d and config :: "'x AppConfig" where i: "factory_inv ob defs (PostgresStoreFactory_new d)"
    and r: "server_reachable ax A F env (with_repository repo) (pg_current ob)
      (server_service env (PostgresStoreFactory_new d) config) svc" unfolding pg_server_def by blast
  show L: ?laws by (rule pg_fallible_stores [OF l])
  have "?sound (server_service env (PostgresStoreFactory_new d) config)"
    using fallible_stores.sound_start [OF L e i]
    by (simp add: fallible_stores.sound_def [OF L] server_service_def with_metrics_def)
  with fallible_stores.server_reachable_sound [OF L r] show S: "?sound svc" .
  show "\<forall>t. tx_room (pg_current ob t (factory svc))"
    using pg_has_room [OF fallible_stores.soundD(4) [OF L S], of "WriteRelationships t ws ds" for t ws ds] by simp
qed


text \<open>
  C7. With a database tenants are isolated: an HTTP request leaves the version, the committed tuples of every
  version and the schema of each tenant its key does not belong to, and so does a gRPC call; whatever
  statements fail.
\<close>

theorem pg_server_isolation:
  assumes "pg_server ax A F env repo K C db ob defs svc"
    and "fst (rest_auth_middleware A (with_repository repo) (hr_path req) (hr_authorization req)) \<noteq> RunHandler (Some u)"
    and "fst (grpc_auth_interceptor A (with_repository repo) authorization) \<noteq> Inr u"
    and "svc' = snd (create_router ax A F env (with_repository repo) elapsed req svc) \<or>
      svc' = snd (grpc_server A F env (with_repository repo) elapsed authorization call svc)"
  shows "pg_current ob u (factory svc') = pg_current ob u (factory svc) \<and>
    pg_tuples ob u (factory svc') = pg_tuples ob u (factory svc) \<and>
    pg_schema_text defs u (factory svc') = pg_schema_text defs u (factory svc)"
proof -
  note L = pg_server_sound(1) [OF assms(1)] and S = pg_server_sound(2,3) [OF assms(1)]
  from assms(4) show ?thesis
  proof
    assume e: "svc' = snd (create_router ax A F env (with_repository repo) elapsed req svc)"
    show ?thesis
      using fallible_stores.create_router_sound(2) [OF L S assms(2)] unfolding e fallible_stores.same_tenant_def [OF L] .
  next
    assume e: "svc' = snd (grpc_server A F env (with_repository repo) elapsed authorization call svc)"
    show ?thesis
      using fallible_stores.grpc_server_sound(2) [OF L S assms(3)] unfolding e fallible_stores.same_tenant_def [OF L] .
  qed
qed

end
