(* ===== verification/Postgres_Demo.thy ===== *)
theory Postgres_Demo
  imports Postgres_Correct
begin

text \<open>
  A small database that obeys \<open>sql_laws\<close>: it reads the text of the statements of the store and evaluates
  them on lists of rows. The properties of the PostgreSQL store are instantiated on it.
\<close>

section \<open>Reading conditions\<close>

definition is_space :: "char \<Rightarrow> bool" where
  "is_space c \<longleftrightarrow> c = CHR '' '' \<or> c = CHR 0x0A"

fun scan :: "string \<Rightarrow> string list" where
  "scan [] = [[]]"
| "scan (c # cs) = (if is_space c then [] # scan cs else (case scan cs of w # ws \<Rightarrow> (c # w) # ws | [] \<Rightarrow> [[c]]))"

definition words :: "string \<Rightarrow> string list" where
  "words s = filter (\<lambda>w. w \<noteq> []) (scan s)"

lemma scan_not_Nil [simp]: "scan s \<noteq> []"
  by (cases s) (auto split: list.splits)

lemma scan_append_space: "is_space c \<Longrightarrow> scan (a @ c # b) = scan a @ scan b"
proof (induction a)
  case (Cons x a)
  then show ?case by (cases "scan a") auto
qed simp

lemma words_append_space: "is_space c \<Longrightarrow> words (a @ c # b) = words a @ words b"
  by (simp add: words_def scan_append_space)

lemma scan_word: "\<forall>c\<in>set w. \<not> is_space c \<Longrightarrow> scan w = [w]"
  by (induction w) auto

lemma words_word: "w \<noteq> [] \<Longrightarrow> \<forall>c\<in>set w. \<not> is_space c \<Longrightarrow> words w = [w]"
  by (simp add: words_def scan_word)

definition columns :: "Column list" where
  "columns = [ObjectType, ObjectId, RelationName, SubjectType, SubjectId, SubjectRelation, CreatedTxId, DeletedTxId]"

definition column_named :: "string \<Rightarrow> Column option" where
  "column_named s = List.find (\<lambda>c. column_name c = s) columns"

definition read_cond :: "string \<Rightarrow> string \<Rightarrow> string \<Rightarrow> SqlCond option" where
  "read_cond col op arg = Option.bind (column_named col) (\<lambda>c.
     if op = ''IS'' then (if arg = ''NULL'' then Some (CondNull c) else None)
     else Option.bind (Option.bind (strip_prefix ''$'' arg) (parse_digits 0)) (\<lambda>n.
       if op = ''='' then Some (CondEq c n) else if op = ''<='' then Some (CondLe c n)
       else if op = ''>'' then Some (CondGt c n) else None))"

fun read_conds :: "string list \<Rightarrow> SqlCond list option" where
  "read_conds (col # op # arg # rest) = Option.bind (read_cond col op arg) (\<lambda>c.
     case rest of
       [] \<Rightarrow> Some [c]
     | w # rest' \<Rightarrow> if w = ''AND'' then map_option (\<lambda>cs. c # cs) (read_conds rest') else None)"
| "read_conds _ = None"

lemma column_named_name [simp]: "column_named (column_name c) = Some c"
  by (cases c) (simp_all add: column_named_def columns_def)

lemma no_space_digits: "c \<in> set (show_nat n) \<Longrightarrow> \<not> is_space c"
  using show_nat_digits [of n] by (auto simp: is_space_def is_digit_def)

fun cond_words :: "SqlCond \<Rightarrow> string list" where
  "cond_words (CondEq c n) = [column_name c, ''='', ''$'' @ show_nat n]"
| "cond_words (CondLe c n) = [column_name c, ''<='', ''$'' @ show_nat n]"
| "cond_words (CondGt c n) = [column_name c, ''>'', ''$'' @ show_nat n]"
| "cond_words (CondNull c) = [column_name c, ''IS'', ''NULL'']"

lemma words_column: "words (column_name c) = [column_name c]"
  by (cases c) (simp_all add: words_def is_space_def)

lemma words_placeholder: "words (CHR ''$'' # show_nat n) = [CHR ''$'' # show_nat n]"
  by (rule words_word) (auto dest: no_space_digits simp: is_space_def)

lemma words_op: "w \<noteq> [] \<Longrightarrow> \<forall>c\<in>set w. \<not> is_space c \<Longrightarrow> words (w @ CHR '' '' # b) = w # words b"
  by (simp add: words_append_space words_word is_space_def)

lemma words_ops:
  "words (CHR ''='' # CHR '' '' # b) = ''='' # words b" "words (CHR ''>'' # CHR '' '' # b) = ''>'' # words b"
  "words (CHR ''<'' # CHR ''='' # CHR '' '' # b) = ''<='' # words b" "words ''IS NULL'' = [''IS'', ''NULL'']"
  using words_op [of "''=''" b] words_op [of "''>''" b] words_op [of "''<=''" b] words_op [of "''IS''" "''NULL''"]
  by (simp_all add: is_space_def words_word)

lemma words_show_cond: "words (show_cond c) = cond_words c"
  by (cases c) (simp_all add: words_append_space is_space_def words_column words_placeholder words_ops)

lemma words_join:
  "words (join_and (map show_cond (c # cs))) = cond_words c @ concat (map (\<lambda>c. ''AND'' # cond_words c) cs)"
proof (induction cs arbitrary: c)
  case (Cons x cs)
  have "words (show_cond c @ '' AND '' @ join_and (map show_cond (x # cs))) =
      cond_words c @ ''AND'' # words (join_and (map show_cond (x # cs)))"
    using words_op [of "''AND''" "join_and (map show_cond (x # cs))"]
    by (simp add: words_append_space is_space_def words_show_cond)
  with Cons show ?case by simp
qed (simp add: words_show_cond)

lemma read_cond_words: "cond_words c = [a, b, d] \<Longrightarrow> read_cond a b d = Some c"
  by (cases c) (auto simp: read_cond_def parse_digits_show_nat)

lemma read_cond_words_append:
  "read_conds (cond_words c @ rest) = (case rest of [] \<Rightarrow> Some [c]
     | w # rest' \<Rightarrow> if w = ''AND'' then map_option (\<lambda>cs. c # cs) (read_conds rest') else None)"
proof -
  obtain x y z where "cond_words c = [x, y, z]" by (cases c) auto
  with read_cond_words [OF this] show ?thesis by (simp split: list.splits)
qed

lemma read_conds_words: "cs \<noteq> [] \<Longrightarrow> read_conds (words (join_and (map show_cond cs))) = Some cs"
proof -
  have "read_conds (cond_words c @ concat (map (\<lambda>c. ''AND'' # cond_words c) cs)) = Some (c # cs)" for c cs
    by (induction cs arbitrary: c) (simp_all add: read_cond_words_append read_cond_words_append [where rest = "[]", simplified])
  moreover assume "cs \<noteq> []"
  ultimately show ?thesis by (cases cs) (simp_all only: words_join)
qed

section \<open>Running statements\<close>

record DemoPg =
  dp_rows :: "string \<Rightarrow> Executor \<Rightarrow> PgRow list"
  dp_seq :: "string \<Rightarrow> int"
  dp_defs :: "string \<Rightarrow> (string \<times> int) list"

text \<open>The schema named at a position of the text: a valid name has 39 characters.\<close>

definition schema_at :: "nat \<Rightarrow> string \<Rightarrow> string" where
  "schema_at n text_of = take 39 (drop n text_of)"

definition set_rows :: "string \<Rightarrow> Executor \<Rightarrow> PgRow list \<Rightarrow> DemoPg \<Rightarrow> DemoPg" where
  "set_rows s c R d = d\<lparr>dp_rows := (dp_rows d)(s := (dp_rows d s)(c := R))\<rparr>"

fun some_text :: "SqlValue \<Rightarrow> string option" where
  "some_text (SqlText v) = v"
| "some_text _ = None"

fun nullable_text :: "SqlValue \<Rightarrow> string option option" where
  "nullable_text (SqlText v) = Some v"
| "nullable_text _ = None"

fun big_int :: "SqlValue \<Rightarrow> int option" where
  "big_int (SqlBigInt n) = Some n"
| "big_int _ = None"

definition row_of_binds :: "SqlValue list \<Rightarrow> PgRow option" where
  "row_of_binds bs =
     (if length bs \<noteq> 8 then None
      else Option.bind (some_text (bs ! 0)) (\<lambda>ot. Option.bind (some_text (bs ! 1)) (\<lambda>oi.
           Option.bind (some_text (bs ! 2)) (\<lambda>rel. Option.bind (some_text (bs ! 3)) (\<lambda>st.
           Option.bind (some_text (bs ! 4)) (\<lambda>si. Option.bind (nullable_text (bs ! 5)) (\<lambda>sr.
           Option.bind (big_int (bs ! 6)) (\<lambda>created. Option.bind (big_int (bs ! 7)) (\<lambda>deleted.
             Some \<lparr>pr_tuple = tuple_of_columns (ot, oi, rel, st, si, sr), pr_created = created, pr_deleted = deleted\<rparr>)))))))))"

definition demo_update :: "string \<Rightarrow> Executor \<Rightarrow> string \<Rightarrow> SqlValue list \<Rightarrow> DemoPg \<Rightarrow> (string + u64) \<times> DemoPg" where
  "demo_update s c where_clause bs d =
     (case (read_conds (words where_clause), bs) of
        (Some cs, _ # SqlBigInt tx # _) \<Rightarrow>
          (Inr (of_nat (length (filter (\<lambda>q. list_all (cond_holds bs q) cs) (dp_rows d s c)))),
           set_rows s c (map (pg_mark_deleted tx (\<lambda>q. list_all (cond_holds bs q) cs)) (dp_rows d s c)) d)
      | _ \<Rightarrow> (Inl ''syntax error'', d))"

definition demo_insert :: "string \<Rightarrow> Executor \<Rightarrow> SqlValue list \<Rightarrow> DemoPg \<Rightarrow> (string + u64) \<times> DemoPg" where
  "demo_insert s c bs d =
     (case row_of_binds bs of
        None \<Rightarrow> (Inl ''type error'', d)
      | Some r \<Rightarrow>
          if list_ex (\<lambda>q. pr_tuple q = pr_tuple r \<and> pr_deleted q = pr_deleted r) (dp_rows d s c) then (Inr 0, d)
          else (Inr 1, set_rows s c (dp_rows d s c @ [r]) d))"

text \<open>The clock of this database ticks once per row.\<close>

definition demo_insert_schema :: "string \<Rightarrow> SqlValue list \<Rightarrow> DemoPg \<Rightarrow> (string + u64) \<times> DemoPg" where
  "demo_insert_schema s bs d =
     (case bs of
        [SqlText (Some x)] \<Rightarrow>
          (Inr 1, d\<lparr>dp_defs := (dp_defs d)(s := dp_defs d s @ [(x, fold (\<lambda>(y, at) m. max m (at + 1)) (dp_defs d s) 0)])\<rparr>)
      | _ \<Rightarrow> (Inl ''type error'', d))"

definition demo_execute :: "Executor \<Rightarrow> Query \<Rightarrow> DemoPg \<Rightarrow> (string + u64) \<times> DemoPg" where
  "demo_execute c q d =
     (case strip_prefix (update_sql (schema_at 7 (sql q)) []) (sql q) of
        Some where_clause \<Rightarrow> demo_update (schema_at 7 (sql q)) c where_clause (binds q) d
      | None \<Rightarrow>
          if sql q = insert_sql (schema_at 21 (sql q)) then demo_insert (schema_at 21 (sql q)) c (binds q) d
          else if sql q = insert_schema_sql (schema_at 21 (sql q)) then demo_insert_schema (schema_at 21 (sql q)) (binds q) d
          else (Inl ''unknown statement'', d))"

definition demo_fetch_one :: "Executor \<Rightarrow> Query \<Rightarrow> DemoPg \<Rightarrow> (string + int) \<times> DemoPg" where
  "demo_fetch_one c q d =
     (let s = schema_at 16 (sql q); s' = schema_at 40 (sql q)
      in if sql q = nextval_sql s then
           (if dp_seq d s < ACTIVE_TX_ID_i64
            then (Inr (dp_seq d s + 1), d\<lparr>dp_seq := (dp_seq d)(s := dp_seq d s + 1)\<rparr>)
            else (Inl ''nextval: reached maximum value of sequence'', d))
         else if sql q = current_sql s' then (Inr (dp_seq d s'), d)
         else (Inl ''unknown statement'', d))"

definition demo_fetch_tuples :: "Executor \<Rightarrow> Query \<Rightarrow> DemoPg \<Rightarrow> string + TupleColumns list" where
  "demo_fetch_tuples c q d =
     (let s = schema_at 100 (sql q)
      in case strip_prefix (select_sql s [] None) (sql q) of
           None \<Rightarrow> Inl ''unknown statement''
         | Some rest \<Rightarrow>
             (let ws = words rest; cond = takeWhile (\<lambda>w. w \<noteq> ''LIMIT'') ws; lim = drop (length cond + 1) ws
              in case read_conds cond of
                   None \<Rightarrow> Inl ''syntax error''
                 | Some cs \<Rightarrow>
                     (let found = map (\<lambda>r. columns_of (pr_tuple r)) (filter (\<lambda>r. list_all (cond_holds (binds q) r) cs) (dp_rows d s c))
                      in case lim of [] \<Rightarrow> Inr found
                         | n # _ \<Rightarrow> (case parse_digits 0 n of Some n \<Rightarrow> Inr (take n found) | None \<Rightarrow> Inl ''syntax error''))))"

definition demo_fetch_text :: "Executor \<Rightarrow> Query \<Rightarrow> DemoPg \<Rightarrow> string + string option" where
  "demo_fetch_text c q d =
     (let s = schema_at 32 (sql q)
      in if sql q = latest_schema_sql s then
           Inr (map_option fst (List.find (\<lambda>(x, at). list_all (\<lambda>(y, at'). at' \<le> at) (dp_defs d s)) (dp_defs d s)))
         else Inl ''unknown statement'')"

definition demo_sqlx :: "DemoPg Sqlx" where
  "demo_sqlx = \<lparr>execute = demo_execute, fetch_one_i64 = demo_fetch_one, fetch_all_tuples = demo_fetch_tuples,
     fetch_all_text = (\<lambda>c q d. Inr []), fetch_optional_text = demo_fetch_text, fetch_optional_uuid = (\<lambda>c q d. Inr None),
     begin_tx = (\<lambda>d. (Inr (), d\<lparr>dp_rows := (\<lambda>s c. dp_rows d s Pool)\<rparr>)),
     commit_tx = (\<lambda>d. (Inr (), d\<lparr>dp_rows := (\<lambda>s c. dp_rows d s Tx)\<rparr>)),
     rollback_tx = (\<lambda>d. d)\<rparr>"

definition demo_observer :: "DemoPg Observer" where
  "demo_observer = \<lparr>rows = (\<lambda>s c d. set (dp_rows d s c)), last_tx = (\<lambda>s d. dp_seq d s)\<rparr>"

lemma valid_schema_length: "validate_schema_name s = Inr () \<Longrightarrow> length s = 39"
  by (simp add: validate_schema_name_def Let_def split: if_splits)

lemma schema_at_simps [simp]:
  assumes "length s = 39"
  shows "schema_at 7 (update_sql s cs) = s" "schema_at 21 (insert_sql s) = s" "schema_at 16 (nextval_sql s) = s"
    "schema_at 40 (current_sql s) = s" "schema_at 100 (select_sql s cs lim) = s"
  using assms by (simp_all add: schema_at_def update_sql_def insert_sql_def nextval_sql_def current_sql_def select_sql_def quoted_def)

lemma update_sql_split: "update_sql s cs = update_sql s [] @ join_and cs"
  by (simp add: update_sql_def)

lemma strip_update: "strip_prefix (update_sql s []) (update_sql s cs) = Some (join_and cs)"
  by (subst update_sql_split) simp

lemma select_sql_split: "select_sql s cs lim = select_sql s [] None @ join_and cs @ limit_clause lim"
  by (simp add: select_sql_def limit_clause_def)

lemma not_update: "strip_prefix (update_sql s cs) (insert_sql s') = None"
  by (simp add: update_sql_def insert_sql_def)

lemma demo_execute_update:
  "length s = 39 \<Longrightarrow> demo_execute c \<lparr>sql = update_sql s cs, binds = bs\<rparr> d = demo_update s c (join_and cs) bs d"
  by (simp add: demo_execute_def strip_update)

lemma demo_execute_insert:
  "length s = 39 \<Longrightarrow> demo_execute c \<lparr>sql = insert_sql s, binds = bs\<rparr> d = demo_insert s c bs d"
  by (simp add: demo_execute_def not_update)

lemma demo_update_law: "update_law demo_sqlx demo_observer"
  unfolding update_law_sql
  by (auto simp: demo_sqlx_def demo_observer_def demo_execute_update valid_schema_length demo_update_def read_conds_words
      same_elsewhere_def set_rows_def)

lemma demo_insert_law: "insert_law demo_sqlx demo_observer"
  unfolding insert_law_sql
  by (auto simp: demo_sqlx_def demo_observer_def demo_execute_insert valid_schema_length demo_insert_def row_of_binds_def
      same_elsewhere_def set_rows_def insert_row_def list_ex_iff columns_of_def [symmetric] split: if_splits)

lemma demo_nextval_law: "nextval_law demo_sqlx demo_observer"
  unfolding nextval_law_sql
  by (auto simp: demo_sqlx_def demo_observer_def demo_fetch_one_def valid_schema_length Let_def split: if_splits)

lemma not_nextval: "current_sql s \<noteq> nextval_sql s'"
  by (simp add: current_sql_def nextval_sql_def)

lemma demo_current_law: "current_law demo_sqlx demo_observer"
  unfolding current_law_sql
  by (auto simp: demo_sqlx_def demo_observer_def demo_fetch_one_def valid_schema_length Let_def not_nextval)

lemma demo_transaction_law: "transaction_law demo_sqlx demo_observer"
  by (auto simp: transaction_law_def demo_sqlx_def demo_observer_def)

lemma strip_select:
  "strip_prefix (select_sql s [] None) (select_sql s cs lim) = Some (join_and cs @ limit_clause lim)"
  by (subst select_sql_split) simp

lemma words_limit: "words (a @ limit_clause lim) = words a @ (case lim of Some n \<Rightarrow> [''LIMIT'', show_nat n] | None \<Rightarrow> [])"
proof (cases lim)
  case (Some n)
  have "words (show_nat n) = [show_nat n]" by (rule words_word) (auto dest: no_space_digits)
  with words_op [of "''LIMIT''" "show_nat n"] show ?thesis
    by (simp add: Some limit_clause_def words_append_space is_space_def)
qed (simp add: limit_clause_def)

lemma no_limit_words: "''LIMIT'' \<notin> set (words (join_and (map show_cond cs)))"
proof -
  have "''LIMIT'' \<notin> set (cond_words c)" for c
  proof -
    have "column_name x \<noteq> ''LIMIT''" for x by (cases x) simp_all
    then show ?thesis by (cases c) (auto dest: sym)
  qed
  then show ?thesis by (cases cs) (auto simp only: words_join set_append set_concat set_map list.set, auto simp: words_def)
qed

lemma demo_fetch_select:
  assumes "length s = 39" "cs \<noteq> []"
  shows "demo_fetch_tuples c \<lparr>sql = select_sql s (map show_cond cs) lim, binds = bs\<rparr> d =
    Inr (take_opt lim (map (\<lambda>r. columns_of (pr_tuple r)) (filter (\<lambda>r. list_all (cond_holds bs r) cs) (dp_rows d s c))))"
proof -
  let ?w = "words (join_and (map show_cond cs))"
  have "takeWhile (\<lambda>w. w \<noteq> ''LIMIT'') (?w @ (case lim of Some n \<Rightarrow> [''LIMIT'', show_nat n] | None \<Rightarrow> [])) = ?w"
    using no_limit_words [of cs] by (auto simp: takeWhile_append split: option.splits)
  with assms show ?thesis
    by (cases lim) (simp_all add: demo_fetch_tuples_def Let_def strip_select words_limit read_conds_words parse_digits_show_nat
        del: takeWhile_eq_all_conv)
qed

lemma demo_select_law: "select_law demo_sqlx demo_observer"
proof -
  have "set (take_opt lim (map f (filter p xs))) \<subseteq> f ` {q \<in> set xs. p q}" for lim and f :: "PgRow \<Rightarrow> TupleColumns" and p xs
    using set_take_opt [of lim "map f (filter p xs)"] by auto
  then show ?thesis
    unfolding select_law_sql Let_def
    by (auto simp: demo_sqlx_def demo_observer_def demo_fetch_select valid_schema_length) 
qed

lemma demo_laws: "sql_laws demo_sqlx demo_observer"
  by (simp add: sql_laws_def demo_update_law demo_insert_law demo_nextval_law demo_current_law demo_select_law demo_transaction_law)

section \<open>The properties on a stored tuple\<close>

definition demo_row :: "string \<Rightarrow> PgRow" where
  "demo_row u = \<lparr>pr_tuple = Tuple_new (ObjectRef_new ''document'' ''plan'') ''owner'' (direct ''user'' u),
     pr_created = 1, pr_deleted = ACTIVE_TX_ID_i64\<rparr>"

definition demo_pg_update :: TupleWrite where
  "demo_pg_update = TupleWrite_new (ObjectRef_new ''document'' ''plan'') ''owner'' (direct ''user'' ''bob'')"

definition demo_pg :: DemoPg where
  "demo_pg = \<lparr>dp_rows = (\<lambda>s c. if s = schema_name_for_tenant (TenantId 1) then [demo_row ''ann''] else []),
     dp_seq = (\<lambda>s. if s = schema_name_for_tenant (TenantId 1) then 1 else 0), dp_defs = (\<lambda>s. [])\<rparr>"

lemma demo_pg_inv: "pg_inv demo_observer (schema_name_for_tenant (TenantId 1)) demo_pg"
  by (simp add: pg_inv_def demo_observer_def demo_pg_def rows_upto_def demo_row_def ACTIVE_TX_ID_i64_def)

abbreviation demo_schema_name :: string where
  "demo_schema_name \<equiv> schema_name_for_tenant (TenantId 1)"

definition demo_pg_written :: "(StorageError + SnapshotToken) \<times> DemoPg" where
  "demo_pg_written = pg_write demo_sqlx demo_schema_name demo_pg [demo_pg_update] [exact_filter (pr_tuple (demo_row ''ann''))]"

lemma demo_pg_write_answers:
  "pg_write demo_sqlx demo_schema_name demo_pg [demo_pg_update] [exact_filter (pr_tuple (demo_row ''ann''))]
    = (Inr (SnapshotToken 2), snd demo_pg_written)"
proof -
  have "fst demo_pg_written = Inr (SnapshotToken 2)" by code_simp
  then show ?thesis unfolding demo_pg_written_def by (metis prod.collapse)
qed

lemma demo_pg_read_answers:
  "pg_read demo_sqlx demo_schema_name (snd demo_pg_written) TupleFilter_default (Some (SnapshotToken 2)) None =
     Inr [Tuple_from demo_pg_update]"
  by code_simp

lemma demo_pg_view: "pg_view demo_observer demo_schema_name demo_pg 1 = {pr_tuple (demo_row ''ann'')}"
  by (auto simp: visible_def demo_observer_def demo_pg_def demo_row_def ACTIVE_TX_ID_i64_def)

theorem pg_write_atomic_witness:
  "pg_view demo_observer demo_schema_name (snd demo_pg_written) 2 = {Tuple_from demo_pg_update} \<and>
   pg_view demo_observer (schema_name_for_tenant (TenantId 2)) (snd demo_pg_written) 0 = {}"
proof -
  have l: "last_tx demo_observer demo_schema_name demo_pg = 1" by (simp add: demo_observer_def demo_pg_def)
  have e: "pg_view demo_observer (schema_name_for_tenant (TenantId 2)) demo_pg v = {}" for v
    by (simp add: visible_def demo_observer_def demo_pg_def)
  have "TenantId 2 \<noteq> TenantId 1" by simp
  from pg_write_atomic [OF demo_laws demo_pg_inv demo_pg_write_answers this] show ?thesis
    by (auto simp: pg_written_def l demo_pg_view selected_def e fun_eq_iff)
qed

theorem pg_read_own_write_witness:
  "set [Tuple_from demo_pg_update] = {x. matches TupleFilter_default x \<and>
     (x \<in> pg_view demo_observer demo_schema_name demo_pg (last_tx demo_observer demo_schema_name demo_pg) \<and>
        \<not> selected [exact_filter (pr_tuple (demo_row ''ann''))] x \<or> x \<in> Tuple_from ` set [demo_pg_update])}"
  using pg_read_own_write [OF demo_laws demo_pg_inv demo_pg_write_answers, of TupleFilter_default]
  by (simp only: demo_pg_read_answers sum.case)

end
