(* ===== verification/Postgres_Service_Demo.thy ===== *)
theory Postgres_Service_Demo
  imports Postgres_Service Postgres_Demo Service_Demo
begin

text \<open>
  The service over the database of \<open>Postgres_Demo\<close>, which keeps the laws of schema definitions too: a schema
  and its tuples are written by statements, and the properties of the service over PostgreSQL are
  instantiated there.
\<close>

abbreviation demo_defs :: "DemoPg Definitions" where
  "demo_defs s d \<equiv> dp_defs d s"

lemma clock_after: "(y :: 'a, at) \<in> set D \<Longrightarrow> at < fold (\<lambda>(y, at) m. max m (at + 1)) D (n :: int)"
proof -
  have le: "n \<le> fold (\<lambda>(y, at) m. max m (at + 1)) D n" for D :: "('a \<times> int) list" and n
  proof (induction D arbitrary: n)
    case (Cons a D)
    then show ?case
      using order.trans [OF max.cobounded1 Cons.IH, of n "snd a + 1"] by (cases a) simp
  qed simp
  assume "(y, at) \<in> set D"
  then show ?thesis
  proof (induction D arbitrary: n)
    case (Cons a D)
    then show ?case using le [of "max n (at + 1)" D] by (cases "a = (y, at)") auto
  qed simp
qed

lemma newest_exists: "D \<noteq> [] \<Longrightarrow> \<exists>(x, at)\<in>set D. \<forall>(y, at')\<in>set D. at' \<le> (at :: int)"
proof -
  assume "D \<noteq> []"
  then have "Max (snd ` set D) \<in> snd ` set D" by (intro Max_in) simp_all
  then obtain r where "r \<in> set D" "snd r = Max (snd ` set D)" by (metis imageE)
  moreover have "\<forall>y\<in>set D. snd y \<le> Max (snd ` set D)" by (intro ballI Max_ge) simp_all
  ultimately show ?thesis unfolding split_beta by metis
qed

lemma find_SomeD: "List.find p xs = Some x \<Longrightarrow> x \<in> set xs \<and> p x"
  by (induction xs) (auto split: if_splits)

lemma not_update_schema: "strip_prefix (update_sql s cs) (insert_schema_sql s') = None"
  by (simp add: update_sql_def insert_schema_sql_def)

lemma insert_not_schema: "length s = 39 \<Longrightarrow> length s' = 39 \<Longrightarrow> insert_schema_sql s \<noteq> insert_sql s'"
  by (auto simp: insert_schema_sql_def insert_sql_def append_eq_append_conv)

lemma schema_at_definitions [simp]:
  assumes "length s = 39"
  shows "schema_at 21 (insert_schema_sql s) = s" "schema_at 32 (latest_schema_sql s) = s"
  using assms by (simp_all add: schema_at_def insert_schema_sql_def latest_schema_sql_def)

lemma demo_execute_schema:
  "length s = 39 \<Longrightarrow> demo_execute c \<lparr>sql = insert_schema_sql s, binds = bs\<rparr> d = demo_insert_schema s bs d"
  by (simp add: demo_execute_def not_update_schema insert_not_schema)

lemma demo_schema_laws: "schema_laws demo_sqlx demo_observer demo_defs"
proof -
  have "schema_insert_law demo_sqlx demo_observer demo_defs"
    unfolding schema_insert_law_sql
    by (auto simp: demo_sqlx_def demo_observer_def demo_execute_schema valid_schema_length demo_insert_schema_def
        intro: clock_after)
  moreover have "schema_select_law demo_sqlx demo_defs"
    unfolding schema_select_law_sql
  proof (intro allI impI)
    fix s d out
    assume v: "validate_schema_name s = Inr ()"
      and f: "fetch_optional_text demo_sqlx Pool \<lparr>sql = latest_schema_sql s, binds = []\<rparr> d = Inr out"
    let ?p = "\<lambda>(x, at). list_all (\<lambda>(y, at'). at' \<le> at) (dp_defs d s)"
    from f have out: "out = map_option fst (List.find ?p (dp_defs d s))"
      by (simp add: demo_sqlx_def demo_fetch_text_def valid_schema_length [OF v] Let_def)
    show "case out of None \<Rightarrow> dp_defs d s = []
        | Some x \<Rightarrow> \<exists>at. (x, at) \<in> set (dp_defs d s) \<and> (\<forall>(y, at')\<in>set (dp_defs d s). at' \<le> at)"
    proof (cases "List.find ?p (dp_defs d s)")
      case None
      then have "\<not> (\<exists>r\<in>set (dp_defs d s). ?p r)" by (auto simp: find_None_iff)
      then have "dp_defs d s = []" using newest_exists [of "dp_defs d s"] by (force simp: list_all_iff)
      with None out show ?thesis by simp
    next
      case (Some r)
      then have r: "r \<in> set (dp_defs d s)" and p: "?p r" by (auto dest!: find_SomeD)
      obtain x at where x: "r = (x, at)" by fastforce
      from p x have "\<forall>(y, at')\<in>set (dp_defs d s). at' \<le> at" by (simp add: list_all_iff)
      with r x show ?thesis by (auto simp: out Some)
    qed
  qed
  moreover have "tuple_statements_law demo_sqlx demo_defs"
    unfolding tuple_statements_law_sql
  proof (intro conjI allI impI)
    fix s d s' cs bs
    assume "validate_schema_name s = Inr ()"
    then have l: "length s = 39" by (rule valid_schema_length)
    show "dp_defs (snd (execute demo_sqlx Tx \<lparr>sql = update_sql s cs, binds = bs\<rparr> d)) s' = dp_defs d s'"
      by (simp add: demo_sqlx_def demo_execute_update [OF l] demo_update_def set_rows_def
          split: option.splits list.splits SqlValue.splits)
    show "dp_defs (snd (execute demo_sqlx Tx \<lparr>sql = insert_sql s, binds = bs\<rparr> d)) s' = dp_defs d s'"
      by (simp add: demo_sqlx_def demo_execute_insert [OF l] demo_insert_def set_rows_def split: option.splits)
  qed (simp_all add: demo_sqlx_def demo_fetch_one_def Let_def)
  ultimately show ?thesis by (simp add: schema_laws_def)
qed

section \<open>A service over the database\<close>

type_synonym PgDemoEnv = "(DemoPg PostgresStoreFactory, TenantId \<rightharpoonup> Schema, CheckCacheKey \<rightharpoonup> bool) Env"
type_synonym PgDemoService = "(DemoPg PostgresStoreFactory, TenantId \<rightharpoonup> Schema, CheckCacheKey \<rightharpoonup> bool) AuthzService"

definition pg_env :: PgDemoEnv where
  "pg_env = \<lparr>env_factory = PostgresStoreFactory_ops demo_sqlx, env_schema_cache = demo_cache,
     env_check_cache = demo_cache, env_pest_error = (\<lambda>_. ''syntax'')\<rparr>"

text \<open>A database with the schema, written at time 0, and one tuple.\<close>

definition stored_pg :: DemoPg where
  "stored_pg = \<lparr>dp_rows = (\<lambda>s c. if s = demo_schema_name then
       [\<lparr>pr_tuple = Tuple_new (ObjectRef_new ''doc'' ''1'') ''owner'' (direct ''user'' ''bob''),
         pr_created = 1, pr_deleted = ACTIVE_TX_ID_i64\<rparr>] else []),
     dp_seq = (\<lambda>s. if s = demo_schema_name then 1 else 0),
     dp_defs = (\<lambda>s. if s = demo_schema_name then [(plain_text, 0)] else [])\<rparr>"

definition pg_start :: PgDemoService where
  "pg_start = AuthzService_new pg_env (PostgresStoreFactory_new stored_pg) EngineConfig_default SchemaLimits_default"

definition pg_with_tuples :: PgDemoService where
  "pg_with_tuples = snd (write_relationships pg_env demo_tenant plain_writes [] pg_start)"

definition pg_check_input :: "Consistency \<Rightarrow> CheckPermissionInput" where
  "pg_check_input c = \<lparr>cpi_object_type = ''doc'', cpi_object_id = ''1'', cpi_permission = ''view'',
     cpi_subject_type = ''user'', cpi_subject_id = ''ann'', cpi_consistency = c\<rparr>"

lemma pg_start_serving: "pg_serving pg_env (\<lambda>c. c) (\<lambda>c. c) demo_sqlx demo_observer demo_defs pg_start"
proof -
  have i: "factory_inv demo_observer demo_defs (PostgresStoreFactory_new stored_pg)"
    by (simp add: factory_inv_def PostgresStoreFactory_new_def stored_pg_def pg_inv_def demo_observer_def rows_upto_def
        ACTIVE_TX_ID_i64_def)
  have "env_factory pg_env = PostgresStoreFactory_ops demo_sqlx" "cache_laws (env_schema_cache pg_env) (\<lambda>c. c)"
    "cache_laws (env_check_cache pg_env) (\<lambda>c. c)" by (simp_all add: pg_env_def demo_cache_laws)
  with i svc_reachable.start demo_laws demo_schema_laws show ?thesis
    unfolding pg_serving_def pg_start_def AuthzService_new_def by blast
qed

section \<open>What the store answers on this database\<close>

lemma demo_read_tuples:
  assumes "validate_schema_name s = Inr ()"
  shows "read_tuples demo_sqlx Pool s f v None d = Inr (map pr_tuple
    (filter (\<lambda>r. pr_created r \<le> v \<and> v < pr_deleted r \<and> matches f (pr_tuple r)) (dp_rows d s Pool)))"
proof -
  obtain cs bs i where p: "push_filter f ([''created_tx_id <= $1'', ''deleted_tx_id > $1''], [], 2) = (map show_cond cs, bs, i)"
    "cs \<noteq> []" "\<And>r. list_all (cond_holds (SqlBigInt v # bs) r) cs \<longleftrightarrow>
      pr_created r \<le> v \<and> v < pr_deleted r \<and> matches f (pr_tuple r)"
    by (rule read_conditions) blast
  from demo_fetch_select [OF valid_schema_length [OF assms] p(2), of Pool None "SqlBigInt v # bs" d]
  show ?thesis by (simp add: read_tuples_def p(1) demo_sqlx_def p(3) comp_def)
qed

lemma demo_current_tx_id:
  "validate_schema_name s = Inr () \<Longrightarrow> current_tx_id demo_sqlx Pool s d = Inr (dp_seq d s)"
  by (simp add: current_tx_id_def demo_sqlx_def demo_fetch_one_def valid_schema_length Let_def not_nextval)

lemma demo_reader:
  assumes "validate_schema_name s = Inr ()" "uint v \<le> dp_seq (pool fac) s" "dp_seq (pool fac) s \<le> ACTIVE_TX_ID_i64"
  shows "StoreTupleReader (pg_handle demo_sqlx s) fac f (Some (SnapshotToken v)) = Inr (map pr_tuple
    (filter (\<lambda>r. pr_created r \<le> uint v \<and> uint v < pr_deleted r \<and> matches f (pr_tuple r)) (dp_rows (pool fac) s Pool)))"
proof -
  have "0 \<le> dp_seq (pool fac) s" using assms(2) uint_ge_0 [of v] by linarith
  then have "\<not> word_of_int (dp_seq (pool fac) s) < v"
    using assms(2,3) by (simp add: word_less_def word_of_tx not_less)
  moreover have "sint v = uint v" using assms(2,3) by (intro sint_tx) simp
  ultimately show ?thesis
    by (simp add: StoreTupleReader_def pg_handle_def pg_read_def pg_read_snapshot_def demo_current_tx_id [OF assms(1)]
        demo_read_tuples [OF assms(1)] Let_def)
qed

lemma demo_tenant_handle:
  "open_store pg_env demo_tenant svc = (pg_handle demo_sqlx (tenant_schema (factory svc) demo_tenant), svc)"
  by (simp add: open_store_def pg_env_def PostgresStoreFactory_ops_def)

lemma demo_stored_schema:
  assumes "validate_schema_name s = Inr ()" "dp_defs (pool fac) s = [(x, 0)]"
  shows "load_schema pg_env (pg_handle demo_sqlx s) fac = map_err Parse (parse_schema (\<lambda>_. ''syntax'') x)"
  using assms by (simp add: load_schema_def pg_handle_def pg_read_schema_def read_latest_schema_def demo_sqlx_def
      demo_fetch_text_def valid_schema_length Let_def pg_env_def)

lemma demo_write_one:
  assumes "validate_schema_name s = Inr ()" "dp_seq d s + 1 < ACTIVE_TX_ID_i64"
    and "\<forall>r\<in>set (dp_rows d s Pool). pr_tuple r \<noteq> Tuple_from w"
  shows "pg_write demo_sqlx s d [w] [] = (Inr (SnapshotToken (word_of_int (dp_seq d s + 1))),
    d\<lparr>dp_rows := (\<lambda>s' c. if s' = s then dp_rows d s Pool @
          [\<lparr>pr_tuple = Tuple_from w, pr_created = dp_seq d s + 1, pr_deleted = ACTIVE_TX_ID_i64\<rparr>] else dp_rows d s' Pool),
      dp_seq := (dp_seq d)(s := dp_seq d s + 1)\<rparr>)"
proof -
  note l = valid_schema_length [OF assms(1)]
  let ?b = "[SqlText (Some (object_type (tw_object w))), SqlText (Some (object_id (tw_object w))),
    SqlText (Some (tw_relation w)), SqlText (Some (subject_type (tw_subject w))),
    SqlText (Some (subject_id (tw_subject w))), SqlText (subject_relation (tw_subject w)),
    SqlBigInt (dp_seq d s + 1), SqlBigInt ACTIVE_TX_ID_i64]"
  have r: "row_of_binds ?b = Some \<lparr>pr_tuple = Tuple_from w, pr_created = dp_seq d s + 1, pr_deleted = ACTIVE_TX_ID_i64\<rparr>"
    using tuple_of_columns_of [of "Tuple_from w"]
    by (simp add: row_of_binds_def columns_of_def Tuple_from_def Tuple_new_def)
  have n: "\<not> list_ex (\<lambda>q. pr_tuple q = Tuple_from w \<and> pr_deleted q = ACTIVE_TX_ID_i64) (dp_rows d s Pool)"
    using assms(3) by (auto simp: list_ex_iff)
  show ?thesis using assms(2)
    by (auto simp: pg_write_def write_in_tx_def next_tx_id_def insert_tuple_def demo_sqlx_def demo_fetch_one_def Let_def l
        demo_execute_insert [OF l] demo_insert_def r n set_rows_def fun_eq_iff)
qed

lemma plain_check:
  "check (CheckEngine_new rd plain_schema EngineConfig_default) (check_request_of (pg_check_input c) snap) =
     and_then (rd (object_filter ''doc'' ''1'' ''owner'') snap) (\<lambda>ts.
     and_then (try_any (tuple_grants (CheckEngine_new rd plain_schema EngineConfig_default)
        \<lparr>ctx_subject_type = ''user'', ctx_subject_id = ''ann'', ctx_snapshot = snap, ctx_depth = 0, ctx_visited = {}\<rparr>) ts)
       (\<lambda>b. Inr \<lparr>allowed = b\<rparr>))"
  by (cases "rd (object_filter ''doc'' ''1'' ''owner'') snap")
    (simp_all add: check_def check_request_of_def pg_check_input_def plain_schema_def CheckEngine_new_def get_type_def
      get_permission_def get_relation_def evaluate_rule.simps evaluate_this.simps EngineConfig_default_def)

section \<open>What the service answers\<close>

text \<open>The factory before and after the write of \<open>plain_writes\<close>.\<close>

definition written_pg :: DemoPg where
  "written_pg = stored_pg\<lparr>dp_rows := (\<lambda>s c. if s = demo_schema_name then dp_rows stored_pg s Pool @
       [\<lparr>pr_tuple = Tuple_from (hd plain_writes), pr_created = 2, pr_deleted = ACTIVE_TX_ID_i64\<rparr>] else dp_rows stored_pg s Pool),
     dp_seq := (dp_seq stored_pg)(demo_schema_name := 2)\<rparr>"

lemma pg_demo_schema [simp]: "tenant_schema (PostgresStoreFactory_new d) demo_tenant = demo_schema_name"
  by (simp add: tenant_schema_def PostgresStoreFactory_new_def demo_tenant_def)

lemma pg_start_factory [simp]: "factory pg_start = PostgresStoreFactory_new stored_pg"
  by (simp add: pg_start_def AuthzService_new_def with_cache_config_def)

lemma stored_pg_sel [simp]:
  "dp_seq stored_pg demo_schema_name = 1" "dp_defs stored_pg demo_schema_name = [(plain_text, 0)]"
  "dp_rows stored_pg demo_schema_name c = [\<lparr>pr_tuple = Tuple_new (ObjectRef_new ''doc'' ''1'') ''owner'' (direct ''user'' ''bob''),
     pr_created = 1, pr_deleted = ACTIVE_TX_ID_i64\<rparr>]"
  by (simp_all add: stored_pg_def)

lemma pg_env_sel [simp]: "env_check_cache pg_env = demo_cache" "env_schema_cache pg_env = demo_cache"
  by (simp_all add: pg_env_def)

lemma pg_demo_write:
  "write_relationships pg_env demo_tenant plain_writes [] pg_start = (Inr (SnapshotToken 2), pg_with_tuples)"
  "pg_with_tuples = emit (audit_relationship_write demo_tenant 1 0 (SnapshotToken 2))
    (pg_start\<lparr>factory := PostgresStoreFactory_new written_pg, check_cache := Map.empty\<rparr>)"
proof -
  have "pg_write demo_sqlx demo_schema_name stored_pg [hd plain_writes] [] = (Inr (SnapshotToken 2), written_pg)"
    by (subst demo_write_one) (auto simp: written_pg_def plain_writes_def ACTIVE_TX_ID_i64_def Tuple_from_def
        Tuple_new_def TupleWrite_new_def direct_def fun_eq_iff)
  moreover have "plain_writes = [hd plain_writes]" by (simp add: plain_writes_def)
  ultimately have p: "pg_write demo_sqlx demo_schema_name stored_pg plain_writes [] = (Inr (SnapshotToken 2), written_pg)" by simp
  have "length plain_writes = 1" by (simp add: plain_writes_def)
  moreover have pool_stored: "pool (PostgresStoreFactory_new stored_pg) = stored_pg"
    "(PostgresStoreFactory_new stored_pg)\<lparr>pool := written_pg\<rparr> = PostgresStoreFactory_new written_pg"
    by (simp_all add: PostgresStoreFactory_new_def)
  ultimately have w: "write_relationships pg_env demo_tenant plain_writes [] pg_start = (Inr (SnapshotToken 2),
      emit (audit_relationship_write demo_tenant 1 0 (SnapshotToken 2))
        (pg_start\<lparr>factory := PostgresStoreFactory_new written_pg, check_cache := Map.empty\<rparr>))"
    by (simp add: write_relationships_def demo_tenant_handle pg_handle_def on_pool_def p Let_def demo_cache_def
        pool_stored)
  then show "write_relationships pg_env demo_tenant plain_writes [] pg_start = (Inr (SnapshotToken 2), pg_with_tuples)"
    "pg_with_tuples = emit (audit_relationship_write demo_tenant 1 0 (SnapshotToken 2))
      (pg_start\<lparr>factory := PostgresStoreFactory_new written_pg, check_cache := Map.empty\<rparr>)"
    by (simp_all add: pg_with_tuples_def)
qed

lemma pg_demo_check:
  assumes "factory svc = PostgresStoreFactory_new d" "dp_defs d demo_schema_name = [(plain_text, 0)]"
    and "uint v \<le> dp_seq d demo_schema_name" "dp_seq d demo_schema_name \<le> ACTIVE_TX_ID_i64"
    and "engine_config svc = EngineConfig_default" "schema_cache svc = Map.empty" "check_cache svc = Map.empty"
    and "resolve_snapshot (pg_handle demo_sqlx demo_schema_name) (factory svc) c = Inr (Some (SnapshotToken v))"
    and "try_any (tuple_grants (CheckEngine_new (StoreTupleReader (pg_handle demo_sqlx demo_schema_name) (factory svc))
        plain_schema EngineConfig_default) \<lparr>ctx_subject_type = ''user'', ctx_subject_id = ''ann'',
          ctx_snapshot = Some (SnapshotToken v), ctx_depth = 0, ctx_visited = {}\<rparr>)
        (map pr_tuple (filter (\<lambda>r. pr_created r \<le> uint v \<and> uint v < pr_deleted r \<and>
           matches (object_filter ''doc'' ''1'' ''owner'') (pr_tuple r)) (dp_rows d demo_schema_name Pool))) = Inr b"
  shows "fst (check_permission pg_env demo_tenant (pg_check_input c) svc) =
    Inr \<lparr>cpo_allowed = b, cpo_snapshot = Some (SnapshotToken v)\<rparr>"
proof -
  let ?rd = "StoreTupleReader (pg_handle demo_sqlx demo_schema_name) (factory svc)"
  have p: "pool (factory svc) = d" by (simp add: assms(1) PostgresStoreFactory_new_def)
  have ld: "load_schema pg_env (pg_handle demo_sqlx demo_schema_name) (factory svc) = Inr plain_schema"
    using demo_stored_schema [OF schema_name_valid, of "factory svc" "TenantId 1" plain_text]
    by (simp add: p assms(2) plain_parsed)
  have rd: "?rd f (Some (SnapshotToken v)) = Inr (map pr_tuple
    (filter (\<lambda>r. pr_created r \<le> uint v \<and> uint v < pr_deleted r \<and> matches f (pr_tuple r)) (dp_rows d demo_schema_name Pool)))" for f
    using demo_reader [OF schema_name_valid, of v "factory svc" "TenantId 1" f] assms(3,4) by (simp add: p)
  have "check (CheckEngine_new ?rd plain_schema EngineConfig_default) (check_request_of (pg_check_input c) (Some (SnapshotToken v))) =
      Inr \<lparr>allowed = b\<rparr>"
    by (simp add: plain_check rd assms(9))
  moreover have "cpi_consistency (pg_check_input c) = c" by (simp add: pg_check_input_def)
  moreover have "tenant_schema (factory svc) demo_tenant = demo_schema_name" by (simp add: assms(1))
  ultimately show ?thesis
    using ld assms(5-8)
    by (simp add: check_permission_def demo_tenant_handle load_schema_cached_def demo_cache_def Let_def on_metrics_def)
qed

lemma pg_check_answers:
  "fst (check_permission pg_env demo_tenant (pg_check_input (AtLeastAsFresh (SnapshotToken 2))) pg_with_tuples) =
     Inr \<lparr>cpo_allowed = True, cpo_snapshot = Some (SnapshotToken 2)\<rparr>"
  by (rule pg_demo_check [of _ written_pg])
    (simp_all add: pg_demo_write(2) pg_start_def AuthzService_new_def with_cache_config_def written_pg_def ACTIVE_TX_ID_i64_def
      plain_writes_def matches_object_filter tuple_grants_def Tuple_from_def TupleWrite_new_def demo_cache_def)

lemma pg_check_start:
  "fst (check_permission pg_env demo_tenant (pg_check_input FullConsistency) pg_start) =
     Inr \<lparr>cpo_allowed = False, cpo_snapshot = Some (SnapshotToken 1)\<rparr>"
  by (rule pg_demo_check [of _ stored_pg])
    (simp_all add: pg_start_def AuthzService_new_def with_cache_config_def ACTIVE_TX_ID_i64_def
      matches_object_filter tuple_grants_def demo_cache_def pg_handle_def pg_snapshot_def
      demo_current_tx_id PostgresStoreFactory_new_def)

section \<open>The properties on this service\<close>



end
