(* ===== verification/Postgres_Server_Demo.thy ===== *)
theory Postgres_Server_Demo
  imports Postgres_Server Postgres_Service_Demo
begin

text \<open>
  The server with a database on concrete data: the database of \<open>Postgres_Service_Demo\<close> after its write, the
  key table and the decoders of \<open>Rest_Demo\<close>.
\<close>

definition pg_http_start :: PgDemoService where
  "pg_http_start = server_service pg_env (PostgresStoreFactory_new written_pg) (AppConfig_default demo_f64)"

abbreviation pg_http :: "string \<Rightarrow> PgDemoService \<Rightarrow> ApiResult \<times> PgDemoService" where
  "pg_http path \<equiv> create_router demo_axum demo_argon demo_f64 pg_env (with_repository demo_keys) 3 (demo_post path)"

lemma written_pg_sel [simp]:
  "dp_seq written_pg demo_schema_name = 2" "dp_defs written_pg demo_schema_name = [(plain_text, 0)]"
  "dp_rows written_pg demo_schema_name c = dp_rows stored_pg demo_schema_name Pool @
     [\<lparr>pr_tuple = Tuple_from (hd plain_writes), pr_created = 2, pr_deleted = ACTIVE_TX_ID_i64\<rparr>]"
  by (simp_all add: written_pg_def)

lemma pg_http_start_sel [simp]:
  "factory pg_http_start = PostgresStoreFactory_new written_pg" "engine_config pg_http_start = EngineConfig_default"
  "schema_cache pg_http_start = Map.empty" "check_cache pg_http_start = Map.empty"
  by (simp_all add: pg_http_start_def server_service_def with_metrics_def with_cache_config_def default_conversions demo_cache_def)

lemma pg_http_start_serving:
  "pg_server demo_axum demo_argon demo_f64 pg_env demo_keys (\<lambda>c. c) (\<lambda>c. c) demo_sqlx demo_observer demo_defs pg_http_start"
proof -
  have i: "factory_inv demo_observer demo_defs (PostgresStoreFactory_new written_pg)"
    by (simp add: factory_inv_def PostgresStoreFactory_new_def written_pg_def stored_pg_def pg_inv_def demo_observer_def
        rows_upto_def ACTIVE_TX_ID_i64_def)
  have "env_factory pg_env = PostgresStoreFactory_ops demo_sqlx" "cache_laws (env_schema_cache pg_env) (\<lambda>c. c)"
    "cache_laws (env_check_cache pg_env) (\<lambda>c. c)" by (simp_all add: pg_env_def demo_cache_laws)
  with i server_reachable.start demo_laws demo_schema_laws show ?thesis
    unfolding pg_server_def pg_http_start_def by blast
qed

text \<open>Ann owns the document, so the check over HTTP answers yes at version 2.\<close>

lemma pg_http_check:
  "fst (pg_http ''/v1/permissions/check'' pg_http_start) = (200, CheckPermissionResponse_json True (Some (show_u64 2)))"
proof -
  let ?s = "emit (AuthSuccess demo_tenant ''abc'') (on_metrics record_request pg_http_start)"
  have m: "rest_auth_middleware demo_argon (with_repository demo_keys) (hr_path (demo_post ''/v1/permissions/check''))
      (hr_authorization (demo_post ''/v1/permissions/check'')) = (RunHandler (Some demo_tenant), [AuthSuccess demo_tenant ''abc''])"
    using demo_authorized(3) by (simp add: demo_post_def)
  have c: "fst (check_permission pg_env demo_tenant (pg_check_input FullConsistency) ?s) =
      Inr \<lparr>cpo_allowed = True, cpo_snapshot = Some (SnapshotToken 2)\<rparr>"
    by (rule pg_demo_check [of _ written_pg])
      (simp_all add: ACTIVE_TX_ID_i64_def plain_writes_def matches_object_filter tuple_grants_def Tuple_from_def
        TupleWrite_new_def pg_handle_def pg_snapshot_def demo_current_tx_id PostgresStoreFactory_new_def)
  have "check_input demo_check_request = Inr (pg_check_input FullConsistency)"
    using demo_check_input by (simp add: pg_check_input_def)
  then have "fst (routes demo_axum pg_env (demo_post ''/v1/permissions/check'') (Some demo_tenant) ?s) =
      (200, CheckPermissionResponse_json True (Some (show_u64 2)))"
    using c by (auto simp: routes_def demo_post_def demo_axum_def on_input_def h_check_permission_def respond_def
        json_response_def split: prod.splits)
  then show ?thesis by (simp add: fst_create_router auth_layer_def m)
qed


theorem pg_server_isolation_witness:
  "pg_tuples demo_observer (TenantId 2) (factory (snd (pg_http ''/v1/relationships/write'' pg_http_start))) =
     pg_tuples demo_observer (TenantId 2) (factory pg_http_start)"
proof -
  let ?req = "demo_post ''/v1/relationships/write''"
  have "TenantId 2 \<noteq> demo_tenant" by (simp add: demo_tenant_def)
  then have r: "fst (rest_auth_middleware demo_argon (with_repository demo_keys) (hr_path ?req) (hr_authorization ?req)) \<noteq>
      RunHandler (Some (TenantId 2))" using demo_authorized(2) by (auto simp: demo_post_def)
  have g: "fst (grpc_auth_interceptor demo_argon (with_repository demo_keys) None) \<noteq> Inr (TenantId 2)" by code_simp
  from pg_server_isolation [OF pg_http_start_serving r g disjI1 [OF refl]] show ?thesis by blast
qed

end
