(* ===== verification/Admin.thy ===== *)
theory Admin
  imports Postgres Server
begin

text \<open>
  The administrative commands of \<open>kraalzibar-server/src/main.rs\<close>, the command line of \<open>cli.rs\<close> and the
  insertion of \<open>api_key_repository.rs\<close>. Connecting to the database, the random draws and the salt are
  parameters; what a command prints is part of its outcome.
\<close>

section \<open>Command line\<close>

datatype Command =
    Serve
  | Migrate
  | ProvisionTenant string
  | CreateApiKey string
  | PurgeRelationships string bool

record Cli =
  cli_config :: "string option"
  cli_command :: "Command option"

text \<open>
  How a command ends: with the lines it printed; with \<open>process::exit\<close> after the lines it printed to the
  error stream; with the text of the error \<open>?\<close> returned; by a panic.
\<close>

datatype Outcome =
    Finished "string list"
  | Exited nat "string list"
  | Failed string
  | Panicked string

text \<open>\<open>Display\<close> of \<open>Uuid\<close> and of \<open>i64\<close>.\<close>

definition uuid_to_string :: "Uuid \<Rightarrow> string" where
  "uuid_to_string u =
     (let h = as_simple u
      in take 8 h @ ''-'' @ take 4 (drop 8 h) @ ''-'' @ take 4 (drop 12 h) @ ''-'' @ take 4 (drop 16 h) @ ''-'' @ drop 20 h)"

definition show_i64 :: "int \<Rightarrow> string" where
  "show_i64 n = (if n < 0 then ''-'' @ show_nat (nat (- n)) else show_nat (nat n))"

section \<open>The key table\<close>

definition insert_key_sql :: string where
  "insert_key_sql = ''INSERT INTO api_keys (tenant_id, key_id, key_hash) VALUES ($1, $2, $3)''"

definition api_key_insert :: "'db Sqlx \<Rightarrow> TenantId \<Rightarrow> string \<Rightarrow> string \<Rightarrow> 'db \<Rightarrow> (string + unit) \<times> 'db" where
  "api_key_insert db tenant_id key_id key_hash d =
     (case execute db Pool \<lparr>sql = insert_key_sql,
          binds = [SqlUuid (as_uuid tenant_id), SqlText (Some key_id), SqlText (Some key_hash)]\<rparr> d of
        (r, d) \<Rightarrow> (and_then r (\<lambda>_. Inr ()), d))"

section \<open>Commands\<close>

text \<open>The steps every command starts with: a configured database, a connection, the shared tables.\<close>

definition with_database ::
  "(string \<Rightarrow> 'db \<Rightarrow> (string + unit) \<times> 'db) \<Rightarrow> 'db Sqlx \<Rightarrow> 'x AppConfig \<Rightarrow> ('db \<Rightarrow> Outcome \<times> 'db) \<Rightarrow> 'db \<Rightarrow> Outcome \<times> 'db" where
  "with_database connect db config rest d =
     (case require_configured (cfg_database config) of
        Inl e \<Rightarrow> (Failed (ConfigError_to_string e), d)
      | Inr _ \<Rightarrow>
          (case connect (url (cfg_database config)) d of
             (Inl e, d) \<Rightarrow> (Failed e, d)
           | (Inr _, d) \<Rightarrow>
               (case run_shared_migrations db d of
                  (Inl e, d) \<Rightarrow> (Failed e, d)
                | (Inr _, d) \<Rightarrow> rest d)))"

definition run_migrate ::
  "(string \<Rightarrow> 'db \<Rightarrow> (string + unit) \<times> 'db) \<Rightarrow> 'db Sqlx \<Rightarrow> 'x AppConfig \<Rightarrow> 'db \<Rightarrow> Outcome \<times> 'db" where
  "run_migrate connect db config d = with_database connect db config (\<lambda>d. (Finished [], d)) d"

text \<open>\<open>new_uuid\<close> is the identifier \<open>Uuid::new_v4\<close> draws.\<close>

definition run_provision_tenant ::
  "(string \<Rightarrow> 'db \<Rightarrow> (string + unit) \<times> 'db) \<Rightarrow> 'db Sqlx \<Rightarrow> Uuid \<Rightarrow> 'x AppConfig \<Rightarrow> string \<Rightarrow> 'db \<Rightarrow> Outcome \<times> 'db" where
  "run_provision_tenant connect db new_uuid config name d =
     with_database connect db config (\<lambda>d.
       let tenant_id = TenantId new_uuid
       in case provision_tenant db tenant_id name (PostgresStoreFactory_new d) of
            (Inl e, fac) \<Rightarrow> (Failed (StorageError_to_string e), pool fac)
          | (Inr _, fac) \<Rightarrow>
              (Finished [''Tenant provisioned successfully'', ''  Name:      '' @ name,
                 ''  Tenant ID: '' @ uuid_to_string (as_uuid tenant_id)], pool fac)) d"

definition tenant_id_sql :: string where
  "tenant_id_sql = ''SELECT id FROM tenants WHERE name = $1''"

definition tenant_not_found :: "string \<Rightarrow> Outcome" where
  "tenant_not_found tenant_name = Exited 1 [''Error: tenant '' @ quoted tenant_name @ '' not found'']"

definition run_create_api_key ::
  "(string \<Rightarrow> 'db \<Rightarrow> (string + unit) \<times> 'db) \<Rightarrow> 'db Sqlx \<Rightarrow> 'h Argon2 \<Rightarrow> nat list \<times> nat list \<Rightarrow> string \<Rightarrow>
     'x AppConfig \<Rightarrow> string \<Rightarrow> 'db \<Rightarrow> Outcome \<times> 'db" where
  "run_create_api_key connect db A draws salt config tenant_name d =
     with_database connect db config (\<lambda>d.
       case fetch_optional_uuid db Pool \<lparr>sql = tenant_id_sql, binds = [SqlText (Some tenant_name)]\<rparr> d of
         Inl e \<Rightarrow> (Failed e, d)
       | Inr None \<Rightarrow> (tenant_not_found tenant_name, d)
       | Inr (Some tenant_uuid) \<Rightarrow>
           (let (full_key, secret) = generate_api_key (fst draws) (snd draws)
            in case parse_api_key full_key of
                 Inl e \<Rightarrow> (Panicked ''generated key should parse'', d)
               | Inr (key_id, _) \<Rightarrow>
                   (case hash_secret A salt secret of
                      Inl e \<Rightarrow> (Failed (AuthError_to_string e), d)
                    | Inr key_hash \<Rightarrow>
                        (case api_key_insert db (TenantId tenant_uuid) key_id key_hash d of
                           (Inl e, d) \<Rightarrow> (Failed e, d)
                         | (Inr _, d) \<Rightarrow>
                             (Finished [''API key created successfully'', ''  Tenant:  '' @ tenant_name,
                                ''  API Key: '' @ full_key, [],
                                ''Store this key securely '' @ [CHR 0xE2, CHR 0x80, CHR 0x94] @ '' it will not be shown again.''],
                              d))))) d"

definition resolve_tenant_schema :: "'db Sqlx \<Rightarrow> string \<Rightarrow> 'db \<Rightarrow> string + string option" where
  "resolve_tenant_schema db tenant_name d =
     fetch_optional_text db Pool \<lparr>sql = ''SELECT pg_schema FROM tenants WHERE name = $1'',
       binds = [SqlText (Some tenant_name)]\<rparr> d"

definition count_active_relationships :: "'db Sqlx \<Rightarrow> string \<Rightarrow> 'db \<Rightarrow> string + int" where
  "count_active_relationships db pg_schema d =
     fst (fetch_one_i64 db Pool \<lparr>sql = ''SELECT COUNT(*) FROM '' @ pg_schema @
       ''.relation_tuples WHERE deleted_tx_id = '' @ show_i64 ACTIVE_TX_ID_i64, binds = []\<rparr> d)"

definition purge_relationships :: "'db Sqlx \<Rightarrow> string \<Rightarrow> 'db \<Rightarrow> (string + u64) \<times> 'db" where
  "purge_relationships db pg_schema d =
     run_then (execute db Pool \<lparr>sql = ''DELETE FROM '' @ pg_schema @ ''.relation_tuples'', binds = []\<rparr> d) (\<lambda>deleted d.
       run_then (execute db Pool \<lparr>sql = ''ALTER SEQUENCE '' @ pg_schema @ ''.tx_id_seq RESTART WITH 1'', binds = []\<rparr> d)
         (\<lambda>_ d. (Inr deleted, d)))"

definition run_purge_relationships ::
  "(string \<Rightarrow> 'db \<Rightarrow> (string + unit) \<times> 'db) \<Rightarrow> 'db Sqlx \<Rightarrow> 'x AppConfig \<Rightarrow> string \<Rightarrow> bool \<Rightarrow> 'db \<Rightarrow> Outcome \<times> 'db" where
  "run_purge_relationships connect db config tenant_name yes d =
     with_database connect db config (\<lambda>d.
       case resolve_tenant_schema db tenant_name d of
         Inl e \<Rightarrow> (Failed e, d)
       | Inr None \<Rightarrow> (tenant_not_found tenant_name, d)
       | Inr (Some pg_schema) \<Rightarrow>
           (case validate_schema_name pg_schema of
              Inl e \<Rightarrow> (Failed (StorageError_to_string e), d)
            | Inr _ \<Rightarrow>
                (case count_active_relationships db pg_schema d of
                   Inl e \<Rightarrow> (Failed e, d)
                 | Inr n_active \<Rightarrow>
                     if \<not> yes then
                       (Exited 1
                          [''WARNING: This will permanently delete all '' @ show_i64 n_active @ '' relationship(s) for tenant '' @
                             quoted tenant_name @ ''.'',
                           ''The schema definition will be preserved.'', [], ''Re-run with --yes to confirm:'',
                           ''  kraalzibar-server purge-relationships --tenant-name '' @ tenant_name @ '' --yes''], d)
                     else
                       (case purge_relationships db pg_schema d of
                          (Inl e, d) \<Rightarrow> (Failed e, d)
                        | (Inr deleted, d) \<Rightarrow>
                            (Finished [''Purged '' @ show_u64 deleted @ '' relationship(s) for tenant '' @ quoted tenant_name @
                               ''. Transaction sequence reset.''], d))))) d"

text \<open>
  What \<open>main\<close> decides: an invalid configuration ends the process, a command runs, or the server starts
  with the backend and the authentication of \<open>run_serve\<close>.
\<close>

datatype 'r MainResult = CommandEnded Outcome | Serving "Backend \<times> 'r AuthState"

definition main_run ::
  "'x F64 \<Rightarrow> 'x ConfigWorld \<Rightarrow> (string \<Rightarrow> 'db \<Rightarrow> (string + unit) \<times> 'db) \<Rightarrow> 'db Sqlx \<Rightarrow> 'h Argon2 \<Rightarrow> Uuid \<Rightarrow>
     nat list \<times> nat list \<Rightarrow> string \<Rightarrow> (string \<Rightarrow> 'r) \<Rightarrow> Cli \<Rightarrow> 'db \<Rightarrow> 'r MainResult \<times> 'db" where
  "main_run F w connect db A new_uuid draws salt repository_of cli d =
     (case load F w (cli_config cli) of
        Inl e \<Rightarrow> (CommandEnded (Failed (ConfigError_to_string e)), d)
      | Inr config \<Rightarrow>
          (case cli_command cli of
             Some Migrate \<Rightarrow> apfst CommandEnded (run_migrate connect db config d)
           | Some (ProvisionTenant name) \<Rightarrow> apfst CommandEnded (run_provision_tenant connect db new_uuid config name d)
           | Some (CreateApiKey tenant_name) \<Rightarrow>
               apfst CommandEnded (run_create_api_key connect db A draws salt config tenant_name d)
           | Some (PurgeRelationships tenant_name yes) \<Rightarrow>
               apfst CommandEnded (run_purge_relationships connect db config tenant_name yes d)
           | _ \<Rightarrow> (Serving (run_serve repository_of config), d)))"

section \<open>What the commands do\<close>

lemma with_database_Finished:
  assumes "with_database connect db config rest d = (Finished out, d')"
  obtains d1 where "rest d1 = (Finished out, d')"
  using assms by (auto simp: with_database_def split: sum.splits prod.splits)

text \<open>Without a database no command touches anything.\<close>

lemma no_database:
  assumes "url (cfg_database config) = []"
  shows "\<exists>e. with_database connect db config rest d = (Failed e, d)"
  using assms by (auto simp: with_database_def require_configured_def)

text \<open>Provisioning never meets a schema name it would refuse, so its errors are those of statements.\<close>

lemma create_tenant_schema_runs:
  "create_tenant_schema db (schema_name_for_tenant t) d =
     (case execute_all db (tenant_schema_sql (schema_name_for_tenant t)) d of (r, d') \<Rightarrow> (map_err to_storage_error r, d'))"
  by (simp add: create_tenant_schema_def)

text \<open>A provisioned tenant is served from the schema its row names.\<close>

lemma provisioned_schema:
  "provision_tenant db t name fac = (Inr x, fac') \<Longrightarrow> \<forall>u s. schemas fac u = Some s \<longrightarrow> s = schema_name_for_tenant u \<Longrightarrow>
     tenant_schema fac' u = schema_name_for_tenant u"
  by (auto simp: provision_tenant_def tenant_schema_def Let_def split: sum.splits prod.splits option.splits if_splits)

text \<open>
  Provisioning does not look at whether a row was inserted: when the name is already taken, the statement
  inserts nothing, and the new identifier, which no row of \<open>tenants\<close> has, is reported as provisioned.
\<close>

lemma provision_ignores_conflict:
  assumes "execute db Pool \<lparr>sql = insert_tenant_sql, binds = [SqlUuid (as_uuid t), SqlText (Some name),
      SqlText (Some (schema_name_for_tenant t))]\<rparr> (pool fac) = (Inr 0, d)"
    and "execute_all db (tenant_schema_sql (schema_name_for_tenant t)) d = (Inr (), d')"
  shows "fst (provision_tenant db t name fac) = Inr ()"
  using assms by (simp add: provision_tenant_def create_tenant_schema_runs Let_def)

text \<open>A purge without the confirmation runs no statement beyond the shared migrations.\<close>

lemma purge_needs_yes:
  assumes "run_purge_relationships connect db config tenant_name False d = (r, d')"
  shows "(\<forall>out. r \<noteq> Finished out) \<and> d' = snd (run_migrate connect db config d)"
  using assms
  by (auto simp: run_purge_relationships_def run_migrate_def with_database_def tenant_not_found_def
      split: sum.splits prod.splits option.splits)

section \<open>Keys that work\<close>

text \<open>What argon2 promises: a hash it computed is readable and verifies the secret it was computed from.\<close>

definition argon2_verifies :: "'h Argon2 \<Rightarrow> bool" where
  "argon2_verifies A \<longleftrightarrow> (\<forall>secret salt h. hash_password A secret salt = Inr h \<longrightarrow>
     (\<exists>p. PasswordHash_new A h = Inr p \<and> verify_password A secret p))"

lemma issued_key_row:
  assumes "argon2_verifies A" "hash_password A s salt = Inr h" "parse_api_key raw = Inr (k, s)"
    and "repo k = Inr (Some \<lparr>row_key_id = k, row_key_hash = h, row_tenant_id = u, row_revoked = False\<rparr>)" "\<not> skip_auth path"
  shows "rest_auth_middleware A (with_repository repo) path (Some (''Bearer '' @ raw)) =
    (RunHandler (Some (TenantId u)), [AuthSuccess (TenantId u) k])"
proof -
  from assms(1,2) obtain p where "PasswordHash_new A h = Inr p" "verify_password A s p" unfolding argon2_verifies_def by blast
  with assms(3) have "authenticate A raw (\<lambda>_. Some \<lparr>akr_key_id = k, akr_key_hash = h, akr_tenant_id = TenantId u, akr_revoked = False\<rparr>) =
      (Inr \<lparr>tc_tenant_id = TenantId u, tc_key_id = k\<rparr>, [AuthSuccess (TenantId u) k])"
    by (simp add: authenticate_Inr)
  with assms(3-5) show ?thesis
    using strip_prefix_append [of "''Bearer ''" raw]
    by (simp add: rest_auth_middleware_def with_repository_def lookup_by_key_id_def ApiKeyRecord_of_def del: strip_prefix_append)
qed


definition demo_admin_db :: "nat Sqlx" where
  "demo_admin_db = \<lparr>execute = (\<lambda>c q d. (Inr 1, d + 1)), fetch_one_i64 = (\<lambda>c q d. (Inr 0, d)),
     fetch_all_tuples = (\<lambda>c q d. Inr []), fetch_all_text = (\<lambda>c q d. Inr []), fetch_optional_text = (\<lambda>c q d. Inr None),
     fetch_optional_uuid = (\<lambda>c q d. Inr (if q = \<lparr>sql = tenant_id_sql, binds = [SqlText (Some ''acme'')]\<rparr> then Some 7 else None)),
     begin_tx = (\<lambda>d. (Inr (), d)), commit_tx = (\<lambda>d. (Inr (), d)), rollback_tx = (\<lambda>d. d)\<rparr>"

text \<open>The configuration of the example: the defaults with a database URL.\<close>

definition demo_admin_config :: "nat AppConfig" where
  "demo_admin_config = (AppConfig_default demo_f64)\<lparr>cfg_database := DatabaseConfig_default\<lparr>url := ''postgres://db''\<rparr>\<rparr>"

lemma demo_admin_finishes:
  "\<exists>out. run_create_api_key (\<lambda>u d. (Inr (), d)) demo_admin_db demo_argon (replicate 16 7, replicate 32 35) ''salt''
     demo_admin_config ''acme'' 0 = (Finished out, 3)"
proof -
  obtain key secret where g: "generate_api_key (replicate 16 7) (replicate 32 35) = (key, secret)" by fastforce
  with parse_generated_key [of "replicate 16 7" "replicate 32 35"]
  have p: "parse_api_key key = Inr (map key_char (replicate 16 7), secret)" by (simp add: list_all_iff)
  have c: "require_configured (cfg_database demo_admin_config) = Inr ()"
    by (simp add: demo_admin_config_def require_configured_def)
  have e: "execute demo_admin_db c q d = (Inr 1, d + 1)"
    "fetch_optional_uuid demo_admin_db c \<lparr>sql = tenant_id_sql, binds = [SqlText (Some ''acme'')]\<rparr> d = Inr (Some 7)" for c q d
    by (simp_all add: demo_admin_db_def)
  have h: "hash_secret demo_argon salt s = Inr s" for salt s by (simp add: hash_secret_def demo_argon_def)
  show ?thesis
    by (simp add: run_create_api_key_def with_database_def c run_shared_migrations_def g p e h api_key_insert_def run_then_def)
qed


end
