(* ===== verification/Startup.thy ===== *)
theory Startup
  imports Admin
begin

text \<open>
  How the server starts and stops: the TLS configuration of \<open>tls.rs\<close>, the set-up of logging and tracing
  (\<open>main.rs\<close>, \<open>telemetry.rs\<close>), the database pool of \<open>run_serve\<close>, the listeners of \<open>start_server\<close>, what ends
  it, and \<open>shutdown_signal\<close>. Files, PEM decoding, rustls, sockets and the two HTTP servers are parameters.
\<close>

section \<open>TLS\<close>

record TlsConfigOptions =
  opt_cert_path :: string
  opt_key_path :: string
  opt_alpn_protocols :: "string list"

datatype TlsError =
    TlsReadFile string string
  | NoCertificates string
  | NoPrivateKey string
  | InvalidConfig string

fun TlsError_to_string :: "TlsError \<Rightarrow> string" where
  "TlsError_to_string (TlsReadFile p e) = ''failed to read file '' @ quoted p @ '': '' @ e"
| "TlsError_to_string (NoCertificates p) = ''no certificates found in '' @ quoted p"
| "TlsError_to_string (NoPrivateKey p) = ''no private key found in '' @ quoted p"
| "TlsError_to_string (InvalidConfig m) = ''invalid TLS configuration: '' @ m"

text \<open>
  The libraries behind \<open>build_tls_server_config\<close>: reading a file, the certificates and the private key in
  PEM data, whether the provider supports a list of protocol versions, and whether a certificate chain
  and a key make an identity.
\<close>

record ('c, 'k) TlsLibs =
  fs_read :: "string \<Rightarrow> string + string"
  pemfile_certs :: "string \<Rightarrow> (string + 'c) list"
  pemfile_private_key :: "string \<Rightarrow> string + 'k option"
  supports_versions :: "string list \<Rightarrow> string + unit"
  single_cert :: "'c list \<Rightarrow> 'k \<Rightarrow> string + unit"

record ('c, 'k) TlsServerConfig =
  tls_versions :: "string list"
  tls_certs :: "'c list"
  tls_key :: 'k
  tls_client_auth :: bool
  alpn_protocols :: "string list"

definition build_tls_server_config :: "('c, 'k) TlsLibs \<Rightarrow> TlsConfigOptions \<Rightarrow> TlsError + ('c, 'k) TlsServerConfig" where
  "build_tls_server_config lib options =
     and_then (map_err (TlsReadFile (opt_cert_path options)) (fs_read lib (opt_cert_path options))) (\<lambda>cert_data.
     and_then (map_err (TlsReadFile (opt_key_path options)) (fs_read lib (opt_key_path options))) (\<lambda>key_data.
     and_then (map_err (TlsReadFile (opt_cert_path options)) (try_map (\<lambda>c. c) (pemfile_certs lib cert_data))) (\<lambda>certs.
     if certs = [] then Inl (NoCertificates (opt_cert_path options))
     else
       and_then (map_err (TlsReadFile (opt_key_path options)) (pemfile_private_key lib key_data)) (\<lambda>found.
       and_then (ok_or found (NoPrivateKey (opt_key_path options))) (\<lambda>key.
       and_then (map_err InvalidConfig (supports_versions lib [''TLS13''])) (\<lambda>_.
       and_then (map_err InvalidConfig (single_cert lib certs key)) (\<lambda>_.
         Inr \<lparr>tls_versions = [''TLS13''], tls_certs = certs, tls_key = key, tls_client_auth = False,
              alpn_protocols = opt_alpn_protocols options\<rparr>)))))))"

section \<open>Logging and tracing\<close>

text \<open>What the exporter is configured with; \<open>None\<close> where tracing is off.\<close>

record 'x TracerSetup =
  tracer_endpoint :: string
  tracer_sample_rate :: 'x
  tracer_service_name :: string

text \<open>
  \<open>install\<close> is the batch pipeline of the exporter. Where it fails the server panics: \<open>Inl\<close> here, and in
  \<open>init_logging\<close>, is a panic.
\<close>

definition init_telemetry :: "('x TracerSetup \<Rightarrow> string + unit) \<Rightarrow> 'x TracingConfig \<Rightarrow> string + 'x TracerSetup option" where
  "init_telemetry install config =
     (if \<not> tracing_enabled config then Inr None
      else
        let setup = \<lparr>tracer_endpoint = otlp_endpoint config, tracer_sample_rate = sample_rate config,
                     tracer_service_name = service_name config\<rparr>
        in and_then (map_err (\<lambda>e. ''failed to install OpenTelemetry tracer: '' @ e) (install setup)) (\<lambda>_. Inr (Some setup)))"

text \<open>The layer that exports spans: its tracer, taken from the provider under a fixed name.\<close>

record 'x OtelLayer =
  otel_provider :: "'x TracerSetup"
  otel_tracer :: string

definition make_otel_layer :: "'x TracerSetup \<Rightarrow> 'x OtelLayer" where
  "make_otel_layer provider = \<lparr>otel_provider = provider, otel_tracer = ''kraalzibar''\<rparr>"

text \<open>\<open>shutdown\<close> is the library's call, which flushes the spans still in the batch; \<open>Inl\<close> is a panic.\<close>

definition shutdown_telemetry :: "('x TracerSetup \<Rightarrow> string + unit) \<Rightarrow> 'x TracerSetup \<Rightarrow> string + unit" where
  "shutdown_telemetry shutdown provider =
     map_err (\<lambda>e. ''failed to shut down tracer provider: '' @ e) (shutdown provider)"

record 'x LogSetup =
  log_otel :: "'x OtelLayer option"
  log_filter :: string
  log_lines :: LogFormat
  log_tracer :: "'x TracerSetup option"
  log_first :: "string list"

text \<open>
  \<open>env_filter\<close> is the filter of the environment, where it is set and valid; \<open>telemetry_feature\<close> is whether
  the server is built with the tracing layer.
\<close>

definition init_logging ::
  "('x TracerSetup \<Rightarrow> string + unit) \<Rightarrow> bool \<Rightarrow> string option \<Rightarrow> 'x AppConfig \<Rightarrow> string + 'x LogSetup" where
  "init_logging install telemetry_feature env_filter config =
     (let flt = (case env_filter of Some f \<Rightarrow> f | None \<Rightarrow> log_level (cfg_log config))
      in and_then (if telemetry_feature then init_telemetry install (cfg_tracing config) else Inr None) (\<lambda>provider.
           Inr \<lparr>log_otel = map_option make_otel_layer provider, log_filter = flt, log_lines = log_format (cfg_log config), log_tracer = provider,
                log_first = (if provider \<noteq> None then [''OpenTelemetry tracing enabled''] else [])\<rparr>))"

section \<open>The database pool\<close>

record PgPoolOptions =
  pool_max_connections :: u32
  pool_min_connections :: u32
  pool_acquire_timeout :: u64
  pool_idle_timeout :: u64
  pool_max_lifetime :: u64

definition pool_options :: "DatabaseConfig \<Rightarrow> PgPoolOptions" where
  "pool_options c = \<lparr>pool_max_connections = max_connections c, pool_min_connections = min_connections c,
     pool_acquire_timeout = acquire_timeout_seconds c, pool_idle_timeout = idle_timeout_seconds c,
     pool_max_lifetime = max_lifetime_seconds c\<rparr>"

text \<open>The state a server with a database starts from: connected, with the shared tables.\<close>

definition open_database ::
  "(PgPoolOptions \<Rightarrow> string \<Rightarrow> 'db \<Rightarrow> (string + unit) \<times> 'db) \<Rightarrow> 'db Sqlx \<Rightarrow> 'x AppConfig \<Rightarrow> 'db \<Rightarrow>
     (string + 'db PostgresStoreFactory option) \<times> 'db" where
  "open_database connect_with db config d =
     (if is_configured (cfg_database config)
      then run_then (connect_with (pool_options (cfg_database config)) (url (cfg_database config)) d) (\<lambda>_ d.
             run_then (run_shared_migrations db d) (\<lambda>_ d. (Inr (Some (PostgresStoreFactory_new d)), d)))
      else (Inr None, d))"

section \<open>Listening\<close>

record 'a Net =
  parse_socket_addr :: "string \<Rightarrow> string + 'a"
  tcp_bind :: "'a \<Rightarrow> string + unit"

datatype ('a, 't) Listener = PlainListener 'a | TlsListener 'a 't

text \<open>
  The gRPC and the REST listener. With TLS the gRPC socket is bound here and the REST server binds its own;
  without, it is the other way round.
\<close>

definition start_listeners ::
  "'a Net \<Rightarrow> ('c, 'k) TlsLibs \<Rightarrow> 'x AppConfig \<Rightarrow>
     string + ('a, ('c, 'k) TlsServerConfig) Listener \<times> ('a, ('c, 'k) TlsServerConfig) Listener" where
  "start_listeners net lib config =
     and_then (parse_socket_addr net (grpc_addr config)) (\<lambda>grpc.
     and_then (parse_socket_addr net (rest_addr config)) (\<lambda>rest.
     let tls = cfg_tls config
     in if is_enabled tls then
          and_then (map_err TlsError_to_string (build_tls_server_config lib
              \<lparr>opt_cert_path = cert_path tls, opt_key_path = key_path tls, opt_alpn_protocols = [''h2'']\<rparr>)) (\<lambda>grpc_tls.
          and_then (map_err TlsError_to_string (build_tls_server_config lib
              \<lparr>opt_cert_path = cert_path tls, opt_key_path = key_path tls, opt_alpn_protocols = [''h2'', ''http/1.1'']\<rparr>)) (\<lambda>rest_tls.
          and_then (tcp_bind net grpc) (\<lambda>_. Inr (TlsListener grpc grpc_tls, TlsListener rest rest_tls))))
        else and_then (tcp_bind net rest) (\<lambda>_. Inr (PlainListener grpc, PlainListener rest))))"

text \<open>
  The connections the gRPC server sees behind TLS: a connection that could not be accepted, or whose
  handshake fails, is skipped.
\<close>

fun tls_incoming :: "('c \<Rightarrow> string + 's) \<Rightarrow> (string + 'c) list \<Rightarrow> 's list" where
  "tls_incoming accept [] = []"
| "tls_incoming accept (conn # rest) =
     (case conn of
        Inl e \<Rightarrow> tls_incoming accept rest
      | Inr tcp \<Rightarrow>
          (case accept tcp of
             Inl e \<Rightarrow> tls_incoming accept rest
           | Inr stream \<Rightarrow> stream # tls_incoming accept rest))"

text \<open>The server that ends first ends the process; its error is logged. Then \<open>start_server\<close> returns \<open>Ok\<close>.\<close>

datatype ServerEnd = GrpcEnd "string + unit" | RestEnd "string + unit"

fun end_log :: "ServerEnd \<Rightarrow> string list" where
  "end_log (GrpcEnd (Inl e)) = [''gRPC server error'']"
| "end_log (RestEnd (Inl e)) = [''REST server error'']"
| "end_log _ = []"

definition start_server_end ::
  "'a Net \<Rightarrow> ('c, 'k) TlsLibs \<Rightarrow> 'x AppConfig \<Rightarrow> ServerEnd \<Rightarrow> (string + unit) \<times> string list" where
  "start_server_end net lib config first =
     (case start_listeners net lib config of
        Inl e \<Rightarrow> (Inl e, [])
      | Inr _ \<Rightarrow> (Inr (), end_log first @ [''server shut down gracefully'']))"

text \<open>Signals: the server waits for the first one it listens to.\<close>

datatype Signal = SIGINT | SIGTERM | OtherSignal nat

definition awaited :: "bool \<Rightarrow> Signal \<Rightarrow> bool" where
  "awaited sigterm_registered s \<longleftrightarrow> s = SIGINT \<or> sigterm_registered \<and> s = SIGTERM"

fun shutdown_signal :: "bool \<Rightarrow> Signal list \<Rightarrow> Signal option" where
  "shutdown_signal sigterm_registered [] = None"
| "shutdown_signal sigterm_registered (s # rest) =
     (if awaited sigterm_registered s then Some s else shutdown_signal sigterm_registered rest)"

section \<open>Lemmas\<close>

text \<open>
  A TLS configuration is built exactly from readable files, at least one certificate, a private key and an
  identity the library accepts; it offers TLS 1.3 only and the protocols asked for.
\<close>

lemma build_tls_Inr:
  "build_tls_server_config lib options = Inr cfg \<longleftrightarrow>
     (\<exists>cd kd certs key. fs_read lib (opt_cert_path options) = Inr cd \<and> fs_read lib (opt_key_path options) = Inr kd \<and>
        try_map (\<lambda>c. c) (pemfile_certs lib cd) = Inr certs \<and> certs \<noteq> [] \<and> pemfile_private_key lib kd = Inr (Some key) \<and>
        supports_versions lib [''TLS13''] = Inr () \<and> single_cert lib certs key = Inr () \<and>
        cfg = \<lparr>tls_versions = [''TLS13''], tls_certs = certs, tls_key = key, tls_client_auth = False,
               alpn_protocols = opt_alpn_protocols options\<rparr>)"
  by (auto simp: build_tls_server_config_def result_simps)

text \<open>With TLS configured no listener is plain, and both present the same certificates over TLS 1.3.\<close>

lemma tls_everywhere:
  assumes "start_listeners net lib config = Inr (g, r)" "is_enabled (cfg_tls config)"
  obtains ga ra gt rt where "g = TlsListener ga gt" "r = TlsListener ra rt" "tls_versions gt = [''TLS13'']"
    "tls_versions rt = [''TLS13'']" "tls_certs gt = tls_certs rt" "tls_key gt = tls_key rt"
    "alpn_protocols gt = [''h2'']" "alpn_protocols rt = [''h2'', ''http/1.1'']"
  using assms by (auto simp: start_listeners_def result_simps Let_def build_tls_Inr)

text \<open>
  A server that cannot run is not reported to the caller: the REST server over TLS, and the gRPC server
  without, bind when they run, and their error is only logged.
\<close>

lemma server_error_is_ok:
  assumes "start_listeners net lib config = Inr ls"
  shows "fst (start_server_end net lib config (GrpcEnd (Inl e))) = Inr ()"
    "fst (start_server_end net lib config (RestEnd (Inl e))) = Inr ()"
  using assms by (simp_all add: start_server_end_def)

text \<open>A failed handshake costs only its own connection.\<close>

lemma tls_incoming_append: "tls_incoming accept (xs @ ys) = tls_incoming accept xs @ tls_incoming accept ys"
  by (induction xs) (auto split: sum.splits)

lemma shutdown_on_sigint: "SIGINT \<in> set ss \<Longrightarrow> \<exists>s. shutdown_signal b ss = Some s"
  by (induction ss) (auto simp: awaited_def)

text \<open>Logging cannot fail where tracing is off, and nothing is exported then.\<close>

lemma no_telemetry:
  assumes "\<not> tracing_enabled (cfg_tracing config)"
  shows "\<exists>l. init_logging install b e config = Inr l \<and> log_tracer l = None \<and> log_otel l = None \<and> log_first l = []"
  using assms by (simp add: init_logging_def init_telemetry_def Let_def result_simps)

text \<open>Where spans are exported, it is with the endpoint, rate and service name of the configuration.\<close>

lemma telemetry_configured:
  assumes "init_logging install b e config = Inr l" "log_otel l = Some layer"
  shows "b \<and> tracing_enabled (cfg_tracing config) \<and> otel_tracer layer = ''kraalzibar'' \<and>
    otel_provider layer = \<lparr>tracer_endpoint = otlp_endpoint (cfg_tracing config),
      tracer_sample_rate = sample_rate (cfg_tracing config), tracer_service_name = service_name (cfg_tracing config)\<rparr> \<and>
    install (otel_provider layer) = Inr ()"
  using assms by (auto simp: init_logging_def init_telemetry_def make_otel_layer_def Let_def result_simps
      split: if_splits sum.splits)

end
