(* ===== verification/Interleaving.thy ===== *)
theory Interleaving
  imports Service_Demo
begin

text \<open>
  Requests that run at the same time. Every method of \<open>service.rs\<close> but \<open>read_schema\<close>, which is a single
  access, is a task whose steps are its calls that touch shared state: the store, the schema cache, the
  check cache (\<open>lookup_subjects\<close> is \<open>expand_permission_tree\<close> and then touches no shared state). Run alone a
  task does what the method does; run together, steps of several tasks alternate in any order. The
  evaluation of a permission by an engine, and the loop over the objects of a lookup, are one step.
\<close>

section \<open>Tasks\<close>

text \<open>What a task does with the schema it loads.\<close>

datatype Job =
    CheckJob CheckPermissionInput
  | ExpandJob ExpandPermissionInput
  | ResourcesJob LookupResourcesInput "string list"

datatype 'f Task =
    CheckStart TenantId CheckPermissionInput
  | CheckLookup TenantId CheckPermissionInput "'f Store" SnapshotToken
  | SchemaLookup TenantId Job "'f Store" "SnapshotToken option"
  | SchemaRead TenantId Job "'f Store" "SnapshotToken option"
  | SchemaInsert TenantId Job "'f Store" "SnapshotToken option" Schema
  | Evaluate TenantId Job "'f Store" "SnapshotToken option" Schema
  | ResultInsert TenantId CheckPermissionInput SnapshotToken bool
  | CheckDone TenantId CheckPermissionInput "ApiError + CheckPermissionOutput"
  | ExpandStart TenantId ExpandPermissionInput
  | ExpandDone TenantId ExpandPermissionInput "ApiError + ExpandPermissionOutput"
  | ResourcesStart TenantId LookupResourcesInput
  | ResourcesList TenantId LookupResourcesInput "'f Store" "SnapshotToken option"
  | ResourcesDone TenantId LookupResourcesInput "ApiError + LookupResourcesOutput"
  | ReadStart TenantId TupleFilter Consistency "nat option"
  | ReadTuples TenantId TupleFilter "nat option" "'f Store" "SnapshotToken option"
  | ReadDone TenantId TupleFilter "nat option" "ApiError + ReadRelationshipsOutput"
  | WriteStart TenantId string bool
  | WriteRead TenantId string bool Schema "'f Store"
  | WriteStore TenantId string bool "'f Store" bool
  | WriteInvalidate TenantId bool bool
  | WriteInvalidateAll TenantId bool bool
  | WriteDone TenantId "ApiError + WriteSchemaOutput"
  | TuplesStart TenantId "TupleWrite list" "TupleFilter list"
  | TuplesInvalidate TenantId nat nat SnapshotToken
  | TuplesDone TenantId "ApiError + SnapshotToken"

fun job_failed :: "TenantId \<Rightarrow> Job \<Rightarrow> ApiError \<Rightarrow> 'f Task" where
  "job_failed t (CheckJob input) e = CheckDone t input (Inl e)"
| "job_failed t (ExpandJob input) e = ExpandDone t input (Inl e)"
| "job_failed t (ResourcesJob input ids) e = ResourcesDone t input (Inl e)"

text \<open>
  The steps of \<open>check_permission\<close>, \<open>expand_permission_tree\<close> and \<open>lookup_resources\<close> with \<open>load_schema_cached\<close>,
  of \<open>read_relationships\<close>, of \<open>write_schema\<close> and of \<open>write_relationships\<close>.
\<close>

fun task_step ::
  "('f, 'sc, 'cc) Env \<Rightarrow> 'f Task \<Rightarrow> ('f, 'sc, 'cc) AuthzService \<Rightarrow> 'f Task \<times> ('f, 'sc, 'cc) AuthzService" where
  "task_step env (CheckStart t input) svc =
     (case open_store env t svc of (store, svc) \<Rightarrow>
        (case resolve_snapshot store (factory svc) (cpi_consistency input) of
           Inl e \<Rightarrow> CheckDone t input (Inl e)
         | Inr (Some snap) \<Rightarrow> CheckLookup t input store snap
         | Inr None \<Rightarrow> SchemaLookup t (CheckJob input) store None, svc))"
| "task_step env (CheckLookup t input store snap) svc =
     (case cache_get (env_check_cache env) (check_cache svc) (cache_key_of t input snap) of
        (Some cached_allowed, c) \<Rightarrow>
          (CheckDone t input (Inr \<lparr>cpo_allowed = cached_allowed, cpo_snapshot = Some snap\<rparr>),
           on_metrics record_check_cache_hit (svc\<lparr>check_cache := c\<rparr>))
      | (None, c) \<Rightarrow>
          (SchemaLookup t (CheckJob input) store (Some snap), on_metrics record_check_cache_miss (svc\<lparr>check_cache := c\<rparr>)))"
| "task_step env (SchemaLookup t job store so) svc =
     (case cache_get (env_schema_cache env) (schema_cache svc) t of
        (Some cached, c) \<Rightarrow>
          (Evaluate t job store so cached, on_metrics record_schema_cache_hit (svc\<lparr>schema_cache := c\<rparr>))
      | (None, c) \<Rightarrow>
          (SchemaRead t job store so, on_metrics record_schema_cache_miss (svc\<lparr>schema_cache := c\<rparr>)))"
| "task_step env (SchemaRead t job store so) svc =
     (case load_schema env store (factory svc) of
        Inl e \<Rightarrow> job_failed t job e
      | Inr schema \<Rightarrow> SchemaInsert t job store so schema, svc)"
| "task_step env (SchemaInsert t job store so schema) svc =
     (Evaluate t job store so schema,
      svc\<lparr>schema_cache := cache_insert (env_schema_cache env) (schema_cache svc) t schema\<rparr>)"
| "task_step env (Evaluate t (CheckJob input) store so schema) svc =
     (case map_err Check (check (CheckEngine_new (StoreTupleReader store (factory svc)) schema (engine_config svc))
          (check_request_of input so)) of
        Inl e \<Rightarrow> CheckDone t input (Inl e)
      | Inr result \<Rightarrow>
          (case so of
             Some snap \<Rightarrow> ResultInsert t input snap (allowed result)
           | None \<Rightarrow> CheckDone t input (Inr \<lparr>cpo_allowed = allowed result, cpo_snapshot = None\<rparr>)), svc)"
| "task_step env (ResultInsert t input snap b) svc =
     (CheckDone t input (Inr \<lparr>cpo_allowed = b, cpo_snapshot = Some snap\<rparr>),
      svc\<lparr>check_cache := cache_insert (env_check_cache env) (check_cache svc) (cache_key_of t input snap) b\<rparr>)"
| "task_step env (CheckDone t input r) svc = (CheckDone t input r, svc)"
| "task_step env (ExpandStart t input) svc =
     (case open_store env t svc of (store, svc) \<Rightarrow>
        (case resolve_snapshot store (factory svc) (epi_consistency input) of
           Inl e \<Rightarrow> ExpandDone t input (Inl e)
         | Inr so \<Rightarrow> SchemaLookup t (ExpandJob input) store so, svc))"
| "task_step env (Evaluate t (ExpandJob input) store so schema) svc =
     (case map_err Check (expand (ExpandEngine_new (StoreTupleReader store (factory svc)) schema (engine_config svc))
          \<lparr>er_object_type = epi_object_type input, er_object_id = epi_object_id input,
           er_permission = epi_permission input, er_snapshot = so\<rparr>) of
        Inl e \<Rightarrow> ExpandDone t input (Inl e)
      | Inr tree \<Rightarrow> ExpandDone t input (Inr \<lparr>epo_tree = tree, epo_snapshot = so\<rparr>), svc)"
| "task_step env (ExpandDone t input r) svc = (ExpandDone t input r, svc)"
| "task_step env (ResourcesStart t input) svc =
     (case open_store env t svc of (store, svc) \<Rightarrow>
        (case resolve_snapshot store (factory svc) (lri_consistency input) of
           Inl e \<Rightarrow> ResourcesDone t input (Inl e)
         | Inr so \<Rightarrow> ResourcesList t input store so, svc))"
| "task_step env (ResourcesList t input store so) svc =
     (case store_list_object_ids store (factory svc) (lri_resource_type input) so None of
        Inl e \<Rightarrow> ResourcesDone t input (Inl (Storage e))
      | Inr ids \<Rightarrow> SchemaLookup t (ResourcesJob input ids) store so, svc)"
| "task_step env (Evaluate t (ResourcesJob input ids) store so schema) svc =
     (case map_err Check (lookup_loop (CheckEngine_new (StoreTupleReader store (factory svc)) schema (engine_config svc))
          input so (case lri_limit input of Some n \<Rightarrow> n | None \<Rightarrow> 1000) [] ids) of
        Inl e \<Rightarrow> ResourcesDone t input (Inl e)
      | Inr results \<Rightarrow> ResourcesDone t input (Inr \<lparr>lro_resource_ids = results, lro_snapshot = so\<rparr>), svc)"
| "task_step env (ResourcesDone t input r) svc = (ResourcesDone t input r, svc)"
| "task_step env (ReadStart t flt consistency limit) svc =
     (case open_store env t svc of (store, svc) \<Rightarrow>
        (case resolve_snapshot store (factory svc) consistency of
           Inl e \<Rightarrow> ReadDone t flt limit (Inl e)
         | Inr so \<Rightarrow> ReadTuples t flt limit store so, svc))"
| "task_step env (ReadTuples t flt limit store so) svc =
     (case store_read store (factory svc) flt so limit of
        Inl e \<Rightarrow> ReadDone t flt limit (Inl (Storage e))
      | Inr found \<Rightarrow> ReadDone t flt limit (Inr \<lparr>rro_tuples = found, rro_snapshot = so\<rparr>), svc)"
| "task_step env (ReadDone t flt limit r) svc = (ReadDone t flt limit r, svc)"
| "task_step env (WriteStart t text_in force) svc =
     (case parse_schema (env_pest_error env) text_in of
        Inl e \<Rightarrow> (WriteDone t (Inl (Parse e)), svc)
      | Inr new_schema \<Rightarrow>
          (case validate_schema_limits new_schema (schema_limits svc) of
             Inl errors \<Rightarrow> (WriteDone t (Inl (Validation errors)), svc)
           | Inr _ \<Rightarrow>
               (case open_store env t svc of (store, svc) \<Rightarrow> (WriteRead t text_in force new_schema store, svc))))"
| "task_step env (WriteRead t text_in force new_schema store) svc =
     (case and_then (map_err Storage (store_read_schema store (factory svc))) (\<lambda>existing_text.
         case existing_text of
           None \<Rightarrow> Inr False
         | Some old_text \<Rightarrow>
             and_then (map_err Parse (parse_schema (env_pest_error env) old_text)) (\<lambda>old_schema.
               let breaking = detect_breaking_changes old_schema new_schema
               in if breaking \<noteq> [] \<and> \<not> force then Inl (BreakingChanges breaking)
                  else Inr (breaking \<noteq> []))) of
        Inl e \<Rightarrow> WriteDone t (Inl e)
      | Inr overridden \<Rightarrow> WriteStore t text_in force store overridden, svc)"
| "task_step env (WriteStore t text_in force store overridden) svc =
     (case store_write_schema store (factory svc) text_in of
        (Inl e, f) \<Rightarrow> (WriteDone t (Inl (Storage e)), svc\<lparr>factory := f\<rparr>)
      | (Inr _, f) \<Rightarrow> (WriteInvalidate t force overridden, svc\<lparr>factory := f\<rparr>))"
| "task_step env (WriteInvalidate t force overridden) svc =
     (WriteInvalidateAll t force overridden,
      svc\<lparr>schema_cache := cache_invalidate (env_schema_cache env) (schema_cache svc) t\<rparr>)"
| "task_step env (WriteInvalidateAll t force overridden) svc =
     (WriteDone t (Inr \<lparr>breaking_changes_overridden = overridden\<rparr>),
      emit (audit_schema_write t force overridden None)
        (svc\<lparr>check_cache := cache_invalidate_all (env_check_cache env) (check_cache svc)\<rparr>))"
| "task_step env (WriteDone t r) svc = (WriteDone t r, svc)"
| "task_step env (TuplesStart t ws ds) svc =
     (case open_store env t svc of (store, svc) \<Rightarrow>
      case store_write store (factory svc) ws ds of
        (Inl e, f) \<Rightarrow> (TuplesDone t (Inl (Storage e)), svc\<lparr>factory := f\<rparr>)
      | (Inr token, f) \<Rightarrow> (TuplesInvalidate t (length ws) (length ds) token, svc\<lparr>factory := f\<rparr>))"
| "task_step env (TuplesInvalidate t n m token) svc =
     (TuplesDone t (Inr token),
      emit (audit_relationship_write t n m token)
        (svc\<lparr>check_cache := cache_invalidate_all (env_check_cache env) (check_cache svc)\<rparr>))"
| "task_step env (TuplesDone t r) svc = (TuplesDone t r, svc)"

fun run_task ::
  "nat \<Rightarrow> ('f, 'sc, 'cc) Env \<Rightarrow> 'f Task \<times> ('f, 'sc, 'cc) AuthzService \<Rightarrow> 'f Task \<times> ('f, 'sc, 'cc) AuthzService" where
  "run_task 0 env ks = ks"
| "run_task (Suc n) env ks = run_task n env (task_step env (fst ks) (snd ks))"

text \<open>
  Run alone, the tasks are the methods: seven steps of a check, six of an expansion, seven of a lookup of
  resources, five of a schema write, two of a read or a write of tuples.
\<close>

lemma run_task_done:
  "run_task n env (CheckDone t input r, svc) = (CheckDone t input r, svc)"
  "run_task n env (ExpandDone t expand_input expanded, svc) = (ExpandDone t expand_input expanded, svc)"
  "run_task n env (ResourcesDone t lookup_input found, svc) = (ResourcesDone t lookup_input found, svc)"
  "run_task n env (WriteDone t r', svc) = (WriteDone t r', svc)"
  by (induction n) simp_all

lemma run_task_numeral:
  "run_task (numeral k) env ks = run_task (pred_numeral k) env (task_step env (fst ks) (snd ks))"
  by (simp add: numeral_eq_Suc)

lemma run_task_failed: "run_task n env (job_failed t job e, svc) = (job_failed t job e, svc)"
  by (cases job) (simp_all add: run_task_done)

lemma run_task_more: "run_task n env ks = (k, svc) \<Longrightarrow> run_task (Suc n) env ks = task_step env k svc"
  by (induction n arbitrary: ks) simp_all

lemma evaluate_alone:
  "run_task 2 env (Evaluate t (CheckJob input) store so schema, svc) =
     (case map_err Check (check (CheckEngine_new (StoreTupleReader store (factory svc)) schema (engine_config svc))
          (check_request_of input so)) of
        Inl e \<Rightarrow> (CheckDone t input (Inl e), svc)
      | Inr r \<Rightarrow>
          (CheckDone t input (Inr \<lparr>cpo_allowed = allowed r, cpo_snapshot = so\<rparr>),
           case so of None \<Rightarrow> svc
           | Some snap \<Rightarrow> svc\<lparr>check_cache := cache_insert (env_check_cache env) (check_cache svc) (cache_key_of t input snap) (allowed r)\<rparr>))"
  by (simp add: numeral_2_eq_2 split: sum.splits option.splits)

lemma load_alone:
  "run_task 5 env (SchemaLookup t job store so, svc) =
     (case load_schema_cached env t store svc of
        (Inl e, svc) \<Rightarrow> (job_failed t job e, svc)
      | (Inr schema, svc) \<Rightarrow> run_task 2 env (Evaluate t job store so schema, svc))"
proof (cases "cache_get (env_schema_cache env) (schema_cache svc) t")
  case (Pair o' c)
  have e: "run_task 4 env (Evaluate t job store so S, v) = run_task 2 env (Evaluate t job store so S, v)" for S v
    by (cases job) (simp_all add: eval_nat_numeral run_task_done split: sum.splits option.splits)
  show ?thesis
  proof (cases o')
    case None
    then show ?thesis
      by (cases "load_schema env store (factory svc)")
        (simp_all add: run_task_numeral Pair load_schema_cached_def Let_def run_task_failed)
  qed (simp add: run_task_numeral [of "num.Bit1 (num.Bit0 num.One)"] e Pair load_schema_cached_def)
qed

lemma check_alone:
  "run_task 7 env (CheckStart t input, svc) =
     (CheckDone t input (fst (check_permission env t input svc)), snd (check_permission env t input svc))"
proof -
  obtain store svc1 where o: "open_store env t svc = (store, svc1)" by fastforce
  have seven: "run_task 7 env (CheckStart t input, svc) = run_task 6 env (task_step env (CheckStart t input) svc)"
    and six: "run_task 6 env (CheckLookup t input store snap, v) = run_task 5 env (task_step env (CheckLookup t input store snap) v)"
    for snap v by (simp_all add: eval_nat_numeral)
  show ?thesis
  proof (cases "resolve_snapshot store (factory svc1) (cpi_consistency input)")
    case (Inl e)
    then show ?thesis by (simp add: seven o check_permission_def run_task_done)
  next
    case so: (Inr so)
    show ?thesis
    proof (cases so)
      case None
      let ?c = "check_permission env t input svc"
      have "run_task 5 env (SchemaLookup t (CheckJob input) store None, svc1) = (CheckDone t input (fst ?c), snd ?c)"
        unfolding load_alone evaluate_alone
        by (simp add: check_permission_def o so None Let_def split: prod.splits sum.splits)
      from run_task_more [OF this] show ?thesis by (simp add: seven o so None)
    next
      case (Some snap)
      obtain g c where g: "cache_get (env_check_cache env) (check_cache svc1) (cache_key_of t input snap) = (g, c)" by fastforce
      show ?thesis
      proof (cases g)
        case hit: (Some b)
        then show ?thesis by (simp add: seven six o so Some g check_permission_def Let_def run_task_done)
      next
        case None
        then show ?thesis
          by (simp add: seven six o so Some g load_alone evaluate_alone check_permission_def Let_def split: prod.splits sum.splits)
      qed
    qed
  qed
qed

lemma expand_alone:
  "run_task 6 env (ExpandStart t input, svc) =
     (ExpandDone t input (fst (expand_permission_tree env t input svc)), snd (expand_permission_tree env t input svc))"
proof -
  obtain store svc1 where o: "open_store env t svc = (store, svc1)" by fastforce
  have "run_task 6 env (ExpandStart t input, svc) = run_task 5 env (task_step env (ExpandStart t input) svc)"
    by (simp add: eval_nat_numeral)
  then show ?thesis
    by (cases "resolve_snapshot store (factory svc1) (epi_consistency input)")
      (simp_all add: o load_alone run_task_numeral [of "num.Bit0 num.One"] expand_permission_tree_def run_task_done Let_def
        split: prod.splits sum.splits)
qed

lemma resources_alone:
  "run_task 7 env (ResourcesStart t input, svc) =
     (ResourcesDone t input (fst (lookup_resources env t input svc)), snd (lookup_resources env t input svc))"
proof -
  obtain store svc1 where o: "open_store env t svc = (store, svc1)" by fastforce
  have "run_task 7 env (ResourcesStart t input, svc) = run_task 6 env (task_step env (ResourcesStart t input) svc)"
    and "run_task 6 env (ResourcesList t input store so, v) = run_task 5 env (task_step env (ResourcesList t input store so) v)"
    for so v by (simp_all add: eval_nat_numeral)
  then show ?thesis
    by (cases "resolve_snapshot store (factory svc1) (lri_consistency input)")
      (simp_all add: o load_alone run_task_numeral [of "num.Bit0 num.One"] lookup_resources_def run_task_done Let_def
        split: prod.splits sum.splits)
qed

lemma read_alone:
  "run_task 2 env (ReadStart t flt consistency limit, svc) =
     (ReadDone t flt limit (fst (read_relationships env t flt consistency limit svc)),
      snd (read_relationships env t flt consistency limit svc))"
  by (simp add: numeral_2_eq_2 read_relationships_def result_simps split: prod.splits sum.splits)

lemma write_alone:
  "run_task 5 env (WriteStart t text_in force, svc) =
     (WriteDone t (fst (write_schema env t text_in force svc)), snd (write_schema env t text_in force svc))"
  by (simp add: eval_nat_numeral write_schema_def Let_def run_task_done
      split: prod.splits sum.splits option.splits)

lemma tuples_alone:
  "run_task 2 env (TuplesStart t ws ds, svc) =
     (TuplesDone t (fst (write_relationships env t ws ds svc)), snd (write_relationships env t ws ds svc))"
  by (simp add: numeral_2_eq_2 write_relationships_def Let_def split: prod.splits sum.splits)

section \<open>Running together\<close>

text \<open>A write of tuples is a step while the tenant's transaction counter is below the sentinel.\<close>

fun task_room :: "(TenantId \<Rightarrow> 'f \<Rightarrow> u64) \<Rightarrow> 'f Task \<Rightarrow> 'f \<Rightarrow> bool" where
  "task_room current (TuplesStart t ws ds) f \<longleftrightarrow> tx_room (current t f)"
| "task_room current _ f \<longleftrightarrow> True"

fun new_task :: "'f Task \<Rightarrow> bool" where
  "new_task (CheckStart t input) \<longleftrightarrow> True"
| "new_task (ExpandStart t expand_input) \<longleftrightarrow> True"
| "new_task (ResourcesStart t lookup_input) \<longleftrightarrow> True"
| "new_task (ReadStart t flt consistency limit) \<longleftrightarrow> True"
| "new_task (WriteStart t text_in force) \<longleftrightarrow> True"
| "new_task (TuplesStart t ws ds) \<longleftrightarrow> True"
| "new_task _ \<longleftrightarrow> False"

text \<open>
  The states the service reaches with any number of tasks in flight; \<open>past\<close> lists the states of the stores
  so far.
\<close>

inductive interleaved ::
  "('f, 'sc, 'cc) Env \<Rightarrow> (TenantId \<Rightarrow> 'f \<Rightarrow> u64) \<Rightarrow> ('f, 'sc, 'cc) AuthzService \<Rightarrow>
     'f list \<Rightarrow> 'f Task list \<Rightarrow> ('f, 'sc, 'cc) AuthzService \<Rightarrow> bool"
  for env current svc0 where
  start: "interleaved env current svc0 [factory svc0] [] svc0"
| spawn: "interleaved env current svc0 past ts svc \<Longrightarrow> new_task k \<Longrightarrow> interleaved env current svc0 past (ts @ [k]) svc"
| advance: "interleaved env current svc0 past ts svc \<Longrightarrow> i < length ts \<Longrightarrow> task_room current (ts ! i) (factory svc) \<Longrightarrow>
     task_step env (ts ! i) svc = (k, svc') \<Longrightarrow>
     interleaved env current svc0 (factory svc' # past) (ts[i := k]) svc'"

text \<open>What tasks rely on beyond \<open>tenant_stores\<close>: a tenant whose store was opened stays open.\<close>

locale concurrent_stores = tenant_stores F handle current view schema_text inv ready
  for F :: "'f StoreFactory" and handle current view schema_text inv ready +
  assumes for_tenant_keeps: "ready u f \<Longrightarrow> ready u (snd (for_tenant F f t))"
    and write_keeps: "store_write (handle t) f ws ds = (r, f') \<Longrightarrow> ready u f \<Longrightarrow> ready u f'"
    and write_schema_keeps: "store_write_schema (handle t) f d = (r', f') \<Longrightarrow> ready u f \<Longrightarrow> ready u f'"
begin

text \<open>A schema the tenant had stored, and an answer some such schema gives on the tuples of some state.\<close>

definition known :: "('f, 'sc, 'cc) Env \<Rightarrow> 'f set \<Rightarrow> TenantId \<Rightarrow> Schema \<Rightarrow> bool" where
  "known env past t S \<longleftrightarrow> (\<exists>f\<in>past. load_schema env (handle t) f = Inr S)"

definition decided :: "('f, 'sc, 'cc) Env \<Rightarrow> EngineConfig \<Rightarrow> 'f set \<Rightarrow> TenantId \<Rightarrow> CheckRequest \<Rightarrow> bool \<Rightarrow> bool" where
  "decided env ec past t req b \<longleftrightarrow>
     (\<exists>S. known env past t S \<and> (\<exists>f\<in>past. check (engine_at (handle t) f ec S) req = Inr \<lparr>allowed = b\<rparr>))"

text \<open>The same for a tree, for the objects a lookup goes through, and for its answer; and what a read finds.\<close>

definition expanded ::
  "('f, 'sc, 'cc) Env \<Rightarrow> EngineConfig \<Rightarrow> 'f set \<Rightarrow> TenantId \<Rightarrow> ExpandPermissionInput \<Rightarrow> ExpandPermissionOutput \<Rightarrow> bool" where
  "expanded env ec past t input out \<longleftrightarrow>
     (\<exists>S. known env past t S \<and> (\<exists>f\<in>past. expand (ExpandEngine_new (StoreTupleReader (handle t) f) S ec)
        \<lparr>er_object_type = epi_object_type input, er_object_id = epi_object_id input,
         er_permission = epi_permission input, er_snapshot = epo_snapshot out\<rparr> = Inr (epo_tree out)))"

definition listed :: "'f set \<Rightarrow> TenantId \<Rightarrow> string \<Rightarrow> SnapshotToken option \<Rightarrow> string list \<Rightarrow> bool" where
  "listed past t ty so ids \<longleftrightarrow> (\<exists>f\<in>past. store_list_object_ids (handle t) f ty so None = Inr ids)"

definition looked_up ::
  "('f, 'sc, 'cc) Env \<Rightarrow> EngineConfig \<Rightarrow> 'f set \<Rightarrow> TenantId \<Rightarrow> LookupResourcesInput \<Rightarrow> LookupResourcesOutput \<Rightarrow> bool" where
  "looked_up env ec past t input out \<longleftrightarrow>
     (\<exists>S ids. known env past t S \<and> listed past t (lri_resource_type input) (lro_snapshot out) ids \<and>
        (\<exists>f\<in>past. lookup_loop (engine_at (handle t) f ec S) input (lro_snapshot out)
           (case lri_limit input of Some n \<Rightarrow> n | None \<Rightarrow> 1000) [] ids = Inr (lro_resource_ids out)))"

definition found :: "'f set \<Rightarrow> TenantId \<Rightarrow> TupleFilter \<Rightarrow> nat option \<Rightarrow> ReadRelationshipsOutput \<Rightarrow> bool" where
  "found past t flt limit out \<longleftrightarrow>
     (\<exists>f\<in>past. store_read (handle t) f flt (rro_snapshot out) limit = Inr (rro_tuples out))"

fun job_ok :: "'f set \<Rightarrow> TenantId \<Rightarrow> SnapshotToken option \<Rightarrow> Job \<Rightarrow> bool" where
  "job_ok past t so (ResourcesJob input ids) \<longleftrightarrow> listed past t (lri_resource_type input) so ids"
| "job_ok past t so _ \<longleftrightarrow> True"

lemma known_mono: "known env past t S \<Longrightarrow> past \<subseteq> past' \<Longrightarrow> known env past' t S"
  by (auto simp: known_def)

lemma decided_mono: "decided env ec past t req b \<Longrightarrow> past \<subseteq> past' \<Longrightarrow> decided env ec past' t req b"
  unfolding decided_def by (blast intro: known_mono)

lemma listed_mono: "listed past t ty so ids \<Longrightarrow> past \<subseteq> past' \<Longrightarrow> listed past' t ty so ids"
  by (auto simp: listed_def)

lemma expanded_mono: "expanded env ec past t xi xo \<Longrightarrow> past \<subseteq> past' \<Longrightarrow> expanded env ec past' t xi xo"
  unfolding expanded_def by (blast intro: known_mono)

lemma looked_up_mono: "looked_up env ec past t li lo \<Longrightarrow> past \<subseteq> past' \<Longrightarrow> looked_up env ec past' t li lo"
  unfolding looked_up_def by (blast intro: known_mono listed_mono)

lemma found_mono: "found past t flt limit ro \<Longrightarrow> past \<subseteq> past' \<Longrightarrow> found past' t flt limit ro"
  by (auto simp: found_def)

lemma job_ok_mono: "job_ok past t so job \<Longrightarrow> past \<subseteq> past' \<Longrightarrow> job_ok past' t so job"
  by (cases job) (auto intro: listed_mono)

lemmas answers_mono = expanded_mono looked_up_mono found_mono job_ok_mono

fun task_ok :: "('f, 'sc, 'cc) Env \<Rightarrow> EngineConfig \<Rightarrow> 'f set \<Rightarrow> 'f \<Rightarrow> 'f Task \<Rightarrow> bool" where
  "task_ok env ec past f (CheckLookup t input store snap) \<longleftrightarrow> store = handle t"
| "task_ok env ec past f (SchemaLookup t job store so) \<longleftrightarrow> store = handle t \<and> job_ok past t so job"
| "task_ok env ec past f (SchemaRead t job store so) \<longleftrightarrow> store = handle t \<and> job_ok past t so job"
| "task_ok env ec past f (SchemaInsert t job store so S) \<longleftrightarrow> store = handle t \<and> job_ok past t so job \<and> known env past t S"
| "task_ok env ec past f (Evaluate t job store so S) \<longleftrightarrow> store = handle t \<and> job_ok past t so job \<and> known env past t S"
| "task_ok env ec past f (ResultInsert t input snap b) \<longleftrightarrow> decided env ec past t (check_request_of input (Some snap)) b"
| "task_ok env ec past f (CheckDone t input (Inr out)) \<longleftrightarrow>
     decided env ec past t (check_request_of input (cpo_snapshot out)) (cpo_allowed out)"
| "task_ok env ec past f (ExpandDone t xi (Inr xo)) \<longleftrightarrow> expanded env ec past t xi xo"
| "task_ok env ec past f (ResourcesList t li store so) \<longleftrightarrow> store = handle t"
| "task_ok env ec past f (ResourcesDone t li (Inr lo)) \<longleftrightarrow> looked_up env ec past t li lo"
| "task_ok env ec past f (ReadTuples t flt limit store so) \<longleftrightarrow> store = handle t"
| "task_ok env ec past f (ReadDone t flt limit (Inr ro)) \<longleftrightarrow> found past t flt limit ro"
| "task_ok env ec past f (WriteRead t text_in force S store) \<longleftrightarrow> store = handle t \<and> ready t f"
| "task_ok env ec past f (WriteStore t text_in force store b) \<longleftrightarrow> store = handle t \<and> ready t f"
| "task_ok env ec past f _ \<longleftrightarrow> True"

lemma task_ok_mono:
  assumes "task_ok env ec past f k" "past \<subseteq> past'" "\<And>u. ready u f \<Longrightarrow> ready u f'"
  shows "task_ok env ec past' f' k"
  using assms by (cases "(env, ec, past, f, k)" rule: task_ok.cases) (auto intro: known_mono decided_mono answers_mono)

lemma task_ok_failed [simp]: "task_ok env ec past f (job_failed t job e)"
  by (cases job) simp_all

definition shared_ok ::
  "('f, 'sc, 'cc) Env \<Rightarrow> ('sc \<Rightarrow> TenantId \<rightharpoonup> Schema) \<Rightarrow> ('cc \<Rightarrow> CheckCacheKey \<rightharpoonup> bool) \<Rightarrow> EngineConfig \<Rightarrow> 'f set \<Rightarrow>
     ('f, 'sc, 'cc) AuthzService \<Rightarrow> bool" where
  "shared_ok env K C ec past svc \<longleftrightarrow> inv (factory svc) \<and> factory svc \<in> past \<and> engine_config svc = ec \<and>
     (\<forall>t S. K (schema_cache svc) t = Some S \<longrightarrow> known env past t S) \<and>
     (\<forall>k b. C (check_cache svc) k = Some b \<longrightarrow> decided env ec past (cck_tenant_id k) (key_request k) b)"

lemma shared_ok_mono:
  assumes "shared_ok env K C ec past svc" "past \<subseteq> past'"
    and "inv (factory svc')" "factory svc' \<in> past'" "engine_config svc' = engine_config svc"
    and "\<And>t S. K (schema_cache svc') t = Some S \<Longrightarrow> K (schema_cache svc) t = Some S \<or> known env past' t S"
    and "\<And>k b. C (check_cache svc') k = Some b \<Longrightarrow> C (check_cache svc) k = Some b \<or>
      decided env ec past' (cck_tenant_id k) (key_request k) b"
  shows "shared_ok env K C ec past' svc'"
  using assms unfolding shared_ok_def by (metis known_mono decided_mono)

lemma open_keeps:
  assumes "env_factory env = F" "inv (factory svc)"
  obtains f where "open_store env t svc = (handle t, svc\<lparr>factory := f\<rparr>)" "inv f" "ready t f"
    "\<And>u. ready u (factory svc) \<Longrightarrow> ready u f" "obs_same (factory svc) f"
proof (rule that [of "snd (for_tenant F (factory svc) t)"])
  show "open_store env t svc = (handle t, svc\<lparr>factory := snd (for_tenant F (factory svc) t)\<rparr>)"
    using for_tenant_handle [of "factory svc" t]
    by (cases "for_tenant F (factory svc) t") (simp add: open_store_def assms(1))
qed (use for_tenant_ready [OF assms(2)] for_tenant_keeps in \<open>auto simp: obs_same_def for_tenant_same\<close>)

text \<open>
  A step keeps what holds of the shared state and of the task, and keeps stores open; one lemma for each
  way a step acts on the shared state, then one for each step.
\<close>

definition lawful ::
  "('f, 'sc, 'cc) Env \<Rightarrow> ('sc \<Rightarrow> TenantId \<rightharpoonup> Schema) \<Rightarrow> ('cc \<Rightarrow> CheckCacheKey \<rightharpoonup> bool) \<Rightarrow> bool" where
  "lawful env K C \<longleftrightarrow> env_factory env = F \<and> cache_laws (env_schema_cache env) K \<and> cache_laws (env_check_cache env) C"

definition step_ok ::
  "('f, 'sc, 'cc) Env \<Rightarrow> ('sc \<Rightarrow> TenantId \<rightharpoonup> Schema) \<Rightarrow> ('cc \<Rightarrow> CheckCacheKey \<rightharpoonup> bool) \<Rightarrow> EngineConfig \<Rightarrow> 'f set \<Rightarrow>
     ('f, 'sc, 'cc) AuthzService \<Rightarrow> 'f Task \<times> ('f, 'sc, 'cc) AuthzService \<Rightarrow> bool" where
  "step_ok env K C ec past svc ks \<longleftrightarrow>
     (let past' = insert (factory (snd ks)) past
      in shared_ok env K C ec past' (snd ks) \<and> task_ok env ec past' (factory (snd ks)) (fst ks)) \<and>
     (\<forall>u. ready u (factory svc) \<longrightarrow> ready u (factory (snd ks)))"

lemma cached:
  assumes "shared_ok env K C ec past svc" "factory svc' = factory svc" "engine_config svc' = engine_config svc"
    and "\<And>t S. K (schema_cache svc') t = Some S \<Longrightarrow> K (schema_cache svc) t = Some S \<or> known env past t S"
    and "\<And>k b. C (check_cache svc') k = Some b \<Longrightarrow> C (check_cache svc) k = Some b \<or>
      decided env ec past (cck_tenant_id k) (key_request k) b"
    and "task_ok env ec past (factory svc) k"
  shows "step_ok env K C ec past svc (k, svc')"
proof -
  from assms(1) have i: "insert (factory svc) past = past" "inv (factory svc)" "factory svc \<in> past"
    by (auto simp: shared_ok_def)
  from shared_ok_mono [OF assms(1) subset_refl _ _ assms(3-5)] i assms(2,6) show ?thesis
    by (simp add: step_ok_def)
qed

lemma stay: "shared_ok env K C ec past svc \<Longrightarrow> task_ok env ec past (factory svc) k \<Longrightarrow> step_ok env K C ec past svc (k, svc)"
  by (rule cached) auto

lemma moved:
  assumes "shared_ok env K C ec past svc" "inv f" "\<And>u. ready u (factory svc) \<Longrightarrow> ready u f"
    and "task_ok env ec (insert f past) f k"
  shows "step_ok env K C ec past svc (k, svc\<lparr>factory := f\<rparr>)"
  using shared_ok_mono [OF assms(1), of "insert f past" "svc\<lparr>factory := f\<rparr>"] assms(2-4)
  by (auto simp: step_ok_def)

lemma opened:
  assumes "lawful env K C" "shared_ok env K C ec past svc"
  obtains f where "open_store env t svc = (handle t, svc\<lparr>factory := f\<rparr>)"
    "\<And>k. task_ok env ec (insert f past) f k \<Longrightarrow> step_ok env K C ec past svc (k, svc\<lparr>factory := f\<rparr>)"
    "inv f" "ready t f" "obs_same (factory svc) f" "\<And>u. ready u (factory svc) \<Longrightarrow> ready u f"
proof -
  from assms have e: "env_factory env = F" and i: "inv (factory svc)" by (auto simp: lawful_def shared_ok_def)
  show ?thesis by (rule open_keeps [OF e i, of t]) (rule that; (rule moved [OF assms(2)])?)
qed

lemma starts_ok:
  assumes "lawful env K C" "shared_ok env K C ec past svc"
  shows "step_ok env K C ec past svc (task_step env (CheckStart t input) svc)"
    "step_ok env K C ec past svc (task_step env (ExpandStart t xi) svc)"
    "step_ok env K C ec past svc (task_step env (ResourcesStart t li) svc)"
    "step_ok env K C ec past svc (task_step env (ReadStart t flt consistency limit) svc)"
    "step_ok env K C ec past svc (task_step env (WriteStart t text_in force) svc)"
  by (rule opened [OF assms, of t]; auto intro: stay [OF assms(2)] split: sum.splits option.splits)+

lemma CheckLookup_ok:
  assumes l: "lawful env K C" and s: "shared_ok env K C ec past svc"
    and k: "task_ok env ec past (factory svc) (CheckLookup t input store snap)"
  shows "step_ok env K C ec past svc (task_step env (CheckLookup t input store snap) svc)"
proof -
  from l have C: "cache_laws (env_check_cache env) C" by (simp add: lawful_def)
  obtain g c where g: "cache_get (env_check_cache env) (check_cache svc) (cache_key_of t input snap) = (g, c)" by fastforce
  have "decided env ec past t (check_request_of input (Some snap)) b" if "g = Some b" for b
    using s cache_lawsD(2) [OF C g [unfolded that]] by (fastforce simp: shared_ok_def)
  with g k show ?thesis by (cases g) (auto intro!: cached [OF s] dest: cache_lawsD(3) [OF C g])
qed

lemma SchemaLookup_ok:
  assumes l: "lawful env K C" and s: "shared_ok env K C ec past svc"
    and k: "task_ok env ec past (factory svc) (SchemaLookup t job store so)"
  shows "step_ok env K C ec past svc (task_step env (SchemaLookup t job store so) svc)"
proof -
  from l have K: "cache_laws (env_schema_cache env) K" by (simp add: lawful_def)
  obtain g c where g: "cache_get (env_schema_cache env) (schema_cache svc) t = (g, c)" by fastforce
  have "known env past t S" if "g = Some S" for S
    using s cache_lawsD(2) [OF K g [unfolded that]] by (simp add: shared_ok_def)
  with g k show ?thesis by (cases g) (auto intro!: cached [OF s] dest: cache_lawsD(3) [OF K g])
qed

lemma inserts_ok:
  assumes l: "lawful env K C" and s: "shared_ok env K C ec past svc"
  shows "task_ok env ec past (factory svc) (SchemaInsert t job store so S) \<Longrightarrow>
      step_ok env K C ec past svc (task_step env (SchemaInsert t job store so S) svc)"
    "task_ok env ec past (factory svc) (ResultInsert t input snap b) \<Longrightarrow>
      step_ok env K C ec past svc (task_step env (ResultInsert t input snap b) svc)"
proof -
  from l have K: "cache_laws (env_schema_cache env) K" and C: "cache_laws (env_check_cache env) C" by (simp_all add: lawful_def)
  show "task_ok env ec past (factory svc) (SchemaInsert t job store so S) \<Longrightarrow>
      step_ok env K C ec past svc (task_step env (SchemaInsert t job store so S) svc)"
    by (auto intro!: cached [OF s] dest!: cache_lawsD(4) [OF K])
  show "task_ok env ec past (factory svc) (ResultInsert t input snap b) \<Longrightarrow>
      step_ok env K C ec past svc (task_step env (ResultInsert t input snap b) svc)"
    by (auto intro!: cached [OF s] dest!: cache_lawsD(4) [OF C])
qed

lemma reads_ok:
  assumes s: "shared_ok env K C ec past svc"
  shows "task_ok env ec past (factory svc) (SchemaRead t job store so) \<Longrightarrow>
      step_ok env K C ec past svc (task_step env (SchemaRead t job store so) svc)"
    "task_ok env ec past (factory svc) (ResourcesList t li store so) \<Longrightarrow>
      step_ok env K C ec past svc (task_step env (ResourcesList t li store so) svc)"
    "task_ok env ec past (factory svc) (ReadTuples t flt limit store so) \<Longrightarrow>
      step_ok env K C ec past svc (task_step env (ReadTuples t flt limit store so) svc)"
    "task_ok env ec past (factory svc) (WriteRead t text_in force S store) \<Longrightarrow>
      step_ok env K C ec past svc (task_step env (WriteRead t text_in force S store) svc)"
proof -
  from s have "factory svc \<in> past" by (simp add: shared_ok_def)
  then have "load_schema env (handle t) (factory svc) = Inr S' \<Longrightarrow> known env past t S'"
    "store_list_object_ids (handle t) (factory svc) ty so None = Inr ids \<Longrightarrow> listed past t ty so ids"
    "store_read (handle t) (factory svc) flt so limit = Inr ys \<Longrightarrow> found past t flt limit \<lparr>rro_tuples = ys, rro_snapshot = so\<rparr>"
    for S' ty ids ys by (auto simp: known_def listed_def found_def)
  then show "task_ok env ec past (factory svc) (SchemaRead t job store so) \<Longrightarrow>
      step_ok env K C ec past svc (task_step env (SchemaRead t job store so) svc)"
    "task_ok env ec past (factory svc) (ResourcesList t li store so) \<Longrightarrow>
      step_ok env K C ec past svc (task_step env (ResourcesList t li store so) svc)"
    "task_ok env ec past (factory svc) (ReadTuples t flt limit store so) \<Longrightarrow>
      step_ok env K C ec past svc (task_step env (ReadTuples t flt limit store so) svc)"
    "task_ok env ec past (factory svc) (WriteRead t text_in force S store) \<Longrightarrow>
      step_ok env K C ec past svc (task_step env (WriteRead t text_in force S store) svc)"
    unfolding task_step.simps by (intro stay [OF s]; auto split: sum.splits)+
qed

lemma Evaluate_ok:
  assumes s: "shared_ok env K C ec past svc" and k: "task_ok env ec past (factory svc) (Evaluate t job store so S)"
  shows "step_ok env K C ec past svc (task_step env (Evaluate t job store so S) svc)"
proof -
  from s have p: "factory svc \<in> past" and ec: "engine_config svc = ec" by (auto simp: shared_ok_def)
  from k have h: "store = handle t" and kn: "known env past t S" and jb: "job_ok past t so job" by auto
  show ?thesis
  proof (cases job)
    case (CheckJob input)
    have "decided env ec past t (check_request_of input so) (allowed r)"
      if "check (engine_at (handle t) (factory svc) ec S) (check_request_of input so) = Inr r" for r
      using that kn p unfolding decided_def by (cases r) auto
    with h ec show ?thesis unfolding CheckJob task_step.simps
      by (intro stay [OF s]) (auto simp: engine_at_def split: sum.splits option.splits)
  next
    case (ExpandJob input)
    have "expanded env ec past t input out"
      if "expand (ExpandEngine_new (StoreTupleReader (handle t) (factory svc)) S ec)
        \<lparr>er_object_type = epi_object_type input, er_object_id = epi_object_id input,
         er_permission = epi_permission input, er_snapshot = epo_snapshot out\<rparr> = Inr (epo_tree out)" for out
      using that kn p unfolding expanded_def by auto
    with h ec show ?thesis unfolding ExpandJob task_step.simps by (intro stay [OF s]) (auto split: sum.splits)
  next
    case (ResourcesJob input ids)
    have "looked_up env ec past t input out"
      if "lookup_loop (CheckEngine_new (StoreTupleReader (handle t) (factory svc)) S ec) input (lro_snapshot out)
          (case lri_limit input of Some n \<Rightarrow> n | None \<Rightarrow> 1000) [] ids = Inr (lro_resource_ids out)"
        "so = lro_snapshot out" for out
      using that kn p jb ResourcesJob unfolding looked_up_def engine_at_def by auto
    with h ec show ?thesis unfolding ResourcesJob task_step.simps by (intro stay [OF s]) (auto split: sum.splits)
  qed
qed

lemma invalidates_ok:
  assumes l: "lawful env K C" and s: "shared_ok env K C ec past svc"
  shows "step_ok env K C ec past svc (task_step env (WriteInvalidate t force b) svc)"
    "step_ok env K C ec past svc (task_step env (WriteInvalidateAll t force b) svc)"
    "step_ok env K C ec past svc (task_step env (TuplesInvalidate t n m tok) svc)"
  using l unfolding lawful_def by (auto intro!: cached [OF s] simp: cache_lawsD(6) dest: cache_lawsD(5))

lemma WriteStore_ok:
  assumes s: "shared_ok env K C ec past svc" and k: "task_ok env ec past (factory svc) (WriteStore t text_in force store b)"
  shows "step_ok env K C ec past svc (task_step env (WriteStore t text_in force store b) svc)"
proof -
  from k s have "store = handle t" "inv (factory svc)" "ready t (factory svc)" by (auto simp: shared_ok_def)
  then obtain f where f: "store_write_schema (handle t) (factory svc) text_in = (Inr (), f)" "inv f" "store = handle t"
    using st.schema_written [of "factory svc" t text_in] by auto
  then show ?thesis using write_schema_keeps [OF f(1)] by (auto intro!: moved [OF s])
qed

lemma TuplesStart_ok:
  assumes l: "lawful env K C" and s: "shared_ok env K C ec past svc" and room: "tx_room (current t (factory svc))"
  shows "step_ok env K C ec past svc (task_step env (TuplesStart t ws ds) svc)"
proof -
  obtain f where o: "open_store env t svc = (handle t, svc\<lparr>factory := f\<rparr>)" "inv f" "ready t f"
    "obs_same (factory svc) f" "\<And>u. ready u (factory svc) \<Longrightarrow> ready u f" by (rule opened [OF l s]) blast
  from room o(4) have rm: "tx_room (current t f)" by (simp add: obs_same_def)
  obtain r f' where w: "store_write (handle t) f ws ds = (r, f')" by fastforce
  have "inv f'" by (rule st.write_cases [of f t, OF _ rm, where ws = ws and ds = ds]) (use o w in auto)
  with o write_keeps [OF w] show ?thesis
    by (cases r) (auto simp: w intro!: moved [OF s])
qed

lemma done_ok:
  assumes s: "shared_ok env K C ec past svc"
  shows "task_ok env ec past (factory svc) (CheckDone t input r) \<Longrightarrow>
      step_ok env K C ec past svc (task_step env (CheckDone t input r) svc)"
    "task_ok env ec past (factory svc) (ExpandDone t xi xr) \<Longrightarrow>
      step_ok env K C ec past svc (task_step env (ExpandDone t xi xr) svc)"
    "task_ok env ec past (factory svc) (ResourcesDone t li lr) \<Longrightarrow>
      step_ok env K C ec past svc (task_step env (ResourcesDone t li lr) svc)"
    "task_ok env ec past (factory svc) (ReadDone t flt limit rr) \<Longrightarrow>
      step_ok env K C ec past svc (task_step env (ReadDone t flt limit rr) svc)"
    "step_ok env K C ec past svc (task_step env (WriteDone t wr) svc)"
    "step_ok env K C ec past svc (task_step env (TuplesDone t tr) svc)"
  unfolding task_step.simps by (rule stay [OF s]; simp)+

lemmas steps_ok = done_ok starts_ok CheckLookup_ok SchemaLookup_ok inserts_ok reads_ok Evaluate_ok invalidates_ok
  WriteStore_ok TuplesStart_ok

lemma task_step_ok:
  assumes "lawful env K C" "shared_ok env K C ec past svc" "task_ok env ec past (factory svc) k"
    and "task_room current k (factory svc)"
  shows "step_ok env K C ec past svc (task_step env k svc)"
  using assms by (cases k) (simp_all only: steps_ok task_room.simps)

text \<open>The invariant of every interleaving.\<close>

lemma interleaved_ok:
  assumes "interleaved env current svc0 past ts svc"
    and "env_factory env = F" "cache_laws (env_schema_cache env) K" "cache_laws (env_check_cache env) C"
    and "shared_ok env K C ec {factory svc0} svc0"
  shows "shared_ok env K C ec (set past) svc \<and> (\<forall>k\<in>set ts. task_ok env ec (set past) (factory svc) k)"
  using assms(1)
proof induction
  case (spawn past ts svc k)
  then show ?case by (cases k) auto
next
  case (advance past ts svc i k svc')
  from advance have ok: "task_ok env ec (set past) (factory svc) (ts ! i)" by simp
  have "lawful env K C" using assms(2-4) by (simp add: lawful_def)
  from task_step_ok [OF this _ ok advance.hyps(3)] advance.IH advance.hyps(4)
  have "shared_ok env K C ec (set (factory svc' # past)) svc'" "task_ok env ec (set (factory svc' # past)) (factory svc') k"
    and r: "\<And>u. ready u (factory svc) \<Longrightarrow> ready u (factory svc')"
    by (auto simp: step_ok_def Let_def)
  moreover have "task_ok env ec (set (factory svc' # past)) (factory svc') j" if "j \<in> set ts" for j
    by (rule task_ok_mono [where past = "set past" and f = "factory svc"]) (use that r advance.IH in auto)
  ultimately show ?case by (auto dest: set_update_subset_insert [THEN subsetD])
qed (use assms(5) in simp)

end

interpretation mem_concurrent: concurrent_stores InMemoryStoreFactory tenant_handle
    "\<lambda>t stores. current_tx (tenant_state stores t)" "\<lambda>t stores. mem_view (tenant_state stores t)"
    "\<lambda>t stores. schema_of (tenant_state stores t)" stores_inv "\<lambda>t stores. t \<in> dom stores"
  by unfold_locales
    (auto simp: InMemoryStoreFactory_def mem_for_tenant_def tenant_handle_def split: option.splits prod.splits)

section \<open>What the tasks answer\<close>

lemma mem_interleaved_ok:
  assumes "interleaved env mem_current (with_cache_config env InMemoryStoreFactory_new ec sl cc) past ts svc"
    and "env_factory env = InMemoryStoreFactory" "cache_laws (env_schema_cache env) K" "cache_laws (env_check_cache env) C"
    and "k \<in> set ts"
  shows "mem_concurrent.task_ok env ec (set past) (factory svc) k"
proof -
  let ?s = "with_cache_config env InMemoryStoreFactory_new ec sl cc"
  have "mem_concurrent.shared_ok env K C ec {factory ?s} ?s"
    using assms(3,4) by (simp add: mem_concurrent.shared_ok_def with_cache_config_def cache_lawsD(1))
  from mem_concurrent.interleaved_ok [OF assms(1-4) this] assms(5) show ?thesis by blast
qed


text \<open>
  The same for the other answers. A tree is that of one stored schema on the tuples of one point of the
  run; a read returns what the store held at one point of the run.
\<close>

lemma interleaved_expand:
  assumes "interleaved env mem_current (with_cache_config env InMemoryStoreFactory_new ec sl cc) past ts svc"
    and "env_factory env = InMemoryStoreFactory" "cache_laws (env_schema_cache env) K" "cache_laws (env_check_cache env) C"
    and "ExpandDone t input (Inr out) \<in> set ts"
  shows "\<exists>f1\<in>set past. \<exists>f2\<in>set past. \<exists>definition_text S.
    schema_of (tenant_state f1 t) = Some definition_text \<and> parse_schema (env_pest_error env) definition_text = Inr S \<and>
    expand (ExpandEngine_new (StoreTupleReader (tenant_handle t) f2) S ec)
      \<lparr>er_object_type = epi_object_type input, er_object_id = epi_object_id input,
       er_permission = epi_permission input, er_snapshot = epo_snapshot out\<rparr> = Inr (epo_tree out)"
  using mem_interleaved_ok [OF assms]
  by (auto simp: mem_concurrent.expanded_def mem_concurrent.known_def load_schema_tenant)

lemma interleaved_read:
  assumes "interleaved env mem_current (with_cache_config env InMemoryStoreFactory_new ec sl cc) past ts svc"
    and "env_factory env = InMemoryStoreFactory" "cache_laws (env_schema_cache env) K" "cache_laws (env_check_cache env) C"
    and "ReadDone t flt limit (Inr out) \<in> set ts"
  shows "\<exists>f\<in>set past. mem_read (tenant_state f t) flt (rro_snapshot out) limit = Inr (rro_tuples out)"
  using mem_interleaved_ok [OF assms] by (auto simp: mem_concurrent.found_def tenant_handle_def)

lemma interleaved_lookup:
  assumes "interleaved env mem_current (with_cache_config env InMemoryStoreFactory_new ec sl cc) past ts svc"
    and "env_factory env = InMemoryStoreFactory" "cache_laws (env_schema_cache env) K" "cache_laws (env_check_cache env) C"
    and "ResourcesDone t input (Inr out) \<in> set ts" "oi \<in> set (lro_resource_ids out)"
  shows "\<exists>f1\<in>set past. \<exists>f2\<in>set past. \<exists>definition_text S.
    schema_of (tenant_state f1 t) = Some definition_text \<and> parse_schema (env_pest_error env) definition_text = Inr S \<and>
    check (CheckEngine_new (StoreTupleReader (tenant_handle t) f2) S ec)
      (check_request_of (resource_check input (lro_snapshot out) oi) (lro_snapshot out)) = Inr \<lparr>allowed = True\<rparr>"
proof -
  from mem_interleaved_ok [OF assms(1-5)]
  obtain f1 f2 S ids where f: "f1 \<in> set past" "f2 \<in> set past" "load_schema env (tenant_handle t) f1 = Inr S"
    and l: "lookup_loop (engine_at (tenant_handle t) f2 ec S) input (lro_snapshot out)
      (case lri_limit input of Some n \<Rightarrow> n | None \<Rightarrow> 1000) [] ids = Inr (lro_resource_ids out)"
    by (auto simp: mem_concurrent.looked_up_def mem_concurrent.known_def)
  from lookup_loop_Inr [OF l] assms(6)
  have "check (engine_at (tenant_handle t) f2 ec S)
      (check_request_of (resource_check input (lro_snapshot out) oi) (lro_snapshot out)) = Inr \<lparr>allowed = True\<rparr>"
    by (auto simp: resource_check_def check_request_of_def dest: in_set_takeD)
  with f show ?thesis by (auto simp: load_schema_tenant engine_at_def)
qed

end
