(* ===== verification/Interleaving_Demo.thy ===== *)
theory Interleaving_Demo
  imports Interleaving
begin

text \<open>
  A run in which a schema write and a check overlap: the check reads the stored schema before the write
  and puts it into the cache after the write has invalidated it. The old schema then decides every later
  check, although the write was answered.
\<close>

text \<open>Only a task that was not started yet waits for room.\<close>

lemma started_room: "task_room current (fst (task_step env k svc)) f"
proof (cases k)
  case (SchemaRead t job store so)
  then show ?thesis by (cases job) (simp_all split: sum.splits)
next
  case (Evaluate t job store so S)
  then show ?thesis by (cases job) (simp_all split: sum.splits option.splits)
qed (simp_all split: prod.splits sum.splits option.splits)

text \<open>Steps of one task in a row.\<close>

lemma interleaved_run:
  assumes "interleaved env current svc0 past ts svc" "i < length ts" "task_room current (ts ! i) (factory svc)"
  shows "\<exists>past'. interleaved env current svc0 past' (ts[i := fst (run_task n env (ts ! i, svc))]) (snd (run_task n env (ts ! i, svc)))"
  using assms
proof (induction n arbitrary: past ts svc)
  case (Suc n)
  obtain k svc' where st: "task_step env (ts ! i) svc = (k, svc')" by fastforce
  from advance [OF Suc.prems st] have "interleaved env current svc0 (factory svc' # past) (ts[i := k]) svc'" .
  with Suc.IH [of "factory svc' # past" "ts[i := k]" svc'] Suc.prems(2) st started_room [of current env "ts ! i" svc "factory svc'"]
  show ?case by simp
qed (use assms in auto)

lemma interleaved_new:
  assumes "interleaved env current svc0 past ts svc" "new_task k" "task_room current k (factory svc)"
    and "run_task n env (k, svc) = (k', svc')"
  shows "\<exists>past'. interleaved env current svc0 past' (ts @ [k']) svc'"
  using interleaved_run [OF spawn [OF assms(1,2)], of "length ts" n] assms(3,4) by (simp add: nth_append list_update_append)

definition changed_text :: string where
  "changed_text = ''definition doc { relation owner: user relation banned: user permission view = banned }''"

definition changed_schema :: Schema where
  "changed_schema = \<lparr>types = [\<lparr>type_name = ''doc'', relations =
      [\<lparr>rel_name = ''owner'', rel_subject_types = [\<lparr>str_type_name = ''user'', str_relation = None\<rparr>]\<rparr>,
       \<lparr>rel_name = ''banned'', rel_subject_types = [\<lparr>str_type_name = ''user'', str_relation = None\<rparr>]\<rparr>],
      permissions = [\<lparr>perm_name = ''view'', perm_rule = RThis ''banned''\<rparr>]\<rparr>]\<rparr>"

lemma changed_parsed: "parse_schema (\<lambda>_. ''syntax'') changed_text = Inr changed_schema"
  by code_simp

definition view_check :: CheckPermissionInput where
  "view_check = \<lparr>cpi_object_type = ''doc'', cpi_object_id = ''1'', cpi_permission = ''view'',
     cpi_subject_type = ''user'', cpi_subject_id = ''ann'', cpi_consistency = MinimizeLatency\<rparr>"

definition uncached_state :: "string \<Rightarrow> AuditEvent list \<Rightarrow> DemoService" where
  "uncached_state txt log = (demo_state txt plain_schema plain_writes)\<lparr>schema_cache := Map.empty, audit_log := log\<rparr>"

definition stale_state :: "string \<Rightarrow> AuditEvent list \<Rightarrow> DemoService" where
  "stale_state txt log = (uncached_state txt log)\<lparr>schema_cache := [demo_tenant \<mapsto> plain_schema]\<rparr>"

lemma demo_opens:
  "open_store demo_env demo_tenant (uncached_state txt log) = (tenant_handle demo_tenant, uncached_state txt log)"
  "open_store demo_env demo_tenant (stale_state txt log) = (tenant_handle demo_tenant, stale_state txt log)"
  "on_metrics g (uncached_state txt log) = uncached_state txt log" "on_metrics g (stale_state txt log) = stale_state txt log"
  by (simp_all add: stale_state_def uncached_state_def demo_state_def demo_stores_def open_store_def demo_env_def
      InMemoryStoreFactory_def mem_for_tenant_def on_metrics_def)

lemma demo_caches:
  "cache_get (env_schema_cache demo_env) (schema_cache (uncached_state txt log)) demo_tenant = (None, schema_cache (uncached_state txt log))"
  "cache_get (env_schema_cache demo_env) (schema_cache (stale_state txt log)) demo_tenant = (Some plain_schema, schema_cache (stale_state txt log))"
  "cache_insert (env_schema_cache demo_env) (schema_cache (uncached_state txt log)) demo_tenant plain_schema = schema_cache (stale_state txt log)"
  by (simp_all add: stale_state_def uncached_state_def demo_env_def demo_cache_def)

lemma demo_states [simp]:
  "factory (uncached_state txt log) = demo_stores txt plain_writes" "factory (stale_state txt log) = demo_stores txt plain_writes"
  "engine_config (stale_state txt log) = EngineConfig_default"
  "(uncached_state txt log)\<lparr>schema_cache := schema_cache (uncached_state txt log)\<rparr> = uncached_state txt log"
  "(uncached_state txt log)\<lparr>schema_cache := schema_cache (stale_state txt log)\<rparr> = stale_state txt log"
  "(stale_state txt log)\<lparr>schema_cache := schema_cache (stale_state txt log)\<rparr> = stale_state txt log"
  by (simp_all add: stale_state_def uncached_state_def demo_state_def)

lemma demo_loads: "parse_schema (\<lambda>_. ''syntax'') txt = Inr S \<Longrightarrow>
    load_schema demo_env (tenant_handle demo_tenant) (demo_stores txt ws) = Inr S"
  by (simp add: load_schema_tenant demo_env_def demo_stores_def tenant_state_def)

lemma view_check_resolves: "resolve_snapshot st f (cpi_consistency view_check) = Inr None"
  by (simp add: view_check_def)

text \<open>The check up to the point where it holds the schema it read.\<close>

lemma check_holds_schema:
  "run_task 3 demo_env (CheckStart demo_tenant view_check, uncached_state plain_text log) =
     (SchemaInsert demo_tenant (CheckJob view_check) (tenant_handle demo_tenant) None plain_schema, uncached_state plain_text log)"
  by (simp add: eval_nat_numeral demo_opens demo_caches demo_loads [OF plain_parsed] view_check_resolves)

lemma evaluate_view:
  "check (CheckEngine_new (StoreTupleReader (tenant_handle demo_tenant) (demo_stores changed_text plain_writes)) plain_schema
     EngineConfig_default) (check_request_of view_check None) = Inr \<lparr>allowed = True\<rparr>"
  "check (CheckEngine_new (StoreTupleReader (tenant_handle demo_tenant) (demo_stores changed_text plain_writes)) changed_schema
     EngineConfig_default) (check_request_of view_check None) = Inr \<lparr>allowed = False\<rparr>"
  by code_simp+

lemma check_inserts_schema:
  "run_task 3 demo_env (SchemaInsert demo_tenant (CheckJob view_check) (tenant_handle demo_tenant) None plain_schema, uncached_state changed_text log) =
     (CheckDone demo_tenant view_check (Inr \<lparr>cpo_allowed = True, cpo_snapshot = None\<rparr>), stale_state changed_text log)"
  by (simp add: eval_nat_numeral demo_caches evaluate_view(1))

text \<open>The second write, which the service accepts: nothing stored breaks.\<close>

lemma changed_accepted:
  "validate_schema_limits changed_schema SchemaLimits_default = Inr ()"
  "detect_breaking_changes plain_schema changed_schema = []"
  by code_simp+

lemma write_changed:
  "run_task 5 demo_env (WriteStart demo_tenant changed_text False, uncached_state plain_text log) =
     (WriteDone demo_tenant (Inr \<lparr>breaking_changes_overridden = False\<rparr>),
      uncached_state changed_text (log @ [SchemaWrite demo_tenant False False []]))"
proof -
  have p: "parse_schema (env_pest_error demo_env) changed_text = Inr changed_schema"
    "parse_schema (env_pest_error demo_env) plain_text = Inr plain_schema"
    using changed_parsed plain_parsed by (simp_all add: demo_env_def)
  have l: "schema_limits (uncached_state plain_text log) = SchemaLimits_default" by (simp add: uncached_state_def)
  have r: "store_read_schema (tenant_handle demo_tenant) (demo_stores plain_text plain_writes) = Inr (Some plain_text)"
    by (simp add: tenant.schema_read demo_stores_def tenant_state_def)
  have w: "store_write_schema (tenant_handle demo_tenant) (demo_stores plain_text plain_writes) changed_text =
      (Inr (), demo_stores changed_text plain_writes)"
    by (simp add: tenant_handle_def demo_stores_def tenant_state_def mem_write_schema_def)
  show ?thesis unfolding write_alone
    by (simp add: write_schema_def p l r w changed_accepted demo_opens Let_def)
      (simp add: uncached_state_def demo_state_def demo_env_def demo_cache_def emit_def audit_schema_write_def)
qed

fun finished :: "'f Task \<Rightarrow> bool" where
  "finished (CheckDone t input r) \<longleftrightarrow> True"
| "finished (WriteDone t r') \<longleftrightarrow> True"
| "finished (TuplesDone t r'') \<longleftrightarrow> True"
| "finished _ \<longleftrightarrow> False"

definition first_log :: "AuditEvent list" where
  "first_log = [SchemaWrite demo_tenant False False [], RelationshipWrite demo_tenant 1 0 1]"

lemma run_to_tuples:
  "\<exists>past k1 k2. interleaved demo_env mem_current demo_start past [k1, k2] (uncached_state plain_text first_log) \<and>
     finished k1 \<and> finished k2"
proof -
  let ?s = "demo_start\<lparr>factory := [demo_tenant \<mapsto> \<lparr>current_tx = 0, tuples = [], schema_of = Some plain_text\<rparr>],
        audit_log := [SchemaWrite demo_tenant False False []]\<rparr>"
  have v: "validate_schema_limits plain_schema SchemaLimits_default = Inr ()" by code_simp
  have u: "push_writes 1 [] {} plain_writes [] = map (stored_from 1) plain_writes" by code_simp
  have "\<exists>past'. interleaved demo_env mem_current demo_start past'
      ([] @ [WriteDone demo_tenant (fst (write_schema demo_env demo_tenant plain_text False demo_start))]) ?s"
    by (rule interleaved_new [OF start, where k = "WriteStart demo_tenant plain_text False" and n = 5])
      (simp_all add: write_alone demo_write_schema [OF plain_parsed v, simplified])
  then obtain past1 k1 where r: "interleaved demo_env mem_current demo_start past1 [k1] ?s" and f: "finished k1" by auto
  have "\<exists>past'. interleaved demo_env mem_current demo_start past'
      ([k1] @ [TuplesDone demo_tenant (fst (write_relationships demo_env demo_tenant plain_writes [] ?s))])
      (uncached_state plain_text first_log)"
  proof (rule interleaved_new [OF r, where k = "TuplesStart demo_tenant plain_writes []" and n = 2])
    show "run_task 2 demo_env (TuplesStart demo_tenant plain_writes [], ?s) =
        (TuplesDone demo_tenant (fst (write_relationships demo_env demo_tenant plain_writes [] ?s)), uncached_state plain_text first_log)"
      using demo_write_tuples [where S = plain_schema, OF u]
      by (simp add: tuples_alone uncached_state_def demo_state_def first_log_def plain_writes_def)
  qed (simp_all add: tx_room_unat tenant_state_def)
  with f show ?thesis by (metis append_Cons append_Nil finished.simps(3))
qed

text \<open>The run: the check holds the old schema, the write completes, the check goes on.\<close>

lemma stale_run:
  "\<exists>past k1 k2 log. interleaved demo_env mem_current demo_start past
      [k1, k2, CheckDone demo_tenant view_check (Inr \<lparr>cpo_allowed = True, cpo_snapshot = None\<rparr>),
       WriteDone demo_tenant (Inr \<lparr>breaking_changes_overridden = False\<rparr>)] (stale_state changed_text log) \<and>
     finished k1 \<and> finished k2"
proof -
  let ?t = demo_tenant and ?held = "SchemaInsert demo_tenant (CheckJob view_check) (tenant_handle demo_tenant) None plain_schema"
  let ?log = "first_log @ [SchemaWrite demo_tenant False False []]"
  let ?done = "WriteDone demo_tenant (Inr \<lparr>breaking_changes_overridden = False\<rparr>)"
  obtain p1 k1 k2 where r1: "interleaved demo_env mem_current demo_start p1 [k1, k2] (uncached_state plain_text first_log)"
    and f: "finished k1" "finished k2" using run_to_tuples by blast
  from interleaved_new [OF r1, where k = "CheckStart ?t view_check", OF _ _ check_holds_schema]
  obtain p2 where r2: "interleaved demo_env mem_current demo_start p2 [k1, k2, ?held] (uncached_state plain_text first_log)" by auto
  from interleaved_new [OF r2, where k = "WriteStart ?t changed_text False", OF _ _ write_changed]
  obtain p3 where r3: "interleaved demo_env mem_current demo_start p3 [k1, k2, ?held, ?done] (uncached_state changed_text ?log)" by auto
  have "\<exists>p4. interleaved demo_env mem_current demo_start p4
      [k1, k2, CheckDone ?t view_check (Inr \<lparr>cpo_allowed = True, cpo_snapshot = None\<rparr>), ?done] (stale_state changed_text ?log)"
    using interleaved_run [OF r3, of 2 3] by (simp add: check_inserts_schema)
  with f show ?thesis by blast
qed

text \<open>
  Under concurrency the caches are not transparent: there is a run of checks and writes after which
  every task is done, the last schema write was accepted, and a check is allowed by the schema before that
  write although the stored schema denies it.
\<close>

theorem stale_schema_decides:
  "\<exists>past ts svc. interleaved demo_env mem_current demo_start past ts svc \<and>
     list_all finished ts \<and> WriteDone demo_tenant (Inr \<lparr>breaking_changes_overridden = False\<rparr>) \<in> set ts \<and>
     schema_of (tenant_state (factory svc) demo_tenant) = Some changed_text \<and>
     fst (check_permission demo_env demo_tenant view_check svc) = Inr \<lparr>cpo_allowed = True, cpo_snapshot = None\<rparr> \<and>
     check_uncached demo_env (tenant_handle demo_tenant) (factory svc) (engine_config svc) view_check =
       Inr \<lparr>cpo_allowed = False, cpo_snapshot = None\<rparr>"
proof -
  let ?t = demo_tenant
  obtain p k1 k2 log where r: "interleaved demo_env mem_current demo_start p
      [k1, k2, CheckDone demo_tenant view_check (Inr \<lparr>cpo_allowed = True, cpo_snapshot = None\<rparr>),
       WriteDone demo_tenant (Inr \<lparr>breaking_changes_overridden = False\<rparr>)] (stale_state changed_text log)"
    and f: "finished k1" "finished k2" using stale_run by blast
  have "fst (check_permission demo_env ?t view_check (stale_state changed_text log)) = Inr \<lparr>cpo_allowed = True, cpo_snapshot = None\<rparr>"
    by (simp add: check_permission_def demo_opens load_schema_cached_def demo_caches evaluate_view(1) view_check_resolves Let_def)
  moreover have "check_uncached demo_env (tenant_handle ?t) (factory (stale_state changed_text log))
      (engine_config (stale_state changed_text log)) view_check = Inr \<lparr>cpo_allowed = False, cpo_snapshot = None\<rparr>"
    by (simp add: check_uncached_def demo_loads [OF changed_parsed] engine_at_def evaluate_view(2) view_check_resolves)
  moreover have "schema_of (tenant_state (factory (stale_state changed_text log)) ?t) = Some changed_text"
    by (simp add: demo_stores_def tenant_state_def)
  moreover note r
  ultimately show ?thesis using f by (intro exI conjI) (assumption | simp)+
qed


end
