(* ===== verification/Spec2Isabelle.thy ===== *)
theory Spec2Isabelle
  imports Rest_Correct Client_Correct Schema_Round_Trip Postgres_Server_Demo Startup Interleaving_Demo
begin

text \<open>
  Kraalzibar is a relationship-based authorization server. Per tenant it stores a schema (types with
  relations and permissions, a permission being a rule over relations) and relationship tuples
  (object, relation, subject), and answers whether a subject has a permission on an object. This
  development models the Rust code under \<open>src/crates\<close> and proves what its callers rely on.

  \<^bold>\<open>The parts and how they interact.\<close> A request enters through the REST router
  (\<open>kraalzibar-server/src/rest\<close>) or the gRPC services (\<open>grpc\<close>), is authenticated against the key table
  (\<open>middleware/auth.rs\<close>, \<open>auth.rs\<close>, \<open>api_key_repository.rs\<close>) and reaches a handler with the tenant of the
  key. The handler validates the body and calls the service (\<open>service.rs\<close>). The service opens the tenant's
  store through the store factory (\<open>kraalzibar-storage/src/traits.rs\<close>, with \<open>memory.rs\<close> and \<open>postgres\<close> behind
  it), loads the schema through a cache with the parser (\<open>kraalzibar-core/src/schema\<close>), and runs the check or
  expand engine (\<open>kraalzibar-core/src/engine\<close>) over the store seen as a tuple reader (\<open>adapter.rs\<close>). Writes
  invalidate the caches and are audited (\<open>audit.rs\<close>); the garbage collector (\<open>gc.rs\<close>) removes tuples the
  schema no longer covers. Programs use the server through the client library (\<open>kraalzibar-client\<close>); operators through
  the commands of \<open>main.rs\<close>, which also starts the server from its configuration (\<open>config.rs\<close>).

  \<^bold>\<open>Theories.\<close>
    \<^item> \<open>Prelude\<close>: results as sums with \<open>and_then\<close>, \<open>try_any\<close>, \<open>try_all\<close>; 64-bit words, decimal text.
    \<^item> \<open>Tuples\<close> (\<open>tuple.rs\<close>), \<open>Schemas\<close> (\<open>types.rs\<close>, \<open>validation.rs\<close>): data, filters, limits, breaking changes.
    \<^item> \<open>Schema_Parser\<close> (\<open>grammar.pest\<close>, \<open>parser.rs\<close>): the grammar as functions that consume input, and the
      tree walk. \<open>Schema_Parser_Correct\<close>: what a parsed schema and a rejected text look like, and that the
      repetitions of the grammar end. \<open>Schema_Round_Trip\<close>: every well-formed schema has a text that parses
      back to it.
    \<^item> \<open>Engine\<close>, \<open>Check_Engine\<close>, \<open>Expand_Engine\<close> (\<open>engine/\<close>): the reader interface as the locale
      \<open>tuple_reader\<close>, its weaker form \<open>tuple_source\<close> (reads may fail and return tuples in any order), and both
      engines as terminating mutual recursions bounded by the depth limit.
      \<open>Engine_Agreement\<close>: a check is the expanded tree read as a set expression. \<open>Engine_Semantics\<close>: the
      least reading of a schema as an inductive relation \<open>granted\<close>, and that the check decides it over every
      \<open>tuple_source\<close>.
      \<open>Engine_Depth\<close>: what the depth limit does.
    \<^item> \<open>Storage\<close> (\<open>traits.rs\<close>): the store interface as the locale \<open>versioned_store\<close>; \<open>Memory_Store\<close>
      (\<open>memory.rs\<close>): the store, its interpretation and the locale \<open>tenant_stores\<close> of a factory;
      \<open>Garbage_Collector\<close> (\<open>gc.rs\<close>); \<open>Adapter\<close> (\<open>adapter.rs\<close>): every versioned store is a tuple reader.
    \<^item> \<open>Postgres\<close> (\<open>postgres/queries.rs\<close>, \<open>mod.rs\<close>, \<open>migrations.rs\<close>): the PostgreSQL store as the statements it
      sends and the values it binds. \<open>Postgres_Correct\<close>: what it promises of a database that obeys
      \<open>sql_laws\<close>, which speak of the literal texts of the statements: writes are all or nothing and a read
      sees the version of its token. \<open>Postgres_Demo\<close>: a database that obeys the laws, by evaluating the text
      of the statements.
    \<^item> \<open>Metrics\<close> (\<open>metrics.rs\<close>): counters, histograms, Prometheus text.
    \<^item> \<open>Service\<close> (\<open>service.rs\<close>, \<open>error.rs\<close>, \<open>audit.rs\<close>): every method with caches, metrics and audit events.
      \<open>Service_Correct\<close>: the invariant of the caches, inside \<open>tenant_stores\<close>. \<open>Service_Machine\<close>: the service
      as a state machine over requests. \<open>Lookups\<close>: what the two lookups list.
    \<^item> \<open>Fallible_Stores\<close>: the contract of a factory whose operations may fail (\<open>fallible_stores\<close>, implied by
      \<open>tenant_stores\<close>), and the service over it: what is cached and answered stays sound whatever fails.
      \<open>Postgres_Service\<close>: the PostgreSQL factory keeps that contract, so its decisions are those of the stored
      schema and a write is seen at its token. \<open>Postgres_Server\<close>: the same through both front ends.
      \<open>Postgres_Service_Demo\<close>, \<open>Postgres_Server_Demo\<close>: the server over the database of \<open>Postgres_Demo\<close>.
    \<^item> \<open>Interleaving\<close>: checks, expansions, lookups, reads, schema writes and relationship writes as tasks
      whose steps alternate; a task run alone does what the method of \<open>Service\<close> does, and what a task answers
      among others is still what some stored schema gives on some state of the stores. \<open>Interleaving_Demo\<close>:
      the overlap that leaves an old schema in the cache.
    \<^item> \<open>Auth\<close> (\<open>auth.rs\<close>, \<open>middleware/auth.rs\<close>, \<open>api_key_repository.rs\<close>), \<open>Rest\<close> (\<open>rest/types.rs\<close>,
      \<open>rest/handlers.rs\<close>), \<open>Rest_Router\<close> (\<open>rest/mod.rs\<close>): keys, handlers, routes and layers, and the server
      as a state machine over HTTP requests. \<open>Rest_Correct\<close>: what a client of the REST interface can rely on.
    \<^item> \<open>Grpc\<close> (\<open>grpc/\<close> and the protobuf files): messages, conversions, the three services, the interceptor.
    \<^item> \<open>Config\<close> (\<open>config.rs\<close>): defaults, environment overrides, validation. \<open>Server\<close> (\<open>main.rs\<close>): one service
      behind both front ends, as a state machine over HTTP requests and gRPC calls.
    \<^item> \<open>Client\<close> (\<open>kraalzibar-client/src\<close>) and \<open>Client_Correct\<close>: the client library, and what a program that
      uses it gets from the server, end to end; REST and gRPC give the same answers.
    \<^item> \<open>Admin\<close> (\<open>cli.rs\<close>, the commands of \<open>main.rs\<close>): migration, tenants, keys, purge; an issued key
      authenticates. \<open>Startup\<close> (\<open>tls.rs\<close>, \<open>telemetry.rs\<close>, the rest of \<open>main.rs\<close>): TLS, logging, the database
      pool, the listeners, what ends the server, signals.
    \<^item> \<open>Demo\<close>, \<open>Service_Demo\<close>, \<open>Rest_Demo\<close>: concrete data on which the theorems are instantiated.
    \<^item> This theory: the properties that span the service, the engines and the stores.

  \<^bold>\<open>Bounds.\<close> Transaction ids are 64-bit words; \<open>tx_room\<close> says that a store is below the sentinel
  \<open>u64::MAX\<close> that marks active tuples, which the in-memory store does not check. The engines recurse at
  most \<open>max_depth\<close> levels of permissions; no fuel is used.

  \<^bold>\<open>Parameters.\<close> The cache library (contract \<open>cache_laws\<close>: a lookup gives the last value inserted or
  nothing), the database behind sqlx (contracts \<open>sql_laws\<close> and \<open>schema_laws\<close>; the latter has the clock of the
  database move forward between two schema writes of a tenant), floating point, the message of a syntax error,
  argon2, random draws, the rows of the key table, axum's body decoding, the file system and the
  environment, TOML decoding, PEM decoding and rustls, sockets, the channel of the client and the
  exporter of traces are arguments of the definitions that use them.

  \<^bold>\<open>Not modelled.\<close> Generated protobuf code and the wire format; the arguments of the command line as
  clap reads them; the health service, which is a library's (\<open>health.rs\<close>); the HTTP servers themselves.
  In \<open>Service_Machine\<close> and \<open>Server\<close> a request is one step; \<open>Interleaving\<close> splits the methods of the service
  into their accesses to shared state over the in-memory factory, but the evaluation of a permission by an
  engine stays one step: with a token its reads are stable, while a check at minimal latency that runs
  beside writes may in the program read several versions. Transactions of the PostgreSQL store run one
  after another. Over PostgreSQL the decisions, reading one's writes, the HTTP check and isolation are
  proved; expansion and the lookups are specified over the in-memory factory, as the PostgreSQL store
  promises the tuples of a version as a set, not in an order.
\<close>

section \<open>Decisions of the running service\<close>

text \<open>
  C1. Caches are transparent: after any sequence of requests to a fresh service over the in-memory
  stores, a permission check answers exactly as a check without caches on the tenant's stored schema
  and tuples, result and error alike, for every cache that returns the last value inserted or nothing.
\<close>

theorem check_permission_uncached:
  assumes "running env K C ec svc"
  shows "fst (check_permission env t input svc) = check_uncached env (tenant_handle t) (factory svc) ec input"
proof -
  note i = running_inv [OF assms]
  obtain r svc' where e: "check_permission env t input svc = (r, svc')" by fastforce
  from mem_factory.check_permission_ok [OF i(1) e] e i(2) show ?thesis by simp
qed

theorem check_permission_uncached_witness:
  "check_uncached demo_env (tenant_handle demo_tenant) (factory demo_service) EngineConfig_default
     (demo_check ''can_view'' ''bob'') = Inr \<lparr>cpo_allowed = True, cpo_snapshot = Some (SnapshotToken 1)\<rparr>"
  using check_permission_uncached [OF demo_running, of demo_tenant "demo_check ''can_view'' ''bob''"] demo_bob_views
  by simp



text \<open>
  C5. Tenants are isolated: a request made for one tenant, whatever it is, leaves every decision of
  every other tenant, results and errors alike, as it was.
\<close>

theorem tenant_isolation:
  assumes "running env K C ec svc" "has_room mem_current req (factory svc)" "u \<noteq> request_tenant req"
  shows "check_uncached env (tenant_handle u) (factory (svc_step env req svc)) ec input =
    check_uncached env (tenant_handle u) (factory svc) ec input"
  using mem_factory.svc_step_others [OF running_inv(1) [OF assms(1)] assms(2,3)]
  by (intro mem_factory.uncached_same) simp_all

theorem tenant_isolation_witness:
  "check_uncached demo_env (tenant_handle demo_tenant)
      (factory (svc_step demo_env (WriteSchema (TenantId 2) [] True) demo_service)) EngineConfig_default
      (demo_check ''can_view'' ''bob'') =
   check_uncached demo_env (tenant_handle demo_tenant) (factory demo_service) EngineConfig_default
      (demo_check ''can_view'' ''bob'')"
  by (rule tenant_isolation [OF demo_running]) (simp_all add: demo_tenant_def)

section \<open>Writes through the service\<close>

text \<open>
  C9. Read your writes: a write whose delete filters all name a field returns the next token, is
  recorded once in the audit log, and a read at that token, with either explicit consistency, returns
  exactly the tuples of the version before, without the deleted and with the written ones.
\<close>

theorem write_then_read:
  assumes "running env K C ec svc" "tx_room (mem_current t (factory svc))" "list_all has_any_field ds"
    and "write_relationships env t ws ds svc = (r, svc')" "c = AtLeastAsFresh \<or> c = AtExactSnapshot"
  shows "\<exists>tok. r = Inr tok \<and> value_of tok = mem_current t (factory svc) + 1 \<and>
    audit_log svc' = audit_log svc @ [RelationshipWrite t (length ws) (length ds) (value_of tok)] \<and>
    fst (read_relationships env t f (c tok) None svc') = Inr \<lparr>rro_tuples = filter (matches f)
      (apply_write ws ds (mem_view (tenant_state (factory svc) t) (mem_current t (factory svc)))), rro_snapshot = Some tok\<rparr>"
  using running_inv(1) [OF assms(1)] assms(2,4)
proof (cases rule: mem_factory.write_relationships_cases)
  case rejected
  with assms(3) show ?thesis by (auto simp: list_all_iff list_ex_iff)
next
  case accepted
  let ?tok = "SnapshotToken (mem_current t (factory svc) + 1)"
  obtain r' svc'' where rd: "read_relationships env t f (c ?tok) None svc' = (r', svc'')" by fastforce
  from mem_factory.read_relationships_ok [OF accepted(3) rd] assms(5) accepted(5,6)
  have "r' = Inr \<lparr>rro_tuples = filter (matches f)
      (apply_write ws ds (mem_view (tenant_state (factory svc) t) (mem_current t (factory svc)))), rro_snapshot = Some ?tok\<rparr>"
    by (auto simp: tenant.read_view snapshot_value_def)
  with accepted rd show ?thesis by (intro exI [of _ ?tok]) simp
qed

theorem write_then_read_witness:
  "\<exists>tok. fst (write_relationships demo_env demo_tenant [] [exact_filter (hd demo_tuples)] demo_service) = Inr tok \<and>
    value_of tok = 2 \<and>
    fst (read_relationships demo_env demo_tenant TupleFilter_default (AtExactSnapshot tok) None
      (snd (write_relationships demo_env demo_tenant [] [exact_filter (hd demo_tuples)] demo_service))) =
      Inr \<lparr>rro_tuples = tl demo_tuples, rro_snapshot = Some tok\<rparr>"
proof -
  let ?w = "write_relationships demo_env demo_tenant [] [exact_filter (hd demo_tuples)] demo_service"
  have c: "mem_current demo_tenant (factory demo_service) = 1" by (simp add: demo_service_def)
  have a: "apply_write [] [exact_filter (hd demo_tuples)] demo_tuples = tl demo_tuples" by code_simp
  from write_then_read [OF demo_running _ _ prod.collapse [of ?w, symmetric], where c = AtExactSnapshot and f = TupleFilter_default]
  show ?thesis by (auto simp: c tx_room_unat demo_service_view a)
qed

text \<open>
  C10. A schema write is all or nothing: it succeeds exactly when the new text parses, is within the
  limits, and breaks nothing stored before or is forced; then the stored text is the new one, what is
  overridden is reported and audited, and no tuple changes. Otherwise the error says why and neither
  text nor tuples nor the audit log change.
\<close>

theorem write_schema_decides:
  assumes "running env K C ec svc" "write_schema env t new_text force svc = (r, svc')"
  shows "(case schema_decision (env_pest_error env) (schema_limits svc) (schema_of (tenant_state (factory svc) t)) new_text force of
      Inl e \<Rightarrow> r = Inl e \<and> schema_of (tenant_state (factory svc') t) = schema_of (tenant_state (factory svc) t) \<and>
        audit_log svc' = audit_log svc
    | Inr b \<Rightarrow> r = Inr \<lparr>breaking_changes_overridden = b\<rparr> \<and> schema_of (tenant_state (factory svc') t) = Some new_text \<and>
        audit_log svc' = audit_log svc @ [SchemaWrite t force b []]) \<and>
    mem_view (tenant_state (factory svc') u) = mem_view (tenant_state (factory svc) u)"
  using mem_factory.write_schema_cases [OF running_inv(1) [OF assms(1)] assms(2)]
  by cases (auto simp: mem_factory.read_only_def mem_factory.obs_same_def)

theorem write_schema_decides_witness:
  "fst (write_schema demo_env demo_tenant ''definition user {}'' False demo_service) =
     Inl (BreakingChanges [TypeRemoved ''group'', TypeRemoved ''folder'', TypeRemoved ''document'']) \<and>
   schema_of (tenant_state (factory (snd (write_schema demo_env demo_tenant ''definition user {}'' False demo_service))) demo_tenant)
     = Some demo_schema_text"
proof -
  let ?w = "write_schema demo_env demo_tenant ''definition user {}'' False demo_service"
  have p: "parse_schema (env_pest_error demo_env) ''definition user {}'' =
      Inr \<lparr>types = [\<lparr>type_name = ''user'', relations = [], permissions = []\<rparr>]\<rparr>" by code_simp
  have b: "detect_breaking_changes demo_schema \<lparr>types = [\<lparr>type_name = ''user'', relations = [], permissions = []\<rparr>]\<rparr> =
      [TypeRemoved ''group'', TypeRemoved ''folder'', TypeRemoved ''document'']" by code_simp
  have "schema_decision (env_pest_error demo_env) SchemaLimits_default (Some demo_schema_text) ''definition user {}'' False =
      Inl (BreakingChanges [TypeRemoved ''group'', TypeRemoved ''folder'', TypeRemoved ''document''])"
    by (simp add: schema_decision_def p demo_schema_parsed b validate_schema_limits_def type_limit_errors_def SchemaLimits_default_def)
  with write_schema_decides [OF demo_running prod.collapse [of ?w, symmetric], of demo_tenant]
  show ?thesis by (simp add: demo_service_def)
qed

section \<open>Expansion and lookups\<close>

text \<open>
  C18. Lookup of subjects misses nobody: every subject of the requested type whose check at the
  version of the response is allowed is listed.
\<close>

theorem lookup_subjects_complete:
  assumes "running env K C ec svc" "fst (lookup_subjects env t input svc) = Inr out"
    and "says_allowed (check_uncached env (tenant_handle t) (factory svc) ec (subject_check input (lso_snapshot out) si))"
  shows "direct (lsi_subject_type input) si \<in> set (lso_subjects out)"
proof -
  obtain x where x: "expand_uncached env (tenant_handle t) (factory svc) ec
      \<lparr>epi_object_type = lsi_object_type input, epi_object_id = lsi_object_id input,
       epi_permission = lsi_permission input, epi_consistency = lsi_consistency input\<rparr> = Inr x"
    and o: "lso_snapshot out = epo_snapshot x" "set (lso_subjects out) = set (collect_subjects (epo_tree x) (lsi_subject_type input))"
    by (rule running_lookup_subjects [OF assms(1,2)])
  from assms(3) o(1) show ?thesis
    by (rule_tac expand_uncached_checks [OF x]) (simp add: o(2) tree_grants_collected)
qed

theorem lookup_subjects_complete_witness:
  "direct ''user'' ''bob'' \<in> set [direct ''user'' ''ann'', direct ''user'' ''bob'']"
proof -
  let ?c = "subject_check (demo_subjects ''can_view'') (Some (SnapshotToken 1)) ''bob''"
  have l: "load_schema demo_env (tenant_handle demo_tenant) (factory demo_service) = Inr demo_schema"
    unfolding demo_service_def by (rule demo_load [OF demo_schema_parsed])
  have "check (engine_at (tenant_handle demo_tenant) (factory demo_service) EngineConfig_default demo_schema)
      (check_request_of ?c (Some (SnapshotToken 1))) = Inr \<lparr>allowed = True\<rparr>" by code_simp
  then have "says_allowed (check_uncached demo_env (tenant_handle demo_tenant) (factory demo_service) EngineConfig_default ?c)"
    by (subst says_allowed_uncached [OF l]) (simp_all add: subject_check_def)
  with lookup_subjects_complete [OF demo_running demo_viewers, of "''bob''"] show ?thesis
    by (simp add: demo_subjects_def)
qed

text \<open>
  C19. Lookup of subjects lists nobody else, among direct subjects, when no permission of the schema
  uses an intersection or an exclusion.
\<close>

theorem lookup_subjects_sound:
  assumes "running env K C ec svc" "fst (lookup_subjects env t input svc) = Inr out"
    and "load_schema env (tenant_handle t) (factory svc) = Inr S" "all_rules monotone_rule S"
    and "direct (lsi_subject_type input) si \<in> set (lso_subjects out)"
  shows "says_allowed (check_uncached env (tenant_handle t) (factory svc) ec (subject_check input (lso_snapshot out) si))"
proof -
  obtain x where x: "expand_uncached env (tenant_handle t) (factory svc) ec
      \<lparr>epi_object_type = lsi_object_type input, epi_object_id = lsi_object_id input,
       epi_permission = lsi_permission input, epi_consistency = lsi_consistency input\<rparr> = Inr x"
    and o: "lso_snapshot out = epo_snapshot x" "set (lso_subjects out) = set (collect_subjects (epo_tree x) (lsi_subject_type input))"
    by (rule running_lookup_subjects [OF assms(1,2)])
  from assms(3-5) o show ?thesis
    by (rule_tac expand_uncached_checks [OF x]) (simp add: collected_iff_grants)
qed

theorem lookup_subjects_sound_witness:
  "says_allowed (check_uncached demo_env (tenant_handle demo_tenant) (factory plain_service) EngineConfig_default
     (subject_check \<lparr>lsi_object_type = ''doc'', lsi_object_id = ''1'', lsi_permission = ''view'', lsi_subject_type = ''user'',
        lsi_consistency = MinimizeLatency\<rparr> None ''ann''))"
proof -
  let ?in = "\<lparr>lsi_object_type = ''doc'', lsi_object_id = ''1'', lsi_permission = ''view'', lsi_subject_type = ''user'',
    lsi_consistency = MinimizeLatency\<rparr>"
  have l: "fst (lookup_subjects demo_env demo_tenant ?in plain_service) =
      Inr \<lparr>lso_subjects = [direct ''user'' ''ann''], lso_snapshot = None\<rparr>" by code_simp
  have S: "load_schema demo_env (tenant_handle demo_tenant) (factory plain_service) = Inr plain_schema"
    unfolding plain_service_def by (rule demo_load [OF plain_parsed])
  from lookup_subjects_sound [OF plain_running l S, of "''ann''"] show ?thesis by (simp add: all_rules_def plain_schema_def)
qed

text \<open>
  C20. Lookup of resources lists, in order and up to the limit (1000 by default), exactly the objects
  of the type, among those with a tuple at that version, whose check at that version is allowed.
\<close>

theorem lookup_resources_exact:
  assumes "running env K C ec svc" "fst (lookup_resources env t input svc) = Inr out"
  shows "\<exists>ids. mem_list_object_ids (tenant_state (factory svc) t) (lri_resource_type input) (lro_snapshot out) None = Inr ids \<and>
    lro_resource_ids out = take (case lri_limit input of Some n \<Rightarrow> n | None \<Rightarrow> 1000)
      (filter (\<lambda>oi. says_allowed (check_uncached env (tenant_handle t) (factory svc) ec
         (resource_check input (lro_snapshot out) oi))) ids)"
proof -
  note i = running_inv [OF assms(1)]
  obtain r svc' where l: "lookup_resources env t input svc = (r, svc')" by fastforce
  with mem_factory.lookup_resources_ok [OF i(1) l] assms(2) i(2)
  have "lookup_resources_uncached env (tenant_handle t) (factory svc) ec input = Inr out" by simp
  then show ?thesis
    by (rule lookup_resources_uncached_exact) (auto simp: tenant_handle_def)
qed

theorem lookup_resources_exact_witness:
  "\<exists>out. fst (lookup_resources demo_env demo_tenant demo_resources demo_service) = Inr out \<and>
     lro_resource_ids out = take 5 (filter (\<lambda>oi. says_allowed (check_uncached demo_env (tenant_handle demo_tenant)
       (factory demo_service) EngineConfig_default (resource_check demo_resources (lro_snapshot out) oi))) [''plan''])"
proof -
  have l: "fst (lookup_resources demo_env demo_tenant demo_resources demo_service) =
      Inr \<lparr>lro_resource_ids = [''plan''], lro_snapshot = Some (SnapshotToken 1)\<rparr>" by code_simp
  have i: "mem_list_object_ids (tenant_state (factory demo_service) demo_tenant) ''document'' (Some (SnapshotToken 1)) None =
      Inr [''plan'']" by code_simp
  have d: "lri_resource_type demo_resources = ''document''" "lri_limit demo_resources = Some 5"
    by (simp_all add: demo_resources_def)
  obtain ids where "mem_list_object_ids (tenant_state (factory demo_service) demo_tenant) ''document'' (Some (SnapshotToken 1)) None = Inr ids"
    and ids: "[''plan''] = take 5 (filter (\<lambda>oi. says_allowed (check_uncached demo_env (tenant_handle demo_tenant)
       (factory demo_service) EngineConfig_default (resource_check demo_resources (Some (SnapshotToken 1)) oi))) ids)"
    using lookup_resources_exact [OF demo_running l]
    by (auto simp only: d option.case LookupResourcesOutput.select_convs)
  with i have e: "ids = [''plan'']" by simp
  show ?thesis
    by (rule exI [of _ "\<lparr>lro_resource_ids = [''plan''], lro_snapshot = Some (SnapshotToken 1)\<rparr>"])
      (rule conjI [OF l], simp only: LookupResourcesOutput.select_convs, rule ids [unfolded e])
qed


text \<open>
  C14. Expansion and check agree: where the tree of a permission can be built, every check of that
  permission on the same engine answers, and allows exactly the subjects the tree grants, read as an
  expression over sets.
\<close>

theorem check_agrees_with_expand:
  assumes "expand (expand_engine_of (engine_at (tenant_handle t) stores cfg S))
      \<lparr>er_object_type = cr_object_type req, er_object_id = cr_object_id req,
       er_permission = cr_permission req, er_snapshot = cr_snapshot req\<rparr> = Inr tree"
  shows "check (engine_at (tenant_handle t) stores cfg S) req =
    Inr \<lparr>allowed = tree_grants tree (cr_subject_type req) (cr_subject_id req)\<rparr>"
  using assms by (rule tenant.reader.check_of_expand [OF engine_at_sel(1)])

theorem check_agrees_with_expand_witness:
  "check (engine_at (tenant_handle demo_tenant) (factory demo_service) EngineConfig_default demo_schema)
     (check_request_of (demo_check ''can_view'' ''eve'') None) = Inr \<lparr>allowed = False\<rparr>"
proof -
  let ?req = "check_request_of (demo_check ''can_view'' ''eve'') None"
  have x: "expand (expand_engine_of (engine_at (tenant_handle demo_tenant) (factory demo_service) EngineConfig_default demo_schema))
      \<lparr>er_object_type = cr_object_type ?req, er_object_id = cr_object_id ?req,
       er_permission = cr_permission ?req, er_snapshot = cr_snapshot ?req\<rparr> =
     Inr (TUnion [TThis ''owner'' [TLeaf (direct ''user'' ''ann'')],
       TArrow ''parent'' ''can_view'' [TThis ''viewer'' [TLeaf (direct ''user'' ''bob'')]]])" by code_simp
  from check_agrees_with_expand [OF x] show ?thesis
    by (simp add: check_request_of_def demo_check_def SubjectRef_expand)
qed

end
